(* ===== verification/Prelude.thy ===== *)
theory Prelude
  imports Main "HOL-Library.Word"
begin

text \<open>
  Shared material: the C integer types, character buffers and the C library's string
  functions on them, byte order, and the automation collections of the development.

  A \<^verbatim>\<open>char buf[N]\<close> of the program is a \<open>char list\<close> of length \<open>N\<close>; the C string
  it holds is the part before the first NUL byte (\<open>cstr\<close>).  Bytes behind that NUL stay
  in the buffer, as they do in memory.
\<close>

unbundle bit_operations_syntax

named_theorems program_defs \<open>definitions of the twelve BPF programs\<close>
named_theorems stage_defs \<open>definitions of the stages of the daemon's main loop\<close>

section \<open>C types\<close>

type_synonym u8 = "8 word"
type_synonym u16 = "16 word"
type_synonym u32 = "32 word"
type_synonym u64 = "64 word"

type_synonym c_int = int
type_synonym buffer = "char list"

section \<open>Character buffers\<close>

abbreviation (input) NUL :: char where
  "NUL \<equiv> CHR 0x00"

definition zeroed :: "nat \<Rightarrow> buffer" where
  "zeroed n = replicate n NUL"

definition cstr :: "buffer \<Rightarrow> string" where
  "cstr b = takeWhile (\<lambda>c. c \<noteq> NUL) b"

definition c_strnlen :: "buffer \<Rightarrow> nat \<Rightarrow> nat" where
  "c_strnlen b n = length (cstr (take n b))"

text \<open>
  The copy loop that the BPF programs write out by hand (it appears five times):
  \<^verbatim>\<open>for (i = 0; i < n; i++) { dst[i] = src[i]; if (!dst[i]) break; }\<close>.
\<close>

fun copy_until_nul :: "nat \<Rightarrow> buffer \<Rightarrow> buffer \<Rightarrow> buffer" where
  "copy_until_nul (Suc n) (d # ds) (s # ss) =
     (if s = NUL then NUL # ds else s # copy_until_nul n ds ss)"
| "copy_until_nul _ dst _ = dst"

text \<open>\<^verbatim>\<open>snprintf(dst, size, "%s", src)\<close> with \<open>n > 0\<close>: the new contents of \<open>dst\<close>.\<close>

definition snprintf_s :: "buffer \<Rightarrow> nat \<Rightarrow> buffer \<Rightarrow> buffer" where
  "snprintf_s dst n src =
     (let t = take (n - 1) (cstr src) in t @ NUL # drop (Suc (length t)) dst)"

text \<open>\<^verbatim>\<open>%u\<close> and \<^verbatim>\<open>%llu\<close> of \<^verbatim>\<open>printf\<close>.\<close>

fun decimal :: "nat \<Rightarrow> string" where
  "decimal n =
     (if n < 10 then [char_of (48 + n)] else decimal (n div 10) @ [char_of (48 + n mod 10)])"

declare decimal.simps [simp del]

lemma length_zeroed [simp]: "length (zeroed n) = n"
  by (simp add: zeroed_def)

lemma cstr_Nil [simp]: "cstr [] = []"
  by (simp add: cstr_def)

lemma cstr_Cons [simp]: "cstr (c # cs) = (if c = NUL then [] else c # cstr cs)"
  by (simp add: cstr_def)

lemma cstr_no_nul [simp]: "NUL \<notin> set (cstr b)"
  by (induction b) auto

lemma cstr_idem [simp]: "cstr (cstr b) = cstr b"
  by (induction b) auto

lemma cstr_id: "NUL \<notin> set b \<Longrightarrow> cstr b = b"
  by (induction b) auto

lemma cstr_append_nul [simp]: "NUL \<notin> set b \<Longrightarrow> cstr (b @ NUL # bs) = b"
  by (induction b) auto

lemma cstr_zeroed [simp]: "cstr (zeroed n) = []"
  by (cases n) (auto simp: zeroed_def)

lemma length_cstr: "length (cstr b) \<le> length b"
  by (simp add: cstr_def length_takeWhile_le)

lemma cstr_take: "cstr (take n b) = take n (cstr b)"
proof (induction b arbitrary: n)
  case Nil
  then show ?case by simp
next
  case (Cons c b)
  then show ?case by (cases n) auto
qed

lemma cstr_prefix: "take (length (cstr b)) b = cstr b"
  by (induction b) auto

lemma cstr_append: "cstr (xs @ ys) = (if NUL \<in> set xs then cstr xs else xs @ cstr ys)"
  by (induction xs) auto

lemma length_copy_until_nul [simp]: "length (copy_until_nul n dst src) = length dst"
  by (induction n dst src rule: copy_until_nul.induct) auto

text \<open>
  What the copy loop leaves in \<open>dst\<close>: the string of \<open>src\<close>, when it is shorter than the
  bound and both buffers are long enough; the first \<open>n\<close> bytes otherwise.
\<close>

lemma copy_until_nul_short:
  "length (cstr src) < n \<Longrightarrow> length (cstr src) < length dst \<Longrightarrow> NUL \<in> set src \<Longrightarrow>
   copy_until_nul n dst src = cstr src @ NUL # drop (Suc (length (cstr src))) dst"
  by (induction n dst src rule: copy_until_nul.induct) auto

lemma copy_until_nul_long:
  "n \<le> length (cstr src) \<Longrightarrow> n \<le> length dst \<Longrightarrow>
   copy_until_nul n dst src = take n src @ drop n dst"
  by (induction n dst src rule: copy_until_nul.induct) auto

text \<open>A string in a zeroed buffer of \<open>n\<close> bytes, cut when it does not fit.\<close>

definition padded :: "nat \<Rightarrow> string \<Rightarrow> buffer" where
  "padded n t = take n (t @ zeroed n)"

lemma length_padded [simp]: "length (padded n t) = n"
  by (simp add: padded_def)

lemma copy_until_nul_zeroed:
  assumes "n \<le> length b \<or> NUL \<in> set b"
  shows "copy_until_nul n (zeroed n) b = padded n (cstr b)"
  using assms
proof (induction b arbitrary: n)
  case Nil
  then show ?case by (simp add: padded_def zeroed_def)
next
  case (Cons c b)
  show ?case
  proof (cases n)
    case 0
    then show ?thesis by (simp add: padded_def zeroed_def)
  next
    case (Suc m)
    have "copy_until_nul m (zeroed m) b = padded m (cstr b)" if "c \<noteq> NUL"
      using Cons Suc that by simp
    moreover have "take m (zeroed (Suc m)) = zeroed m" and "zeroed (Suc m) = NUL # zeroed m"
      and "take m (cstr b @ NUL # zeroed m) = take m (cstr b @ zeroed m)"
      by (simp_all add: zeroed_def take_replicate min_def take_Cons' replicate_app_Cons_same
          flip: replicate_Suc)
    ultimately show ?thesis using Suc by (simp add: padded_def)
  qed
qed

lemma cstr_padded: "NUL \<notin> set t \<Longrightarrow> cstr (padded n t) = take n t"
  by (simp add: padded_def cstr_take cstr_append cstr_id)

lemma padded_take: "m \<le> n \<Longrightarrow> padded m (take n t) = padded m t"
  by (cases "length t \<le> n") (simp_all add: padded_def min_def)

lemma nth_0_nul: "b \<noteq> [] \<Longrightarrow> b ! 0 = NUL \<longleftrightarrow> cstr b = []"
  by (cases b) auto

lemma cstr_short_has_nul: "length (cstr b) < length b \<Longrightarrow> NUL \<in> set b"
  by (metis cstr_id nat_less_le)

lemma cstr_snprintf_s [simp]: "cstr (snprintf_s dst n src) = take (n - 1) (cstr src)"
  by (simp add: snprintf_s_def Let_def cstr_append) (meson cstr_no_nul in_set_takeD)

lemma length_snprintf_s:
  "0 < n \<Longrightarrow> n \<le> length dst \<Longrightarrow> length (snprintf_s dst n src) = length dst"
  by (simp add: snprintf_s_def Let_def)

lemma c_strnlen_le: "c_strnlen b n \<le> n"
  unfolding c_strnlen_def using length_cstr [of "take n b"] by simp

lemma c_strnlen_eq: "c_strnlen b n = min n (length (cstr b))"
  by (simp add: c_strnlen_def cstr_take)

section \<open>Byte order\<close>

text \<open>
  The target is little-endian.  Multi-byte fields of the network stack hold network order;
  \<open>bpf_ntohs\<close>, \<open>ntohl\<close> and \<open>htonl\<close> swap the bytes.  The memory image of a 32-bit field,
  which the kernel's tries compare, is the list of its bytes, lowest first.
\<close>

definition bswap16 :: "u16 \<Rightarrow> u16" where
  "bswap16 w = push_bit 8 w OR drop_bit 8 w"

definition le_bytes32 :: "u32 \<Rightarrow> u8 list" where
  "le_bytes32 w = [ucast w, ucast (drop_bit 8 w), ucast (drop_bit 16 w), ucast (drop_bit 24 w)]"

definition bswap32 :: "u32 \<Rightarrow> u32" where
  "bswap32 w =
     push_bit 24 (take_bit 8 w) OR push_bit 16 (take_bit 8 (drop_bit 8 w))
       OR push_bit 8 (take_bit 8 (drop_bit 16 w)) OR take_bit 8 (drop_bit 24 w)"

text \<open>The bits of a byte, most significant first.\<close>

definition byte_bits :: "u8 \<Rightarrow> bool list" where
  "byte_bits b = map (bit b) [7, 6, 5, 4, 3, 2, 1, 0]"

definition bits_of_bytes :: "u8 list \<Rightarrow> bool list" where
  "bits_of_bytes bs = concat (map byte_bits bs)"

definition char_byte :: "char \<Rightarrow> u8" where
  "char_byte c = of_nat (of_char c)"

lemma bswap16_bswap16 [simp]: "bswap16 (bswap16 w) = w"
  by (rule bit_word_eqI) (auto simp: bswap16_def bit_simps)

lemma bit_bswap32:
  "bit (bswap32 w) n \<longleftrightarrow>
     (if n < 8 then bit w (n + 24) else if n < 16 then bit w (n + 8)
      else if n < 24 then bit w (n - 8) else n < 32 \<and> bit w (n - 24))"
  by (auto simp: bswap32_def bit_simps ac_simps)

lemma bswap32_bswap32 [simp]: "bswap32 (bswap32 w) = w"
  by (rule bit_word_eqI) (auto simp: bit_bswap32)

lemma length_byte_bits [simp]: "length (byte_bits b) = 8"
  by (simp add: byte_bits_def)

lemma byte_bits_inject [simp]: "byte_bits a = byte_bits b \<longleftrightarrow> a = b"
proof
  assume "byte_bits a = byte_bits b"
  then have "\<forall>n < 8. bit a n = bit b n"
    unfolding byte_bits_def by (simp add: numeral_eq_Suc less_Suc_eq)
  then show "a = b" by (intro bit_word_eqI) simp
qed simp

lemma char_byte_inject [simp]: "char_byte c = char_byte d \<longleftrightarrow> c = d"
proof -
  have range: "(of_char x :: nat) < 256" for x
    by simp
  show ?thesis
    using range [of c] range [of d]
    by (auto simp: char_byte_def word_of_nat_eq_iff take_bit_nat_eq_self)
qed

end
