(* ===== verification/Common.thy ===== *)
theory Common
  imports Prelude
begin

text \<open>
  The shared headers: \<^verbatim>\<open>include/common.h\<close> (sizes, flag bits, the enums with
  the values they have in map memory, \<open>mcp_guard_action_valid\<close>, \<open>mcp_guard_hook_mask\<close>),
  \<^verbatim>\<open>include/cache_key.h\<close>, \<^verbatim>\<open>include/policy.h\<close> and \<^verbatim>\<open>include/event.h\<close> (the structs
  that user space and the BPF programs exchange).  The enums stay 32-bit words, because the
  structs carry them as \<open>__u32\<close> and the programs test for values outside the enum.
\<close>

section \<open>Constants of common.h\<close>

abbreviation (input) MCP_GUARD_PATH_LEN :: nat where "MCP_GUARD_PATH_LEN \<equiv> 256"
abbreviation (input) MCP_GUARD_RULE_VALUE_LEN :: nat where "MCP_GUARD_RULE_VALUE_LEN \<equiv> 192"
abbreviation (input) MCP_GUARD_PATH_LPM_LEN :: nat where "MCP_GUARD_PATH_LPM_LEN \<equiv> 192"
abbreviation (input) MCP_GUARD_RULE_NAME_LEN :: nat where "MCP_GUARD_RULE_NAME_LEN \<equiv> 64"
abbreviation (input) MCP_GUARD_COMM_LEN :: nat where "MCP_GUARD_COMM_LEN \<equiv> 16"
abbreviation (input) MCP_GUARD_PROFILE_NAME_LEN :: nat where "MCP_GUARD_PROFILE_NAME_LEN \<equiv> 64"
abbreviation (input) MCP_GUARD_MAX_RULES :: nat where "MCP_GUARD_MAX_RULES \<equiv> 32"
abbreviation (input) MCP_GUARD_MAX_SCOPES :: nat where "MCP_GUARD_MAX_SCOPES \<equiv> 64"

abbreviation (input) MCP_GUARD_EPOCH_KEY :: u32 where "MCP_GUARD_EPOCH_KEY \<equiv> 0"
abbreviation (input) MCP_GUARD_CONFIG_KEY :: u32 where "MCP_GUARD_CONFIG_KEY \<equiv> 0"
abbreviation (input) MCP_GUARD_DENY_ERRNO :: c_int where "MCP_GUARD_DENY_ERRNO \<equiv> 13"
abbreviation (input) MCP_GUARD_TAIL_L2 :: u32 where "MCP_GUARD_TAIL_L2 \<equiv> 0"
abbreviation (input) MCP_GUARD_TAIL_L3 :: u32 where "MCP_GUARD_TAIL_L3 \<equiv> 1"
abbreviation (input) MCP_GUARD_METRIC_SLOTS :: nat where "MCP_GUARD_METRIC_SLOTS \<equiv> 256"
abbreviation (input) MCP_GUARD_HIST_BUCKETS :: nat where "MCP_GUARD_HIST_BUCKETS \<equiv> 8"

abbreviation (input) MCP_GUARD_S_IFMT :: u16 where "MCP_GUARD_S_IFMT \<equiv> 0xF000"
abbreviation (input) MCP_GUARD_S_IFREG :: u16 where "MCP_GUARD_S_IFREG \<equiv> 0x8000"
abbreviation (input) MCP_GUARD_S_IFDIR :: u16 where "MCP_GUARD_S_IFDIR \<equiv> 0x4000"

abbreviation (input) MCP_GUARD_MAY_EXEC :: u32 where "MCP_GUARD_MAY_EXEC \<equiv> 1"
abbreviation (input) MCP_GUARD_MAY_WRITE :: u32 where "MCP_GUARD_MAY_WRITE \<equiv> 2"
abbreviation (input) MCP_GUARD_MAY_READ :: u32 where "MCP_GUARD_MAY_READ \<equiv> 4"
abbreviation (input) MCP_GUARD_MAY_APPEND :: u32 where "MCP_GUARD_MAY_APPEND \<equiv> 8"

abbreviation (input) MCP_GUARD_AF_INET :: u16 where "MCP_GUARD_AF_INET \<equiv> 2"

abbreviation (input) MCP_GUARD_POLICY_F_SKIP_DIR_READ :: u32 where
  "MCP_GUARD_POLICY_F_SKIP_DIR_READ \<equiv> 1"
abbreviation (input) MCP_GUARD_POLICY_F_CACHE_FILE_FOLLOWUPS :: u32 where
  "MCP_GUARD_POLICY_F_CACHE_FILE_FOLLOWUPS \<equiv> 2"
abbreviation (input) MCP_GUARD_POLICY_F_DENY_TAILCALL_FAIL :: u32 where
  "MCP_GUARD_POLICY_F_DENY_TAILCALL_FAIL \<equiv> 4"
abbreviation (input) MCP_GUARD_POLICY_F_SKIP_L2_SAFE :: u32 where
  "MCP_GUARD_POLICY_F_SKIP_L2_SAFE \<equiv> 8"
abbreviation (input) MCP_GUARD_RULE_F_SKIP_L2_SAFE :: u32 where
  "MCP_GUARD_RULE_F_SKIP_L2_SAFE \<equiv> 1"

section \<open>Enums of common.h\<close>

abbreviation (input) MCP_GUARD_ACTION_ALLOW :: u32 where "MCP_GUARD_ACTION_ALLOW \<equiv> 0"
abbreviation (input) MCP_GUARD_ACTION_DENY :: u32 where "MCP_GUARD_ACTION_DENY \<equiv> 1"
abbreviation (input) MCP_GUARD_ACTION_AUDIT :: u32 where "MCP_GUARD_ACTION_AUDIT \<equiv> 2"
abbreviation (input) MCP_GUARD_ACTION_UNSET :: u32 where "MCP_GUARD_ACTION_UNSET \<equiv> 255"

definition mcp_guard_action_valid :: "u32 \<Rightarrow> bool" where
  "mcp_guard_action_valid action \<longleftrightarrow>
     action = MCP_GUARD_ACTION_ALLOW \<or> action = MCP_GUARD_ACTION_DENY \<or>
     action = MCP_GUARD_ACTION_AUDIT"

abbreviation (input) MCP_GUARD_HOOK_EXEC :: u32 where "MCP_GUARD_HOOK_EXEC \<equiv> 1"
abbreviation (input) MCP_GUARD_HOOK_FILE_OPEN :: u32 where "MCP_GUARD_HOOK_FILE_OPEN \<equiv> 2"
abbreviation (input) MCP_GUARD_HOOK_FILE_READ :: u32 where "MCP_GUARD_HOOK_FILE_READ \<equiv> 3"
abbreviation (input) MCP_GUARD_HOOK_FILE_WRITE :: u32 where "MCP_GUARD_HOOK_FILE_WRITE \<equiv> 4"
abbreviation (input) MCP_GUARD_HOOK_SOCKET_CONNECT :: u32 where "MCP_GUARD_HOOK_SOCKET_CONNECT \<equiv> 5"

abbreviation (input) MCP_GUARD_RULE_PATH_PREFIX :: u32 where "MCP_GUARD_RULE_PATH_PREFIX \<equiv> 1"
abbreviation (input) MCP_GUARD_RULE_COMMAND_PREFIX :: u32 where "MCP_GUARD_RULE_COMMAND_PREFIX \<equiv> 2"
abbreviation (input) MCP_GUARD_RULE_IPV4_CONNECT :: u32 where "MCP_GUARD_RULE_IPV4_CONNECT \<equiv> 3"

abbreviation (input) MCP_GUARD_LAYER_L1 :: u32 where "MCP_GUARD_LAYER_L1 \<equiv> 1"
abbreviation (input) MCP_GUARD_LAYER_L2 :: u32 where "MCP_GUARD_LAYER_L2 \<equiv> 2"
abbreviation (input) MCP_GUARD_LAYER_L3 :: u32 where "MCP_GUARD_LAYER_L3 \<equiv> 3"

abbreviation (input) MCP_GUARD_REASON_POLICY :: u32 where "MCP_GUARD_REASON_POLICY \<equiv> 1"
abbreviation (input) MCP_GUARD_REASON_DEFAULT :: u32 where "MCP_GUARD_REASON_DEFAULT \<equiv> 2"
abbreviation (input) MCP_GUARD_REASON_L1_CACHE :: u32 where "MCP_GUARD_REASON_L1_CACHE \<equiv> 3"
abbreviation (input) MCP_GUARD_REASON_L2_SAFE :: u32 where "MCP_GUARD_REASON_L2_SAFE \<equiv> 4"

abbreviation (input) MCP_GUARD_SCOPE_SYSTEM_WIDE :: u32 where "MCP_GUARD_SCOPE_SYSTEM_WIDE \<equiv> 0"
abbreviation (input) MCP_GUARD_SCOPE_SCOPED :: u32 where "MCP_GUARD_SCOPE_SCOPED \<equiv> 1"
abbreviation (input) MCP_GUARD_SCOPE_SELECTOR_COMM :: u32 where "MCP_GUARD_SCOPE_SELECTOR_COMM \<equiv> 1"
abbreviation (input) MCP_GUARD_SCOPE_SELECTOR_PID :: u32 where "MCP_GUARD_SCOPE_SELECTOR_PID \<equiv> 2"
abbreviation (input) MCP_GUARD_SCOPE_SELECTOR_TGID :: u32 where "MCP_GUARD_SCOPE_SELECTOR_TGID \<equiv> 3"

text \<open>\<^verbatim>\<open>1U << hook_id\<close>; the callers pass hook ids 1 to 5, below the width.\<close>

definition mcp_guard_hook_mask :: "u32 \<Rightarrow> u32" where
  "mcp_guard_hook_mask hook_id = push_bit (unat hook_id) 1"

section \<open>cache_key.h\<close>

record mcp_cache_key =
  ck_tgid :: u32
  ck_pid :: u32
  ck_hook_id :: u32
  ck_reserved :: u32
  ck_resource_id :: u64

record mcp_cache_value =
  cv_epoch :: u64
  cv_action :: u32
  cv_flags :: u32
  cv_rule_id :: u32
  cv_reason :: u32

text \<open>The zero-initialised structs (\<^verbatim>\<open>= {}\<close>) the programs start from.\<close>

definition zero_cache_key :: mcp_cache_key where
  "zero_cache_key =
     \<lparr>ck_tgid = 0, ck_pid = 0, ck_hook_id = 0, ck_reserved = 0, ck_resource_id = 0\<rparr>"

definition zero_cache_value :: mcp_cache_value where
  "zero_cache_value =
     \<lparr>cv_epoch = 0, cv_action = 0, cv_flags = 0, cv_rule_id = 0, cv_reason = 0\<rparr>"

section \<open>policy.h\<close>

record mcp_policy_config =
  cfg_default_action :: u32
  cfg_enforce :: u32
  cfg_audit_allowed :: u32
  cfg_rule_count :: u32
  cfg_flags :: u32
  cfg_active_generation :: u32
  cfg_profile_id :: u32
  cfg_agent_id :: u32
  cfg_scope_mode :: u32
  cfg_scope_count :: u32
  cfg_profile_name :: buffer

record mcp_policy_rule =
  rule_enabled :: u32
  rule_rule_id :: u32
  rule_rule_type :: u32
  rule_action :: u32
  rule_hook_mask :: u32
  rule_flags :: u32
  rule_value_len :: u32
  rule_port :: u32
  rule_ipv4_addr :: u32
  rule_ipv4_mask :: u32
  rule_resource_id :: u64
  rule_value :: buffer
  rule_name :: buffer

record mcp_path_lpm_key =
  plk_prefixlen :: u32
  plk_generation :: u32
  plk_path :: buffer

record mcp_path_policy_value =
  ppv_enabled :: u32
  ppv_rule_id :: u32
  ppv_action :: u32
  ppv_hook_mask :: u32
  ppv_flags :: u32
  ppv_value_len :: u32
  ppv_resource_id :: u64
  ppv_name :: buffer

record mcp_command_lpm_key =
  clk_prefixlen :: u32
  clk_generation :: u32
  clk_command :: buffer

record mcp_network_lpm_key =
  nlk_prefixlen :: u32
  nlk_generation :: u32
  nlk_port :: u32
  nlk_ipv4_addr :: u32

record mcp_resource_policy_key =
  rpk_generation :: u32
  rpk_rule_type :: u32
  rpk_resource_id :: u64

record mcp_indexed_policy_value =
  ipv_enabled :: u32
  ipv_rule_id :: u32
  ipv_action :: u32
  ipv_hook_mask :: u32
  ipv_flags :: u32
  ipv_value_len :: u32
  ipv_port :: u32
  ipv_ipv4_addr :: u32
  ipv_ipv4_mask :: u32
  ipv_resource_id :: u64
  ipv_name :: buffer

record mcp_comm_scope_key =
  csk_comm :: buffer

record mcp_scope_value =
  sv_profile_id :: u32
  sv_agent_id :: u32
  sv_selector_type :: u32

section \<open>event.h\<close>

record mcp_event =
  ev_ts_ns :: u64
  ev_duration_ns :: u64
  ev_epoch :: u64
  ev_resource_id :: u64
  ev_tgid :: u32
  ev_pid :: u32
  ev_uid :: u32
  ev_gid :: u32
  ev_hook_id :: u32
  ev_action :: u32
  ev_layer :: u32
  ev_reason :: u32
  ev_rule_id :: u32
  ev_profile_id :: u32
  ev_agent_id :: u32
  ev_error :: u32
  ev_data_len :: u32
  ev_family :: u16
  ev_port :: u16
  ev_ipv4_addr :: u32
  ev_comm :: buffer
  ev_path :: buffer
  ev_rule_name :: buffer

record mcp_metric_value =
  mv_count :: u64
  mv_total_ns :: u64
  mv_min_ns :: u64
  mv_max_ns :: u64
  mv_buckets :: "u64 list"

section \<open>Facts about the constants\<close>

lemma unset_invalid [simp]: "\<not> mcp_guard_action_valid 255"
  by (simp add: mcp_guard_action_valid_def)

lemma valid_not_unset: "mcp_guard_action_valid a \<Longrightarrow> a \<noteq> 255"
  by auto

lemma action_valid_consts [simp]:
  "mcp_guard_action_valid 0" "mcp_guard_action_valid 1" "mcp_guard_action_valid 2"
  by (simp_all add: mcp_guard_action_valid_def)

lemma hook_mask_consts [simp]:
  "mcp_guard_hook_mask 1 = 2" "mcp_guard_hook_mask 2 = 4" "mcp_guard_hook_mask 3 = 8"
  "mcp_guard_hook_mask 4 = 16" "mcp_guard_hook_mask 5 = 32"
  by (simp_all add: mcp_guard_hook_mask_def)

end
