(* ===== verification/Kernel.thy ===== *)
theory Kernel
  imports Common
begin

text \<open>
  The maps of \<^verbatim>\<open>bpf/maps.bpf.h\<close> as one state record, the kernel objects the hooks
  are handed, and the kernel helpers the programs call.  The helpers are not code of the
  repository: they are a parameter of the model (the record \<open>helpers\<close>), and what the
  programs rely on about them is stated as named predicates (\<open>lpm_law\<close>, \<open>lru_law\<close>,
  \<open>lru_keeps\<close>, \<open>d_path_law\<close>) that appear as hypotheses where a theorem needs them.

  Array maps are functions from their index, hash maps and tries the list of their entries in
  the order the kernel iterates them; per-CPU maps take the CPU number first.
\<close>

section \<open>maps.bpf.h\<close>

record mcp_tail_state =
  ts_start_ns :: u64

record mcp_scratch =
  sc_path :: buffer
  sc_rule_name :: buffer

text \<open>What the \<^verbatim>\<open>PROG_ARRAY\<close> maps hold: the program of a hook that a slot refers to.\<close>

datatype tail_prog = Prog_L1 | Prog_L2 | Prog_L3

type_synonym cache = "mcp_cache_key \<rightharpoonup> mcp_cache_value"
type_synonym path_trie = "(mcp_path_lpm_key \<times> mcp_path_policy_value) list"
type_synonym command_trie = "(mcp_command_lpm_key \<times> mcp_indexed_policy_value) list"
type_synonym network_trie = "(mcp_network_lpm_key \<times> mcp_indexed_policy_value) list"
type_synonym resource_hash = "(mcp_resource_policy_key \<times> mcp_indexed_policy_value) list"

record bpf_state =
  l1_cache :: "nat \<Rightarrow> cache"
  global_epoch :: "u32 \<rightharpoonup> u64"
  policy_config :: "u32 \<rightharpoonup> mcp_policy_config"
  policy_rules :: "u32 \<rightharpoonup> mcp_policy_rule"
  scope_comm :: "(mcp_comm_scope_key \<times> mcp_scope_value) list"
  scope_pid :: "(u32 \<times> mcp_scope_value) list"
  scope_tgid :: "(u32 \<times> mcp_scope_value) list"
  path_policy_trie :: path_trie
  command_policy_trie :: command_trie
  network_policy_trie :: network_trie
  resource_policy_hash :: resource_hash
  events :: "mcp_event list"
  metrics :: "nat \<Rightarrow> u32 \<rightharpoonup> mcp_metric_value"
  tail_state :: "nat \<Rightarrow> u32 \<rightharpoonup> mcp_tail_state"
  scratch :: "nat \<Rightarrow> u32 \<rightharpoonup> mcp_scratch"
  exec_pipeline :: "u32 \<rightharpoonup> tail_prog"
  file_open_pipeline :: "u32 \<rightharpoonup> tail_prog"
  file_permission_pipeline :: "u32 \<rightharpoonup> tail_prog"
  socket_connect_pipeline :: "u32 \<rightharpoonup> tail_prog"
  ticks :: nat

text \<open>
  \<open>ticks\<close> counts the clock readings made so far; it is no map, but names which reading of
  \<open>bpf_ktime_get_ns\<close> comes next.
\<close>

section \<open>Kernel objects and the current task\<close>

record inode =
  i_ino :: u64
  i_mode :: u16

record kfile =
  f_inode :: "inode option"
  f_path :: string

record linux_binprm =
  bprm_file :: "kfile option"
  bprm_filename :: "string option"

text \<open>A socket address as it lies in memory: \<open>sin_port\<close> and \<open>sin_addr\<close> in network order.\<close>

record sockaddr =
  sa_family :: u16
  sin_port :: u16
  sin_addr :: u32

record task =
  t_pid_tgid :: u64
  t_uid_gid :: u64
  t_comm :: buffer
  t_cpu :: nat

abbreviation task_pid :: "task \<Rightarrow> u32" where
  "task_pid tk \<equiv> ucast (t_pid_tgid tk)"

abbreviation task_tgid :: "task \<Rightarrow> u32" where
  "task_tgid tk \<equiv> ucast (drop_bit 32 (t_pid_tgid tk))"

section \<open>Kernel helpers\<close>

record helpers =
  h_ktime :: "nat \<Rightarrow> u64"
  h_path_lookup :: "path_trie \<Rightarrow> mcp_path_lpm_key \<Rightarrow> mcp_path_policy_value option"
  h_command_lookup :: "command_trie \<Rightarrow> mcp_command_lpm_key \<Rightarrow> mcp_indexed_policy_value option"
  h_network_lookup :: "network_trie \<Rightarrow> mcp_network_lpm_key \<Rightarrow> mcp_indexed_policy_value option"
  h_cache_update :: "cache \<Rightarrow> mcp_cache_key \<Rightarrow> mcp_cache_value \<Rightarrow> cache"
  h_ringbuf_reserve :: "mcp_event list \<Rightarrow> bool"
  h_read_str :: "buffer \<Rightarrow> nat \<Rightarrow> string \<Rightarrow> buffer"
  h_d_path :: "buffer \<Rightarrow> nat \<Rightarrow> string \<Rightarrow> c_int \<times> buffer"

text \<open>\<open>bpf_ktime_get_ns\<close>: the next reading of the clock.\<close>

definition ktime_get_ns :: "helpers \<Rightarrow> bpf_state \<Rightarrow> u64 \<times> bpf_state" where
  "ktime_get_ns h s = (h_ktime h (ticks s), s\<lparr>ticks := Suc (ticks s)\<rparr>)"

subsection \<open>Longest-prefix-match tries\<close>

text \<open>
  A trie key is a prefix length and the bytes behind it in the struct.  \<open>bpf_map_lookup_elem\<close>
  on a trie returns the value of an entry that agrees with the searched key on the entry's own
  prefix, no longer than the searched prefix, with no longer such entry in the map.
\<close>

definition lpm_matches ::
  "('k \<Rightarrow> u32) \<Rightarrow> ('k \<Rightarrow> bool list) \<Rightarrow> 'k \<Rightarrow> 'k \<Rightarrow> bool" where
  "lpm_matches plen kbits k q \<longleftrightarrow>
     plen k \<le> plen q \<and> take (unat (plen k)) (kbits k) = take (unat (plen k)) (kbits q)"

definition lpm_law ::
  "('k \<Rightarrow> u32) \<Rightarrow> ('k \<Rightarrow> bool list) \<Rightarrow> (('k \<times> 'v) list \<Rightarrow> 'k \<Rightarrow> 'v option) \<Rightarrow> bool" where
  "lpm_law plen kbits lookup \<longleftrightarrow>
     (\<forall>t q. case lookup t q of
        None \<Rightarrow> \<forall>k v. (k, v) \<in> set t \<longrightarrow> \<not> lpm_matches plen kbits k q
      | Some v \<Rightarrow> \<exists>k. (k, v) \<in> set t \<and> lpm_matches plen kbits k q \<and>
          (\<forall>k' v'. (k', v') \<in> set t \<longrightarrow> lpm_matches plen kbits k' q \<longrightarrow> plen k' \<le> plen k))"

text \<open>The memory images of the three key structs behind \<open>prefixlen\<close>.\<close>

definition path_key_bits :: "mcp_path_lpm_key \<Rightarrow> bool list" where
  "path_key_bits k =
     bits_of_bytes (le_bytes32 (plk_generation k) @ map char_byte (plk_path k))"

definition command_key_bits :: "mcp_command_lpm_key \<Rightarrow> bool list" where
  "command_key_bits k =
     bits_of_bytes (le_bytes32 (clk_generation k) @ map char_byte (clk_command k))"

definition network_key_bits :: "mcp_network_lpm_key \<Rightarrow> bool list" where
  "network_key_bits k =
     bits_of_bytes (le_bytes32 (nlk_generation k) @ le_bytes32 (nlk_port k)
       @ le_bytes32 (nlk_ipv4_addr k))"

definition tries_law :: "helpers \<Rightarrow> bool" where
  "tries_law h \<longleftrightarrow>
     lpm_law plk_prefixlen path_key_bits (h_path_lookup h) \<and>
     lpm_law clk_prefixlen command_key_bits (h_command_lookup h) \<and>
     lpm_law nlk_prefixlen network_key_bits (h_network_lookup h)"

subsection \<open>The LRU cache, paths\<close>

text \<open>
  An update of an LRU hash may evict entries and may fail, but never makes one up; on
  success the updated key holds the new value.
\<close>

definition lru_law :: "(cache \<Rightarrow> mcp_cache_key \<Rightarrow> mcp_cache_value \<Rightarrow> cache) \<Rightarrow> bool" where
  "lru_law update \<longleftrightarrow>
     (\<forall>m k v k' w. update m k v k' = Some w \<longrightarrow> k' = k \<and> w = v \<or> m k' = Some w)"

definition lru_keeps ::
  "(cache \<Rightarrow> mcp_cache_key \<Rightarrow> mcp_cache_value \<Rightarrow> cache) \<Rightarrow> bool" where
  "lru_keeps update \<longleftrightarrow> (\<forall>m k v. update m k v = m(k \<mapsto> v))"

text \<open>
  \<open>bpf_d_path\<close> writes the path and its NUL when they fit the buffer and returns a
  non-negative length; otherwise it returns a negative error.  \<open>bpf_probe_read_kernel_str\<close>
  writes at most \<open>size\<close> bytes, always with a NUL.
\<close>

definition d_path_law :: "(buffer \<Rightarrow> nat \<Rightarrow> string \<Rightarrow> c_int \<times> buffer) \<Rightarrow> bool" where
  "d_path_law f \<longleftrightarrow>
     (\<forall>b n p. length b = n \<longrightarrow>
        length (snd (f b n p)) = n \<and>
        (if length (cstr p) < n then 0 \<le> fst (f b n p) \<and> cstr (snd (f b n p)) = cstr p
         else fst (f b n p) < 0))"

definition read_str_law :: "(buffer \<Rightarrow> nat \<Rightarrow> string \<Rightarrow> buffer) \<Rightarrow> bool" where
  "read_str_law f \<longleftrightarrow>
     (\<forall>b n p. length b = n \<longrightarrow> 0 < n \<longrightarrow>
        length (f b n p) = n \<and> cstr (f b n p) = take (n - 1) (cstr p))"

text \<open>The two laws about strings, together and instantiated.\<close>

definition strings_law :: "helpers \<Rightarrow> bool" where
  "strings_law h \<longleftrightarrow> d_path_law (h_d_path h) \<and> read_str_law (h_read_str h)"

lemma d_path_lawD:
  assumes "strings_law h" and "length b = n"
  shows "length (snd (h_d_path h b n p)) = n"
    "length (cstr p) < n \<Longrightarrow>
       0 \<le> fst (h_d_path h b n p) \<and> cstr (snd (h_d_path h b n p)) = cstr p"
    "\<not> length (cstr p) < n \<Longrightarrow> fst (h_d_path h b n p) < 0"
proof -
  have "\<forall>b n p. length b = n \<longrightarrow>
        length (snd (h_d_path h b n p)) = n \<and>
        (if length (cstr p) < n
         then 0 \<le> fst (h_d_path h b n p) \<and> cstr (snd (h_d_path h b n p)) = cstr p
         else fst (h_d_path h b n p) < 0)"
    using assms(1) unfolding strings_law_def d_path_law_def by blast
  from this [rule_format, OF assms(2)]
  show "length (snd (h_d_path h b n p)) = n"
    "length (cstr p) < n \<Longrightarrow>
       0 \<le> fst (h_d_path h b n p) \<and> cstr (snd (h_d_path h b n p)) = cstr p"
    "\<not> length (cstr p) < n \<Longrightarrow> fst (h_d_path h b n p) < 0"
    by (auto split: if_splits)
qed

lemma read_str_lawD:
  assumes "strings_law h" and "length b = n" and "0 < n"
  shows "length (h_read_str h b n p) = n" "cstr (h_read_str h b n p) = take (n - 1) (cstr p)"
proof -
  have "\<forall>b n p. length b = n \<longrightarrow> 0 < n \<longrightarrow>
      length (h_read_str h b n p) = n \<and> cstr (h_read_str h b n p) = take (n - 1) (cstr p)"
    using assms(1) unfolding strings_law_def read_str_law_def by blast
  from this [rule_format, OF assms(2,3)]
  show "length (h_read_str h b n p) = n" "cstr (h_read_str h b n p) = take (n - 1) (cstr p)"
    by simp_all
qed

section \<open>Reference helpers\<close>

text \<open>
  One concrete kernel that obeys the laws: a linear search for the longest match, an LRU map
  that never evicts, path helpers that copy.  It shows that the hypotheses can hold, and
  witnesses evaluate with it; no theorem is about it.
\<close>

fun longest_entry :: "('k \<Rightarrow> u32) \<Rightarrow> ('k \<times> 'v) list \<Rightarrow> ('k \<times> 'v) option" where
  "longest_entry plen [] = None"
| "longest_entry plen (e # es) =
     (case longest_entry plen es of
        None \<Rightarrow> Some e
      | Some b \<Rightarrow> Some (if plen (fst b) \<le> plen (fst e) then e else b))"

definition lpm_reference ::
  "('k \<Rightarrow> u32) \<Rightarrow> ('k \<Rightarrow> bool list) \<Rightarrow> ('k \<times> 'v) list \<Rightarrow> 'k \<Rightarrow> 'v option" where
  "lpm_reference plen kbits t q =
     map_option snd (longest_entry plen (filter (\<lambda>e. lpm_matches plen kbits (fst e) q) t))"

definition reference_helpers :: helpers where
  "reference_helpers =
     \<lparr>h_ktime = (\<lambda>n. of_nat (1000 * Suc n)),
      h_path_lookup = lpm_reference plk_prefixlen path_key_bits,
      h_command_lookup = lpm_reference clk_prefixlen command_key_bits,
      h_network_lookup = lpm_reference nlk_prefixlen network_key_bits,
      h_cache_update = (\<lambda>m k v. m(k \<mapsto> v)),
      h_ringbuf_reserve = (\<lambda>evs. length evs < 1024),
      h_read_str = snprintf_s,
      h_d_path = (\<lambda>b n p. if length (cstr p) < n
        then (int (length (cstr p)), snprintf_s b n p) else (-36, b))\<rparr>"

lemma longest_entry_None [simp]: "longest_entry plen es = None \<longleftrightarrow> es = []"
  by (cases es) (auto split: option.splits)

lemma longest_entry_Some:
  "longest_entry plen es = Some b \<Longrightarrow> b \<in> set es \<and> (\<forall>e \<in> set es. plen (fst e) \<le> plen (fst b))"
proof (induction es arbitrary: b)
  case Nil
  then show ?case by simp
next
  case (Cons e es)
  show ?case
  proof (cases "longest_entry plen es")
    case None
    with Cons.prems show ?thesis by simp
  next
    case (Some c)
    with Cons.IH [of c] Cons.prems show ?thesis
      by (auto split: if_splits intro: order_trans)
  qed
qed

lemma lpm_reference_law: "lpm_law plen kbits (lpm_reference plen kbits)"
proof -
  have "(k, v) \<notin> set t \<or> \<not> lpm_matches plen kbits k q"
    if "lpm_reference plen kbits t q = None" for t :: "('a \<times> 'b) list" and q k v
    using that by (auto simp: lpm_reference_def filter_empty_conv)
  moreover have "\<exists>k. (k, v) \<in> set t \<and> lpm_matches plen kbits k q \<and>
      (\<forall>k' v'. (k', v') \<in> set t \<longrightarrow> lpm_matches plen kbits k' q \<longrightarrow> plen k' \<le> plen k)"
    if some: "lpm_reference plen kbits t q = Some v" for t :: "('a \<times> 'b) list" and q v
  proof -
    from some obtain k where
      "longest_entry plen (filter (\<lambda>e. lpm_matches plen kbits (fst e) q) t) = Some (k, v)"
      by (auto simp: lpm_reference_def)
    from longest_entry_Some [OF this] show ?thesis by fastforce
  qed
  ultimately show ?thesis
    unfolding lpm_law_def by (auto split: option.splits)
qed

lemma reference_tries_law: "tries_law reference_helpers"
  by (simp add: tries_law_def reference_helpers_def lpm_reference_law)

lemma reference_lru_law: "lru_law (h_cache_update reference_helpers)"
  by (auto simp: lru_law_def reference_helpers_def split: if_splits)

lemma reference_lru_keeps: "lru_keeps (h_cache_update reference_helpers)"
  by (simp add: lru_keeps_def reference_helpers_def)

lemma reference_d_path_law: "d_path_law (h_d_path reference_helpers)"
proof -
  have "length (snprintf_s b (length b) p) = length b" if "length (cstr p) < length b" for b p
    using that by (intro length_snprintf_s) (cases b, auto)
  then show ?thesis
    by (simp add: d_path_law_def reference_helpers_def)
qed

lemma reference_read_str_law: "read_str_law (h_read_str reference_helpers)"
  by (simp add: read_str_law_def reference_helpers_def length_snprintf_s)

lemma reference_strings_law: "strings_law reference_helpers"
  by (simp add: strings_law_def reference_d_path_law reference_read_str_law)

lemmas reference_laws = reference_strings_law
  reference_tries_law reference_lru_law reference_lru_keeps reference_d_path_law
  reference_read_str_law

lemma lru_keeps_law: "lru_keeps f \<Longrightarrow> lru_law f"
  by (auto simp: lru_keeps_def lru_law_def split: if_splits)

section \<open>Facts about longest-prefix lookup\<close>

lemma lpm_lookup_None:
  assumes "lpm_law plen kbits lookup" and "lookup t q = None" and "(k, v) \<in> set t"
  shows "\<not> lpm_matches plen kbits k q"
proof -
  from assms(1) have "case lookup t q of
        None \<Rightarrow> \<forall>k v. (k, v) \<in> set t \<longrightarrow> \<not> lpm_matches plen kbits k q
      | Some v \<Rightarrow> \<exists>k. (k, v) \<in> set t \<and> lpm_matches plen kbits k q \<and>
          (\<forall>k' v'. (k', v') \<in> set t \<longrightarrow> lpm_matches plen kbits k' q \<longrightarrow> plen k' \<le> plen k)"
    unfolding lpm_law_def by blast
  with assms(2,3) show ?thesis by auto
qed

lemma lpm_lookup_Some:
  assumes "lpm_law plen kbits lookup" and "lookup t q = Some v"
  obtains k where "(k, v) \<in> set t" and "lpm_matches plen kbits k q"
    and "\<forall>k' v'. (k', v') \<in> set t \<longrightarrow> lpm_matches plen kbits k' q \<longrightarrow> plen k' \<le> plen k"
proof -
  from assms(1) have "case lookup t q of
        None \<Rightarrow> \<forall>k v. (k, v) \<in> set t \<longrightarrow> \<not> lpm_matches plen kbits k q
      | Some v \<Rightarrow> \<exists>k. (k, v) \<in> set t \<and> lpm_matches plen kbits k q \<and>
          (\<forall>k' v'. (k', v') \<in> set t \<longrightarrow> lpm_matches plen kbits k' q \<longrightarrow> plen k' \<le> plen k)"
    unfolding lpm_law_def by blast
  with assms(2) that show thesis by auto
qed

text \<open>
  Entries that cannot match the searched key do not influence a lookup, provided that the
  matching entries of one prefix length all carry the same value (as they do in a trie, which
  holds one entry per prefix).
\<close>

definition lpm_distinct :: "('k \<Rightarrow> u32) \<Rightarrow> ('k \<Rightarrow> bool list) \<Rightarrow> ('k \<times> 'v) list \<Rightarrow> bool" where
  "lpm_distinct plen kbits t \<longleftrightarrow>
     (\<forall>k v k' v'. (k, v) \<in> set t \<longrightarrow> (k', v') \<in> set t \<longrightarrow> plen k = plen k' \<longrightarrow>
        take (unat (plen k)) (kbits k) = take (unat (plen k)) (kbits k') \<longrightarrow> (k, v) = (k', v'))"

lemma lpm_lookup_unique:
  assumes law: "lpm_law plen kbits lookup" and dist: "lpm_distinct plen kbits t"
    and mem: "(k, v) \<in> set t" and match: "lpm_matches plen kbits k q"
    and max: "\<And>k' v'. (k', v') \<in> set t \<Longrightarrow> lpm_matches plen kbits k' q \<Longrightarrow> plen k' \<le> plen k"
  shows "lookup t q = Some v"
proof (cases "lookup t q")
  case None
  with law mem match show ?thesis by (auto dest: lpm_lookup_None)
next
  case (Some w)
  from law Some obtain k' where mem': "(k', w) \<in> set t" and match': "lpm_matches plen kbits k' q"
    and max': "\<forall>k'' v''. (k'', v'') \<in> set t \<longrightarrow> lpm_matches plen kbits k'' q \<longrightarrow> plen k'' \<le> plen k'"
    by (rule lpm_lookup_Some)
  have eq: "plen k' = plen k"
    using max [OF mem' match'] max' mem match by (blast intro: order_antisym)
  with match match' have
    "take (unat (plen k')) (kbits k') = take (unat (plen k')) (kbits k)"
    by (simp add: lpm_matches_def)
  with dist mem mem' eq have "(k', w) = (k, v)"
    unfolding lpm_distinct_def by blast
  with Some show ?thesis by simp
qed

lemma lpm_lookup_cong:
  assumes law: "lpm_law plen kbits lookup" and dist: "lpm_distinct plen kbits t'"
    and same: "\<And>k v. lpm_matches plen kbits k q \<Longrightarrow> (k, v) \<in> set t \<longleftrightarrow> (k, v) \<in> set t'"
  shows "lookup t q = lookup t' q"
proof (cases "lookup t q")
  case None
  show ?thesis
  proof (cases "lookup t' q")
    case (Some v)
    with law obtain k where "(k, v) \<in> set t'" "lpm_matches plen kbits k q"
      by (rule lpm_lookup_Some)
    with same have "(k, v) \<in> set t" by blast
    with law None \<open>lpm_matches plen kbits k q\<close> show ?thesis
      by (auto dest: lpm_lookup_None)
  qed (use None in simp)
next
  case (Some v)
  with law obtain k where mem: "(k, v) \<in> set t" and match: "lpm_matches plen kbits k q"
    and max: "\<forall>k' v'. (k', v') \<in> set t \<longrightarrow> lpm_matches plen kbits k' q \<longrightarrow> plen k' \<le> plen k"
    by (rule lpm_lookup_Some)
  have "lookup t' q = Some v"
  proof (rule lpm_lookup_unique [OF law dist _ match])
    show "(k, v) \<in> set t'" using same [OF match] mem by blast
    show "plen k' \<le> plen k" if "(k', v') \<in> set t'" "lpm_matches plen kbits k' q" for k' v'
      using same [OF that(2)] that max by blast
  qed
  with Some show ?thesis by simp
qed

end
