(* ===== verification/FastPath.thy ===== *)
theory FastPath
  imports Kernel
begin

text \<open>
  \<^verbatim>\<open>bpf/l1_fast_path.bpf.c\<close>: the current epoch, the cache key of a request, lookup and
  store of the L1 decision cache, and the resource ids.  The cache is per CPU: a program sees
  the slice of the CPU its task runs on.
\<close>

section \<open>Operations\<close>

definition mcp_current_epoch :: "bpf_state \<Rightarrow> u64" where
  "mcp_current_epoch s =
     (case global_epoch s MCP_GUARD_EPOCH_KEY of None \<Rightarrow> 0 | Some epoch \<Rightarrow> epoch)"

definition mcp_fill_cache_key :: "task \<Rightarrow> u32 \<Rightarrow> u64 \<Rightarrow> mcp_cache_key" where
  "mcp_fill_cache_key tk hook_id resource_id =
     \<lparr>ck_tgid = task_tgid tk, ck_pid = task_pid tk, ck_hook_id = hook_id, ck_reserved = 0,
      ck_resource_id = resource_id\<rparr>"

text \<open>
  The result pairs the returned action with the value behind \<open>out\<close>, which keeps its old
  contents unless the lookup hits.
\<close>

definition mcp_l1_lookup ::
  "task \<Rightarrow> mcp_cache_key \<Rightarrow> mcp_cache_value \<Rightarrow> bpf_state \<Rightarrow> u32 \<times> mcp_cache_value" where
  "mcp_l1_lookup tk key out s =
     (let epoch = mcp_current_epoch s in
      case l1_cache s (t_cpu tk) key of
        None \<Rightarrow> (MCP_GUARD_ACTION_UNSET, out)
      | Some value \<Rightarrow>
          if cv_epoch value \<noteq> epoch then (MCP_GUARD_ACTION_UNSET, out)
          else if \<not> mcp_guard_action_valid (cv_action value) then (MCP_GUARD_ACTION_UNSET, out)
          else (cv_action value, value))"

definition mcp_l1_store ::
  "helpers \<Rightarrow> task \<Rightarrow> mcp_cache_key \<Rightarrow> u32 \<Rightarrow> u32 \<Rightarrow> u32 \<Rightarrow> u32 \<Rightarrow> bpf_state \<Rightarrow> bpf_state" where
  "mcp_l1_store h tk key action flags rule_id reason s =
     (if ck_resource_id key = 0 \<or> \<not> mcp_guard_action_valid action then s
      else
        let value = \<lparr>cv_epoch = mcp_current_epoch s, cv_action = action, cv_flags = flags,
                     cv_rule_id = rule_id, cv_reason = reason\<rparr>
        in s\<lparr>l1_cache := (l1_cache s)
               (t_cpu tk := h_cache_update h (l1_cache s (t_cpu tk)) key value)\<rparr>)"

text \<open>The FNV-1a loop; it stops at \<open>max_len\<close>, at the buffer length and at the first NUL.\<close>

fun fnv1a_loop :: "nat \<Rightarrow> u64 \<Rightarrow> buffer \<Rightarrow> u64" where
  "fnv1a_loop (Suc n) hash (c # cs) =
     (if c = NUL then hash
      else fnv1a_loop n ((hash XOR of_nat (of_char c)) * 1099511628211) cs)"
| "fnv1a_loop _ hash _ = hash"

definition mcp_fnv1a_hash :: "buffer \<Rightarrow> u32 \<Rightarrow> u64" where
  "mcp_fnv1a_hash value max_len =
     (let hash = fnv1a_loop (min MCP_GUARD_PATH_LEN (unat max_len)) 1469598103934665603 value
      in if hash \<noteq> 0 then hash else 1)"

definition mcp_file_resource_id :: "kfile option \<Rightarrow> u64" where
  "mcp_file_resource_id file =
     (case file of
        None \<Rightarrow> 0
      | Some f \<Rightarrow> (case f_inode f of None \<Rightarrow> 0 | Some ind \<Rightarrow> i_ino ind))"

section \<open>What lookup and store do\<close>

lemma fill_cache_key_simps [simp]:
  "ck_resource_id (mcp_fill_cache_key tk hook rid) = rid"
  "ck_hook_id (mcp_fill_cache_key tk hook rid) = hook"
  "ck_pid (mcp_fill_cache_key tk hook rid) = task_pid tk"
  "ck_tgid (mcp_fill_cache_key tk hook rid) = task_tgid tk"
  by (simp_all add: mcp_fill_cache_key_def)

lemma fill_cache_key_eq_iff [simp]:
  "mcp_fill_cache_key tk hook rid = mcp_fill_cache_key tk' hook' rid' \<longleftrightarrow>
     task_tgid tk = task_tgid tk' \<and> task_pid tk = task_pid tk' \<and> hook = hook' \<and> rid = rid'"
  by (auto simp: mcp_fill_cache_key_def)

text \<open>
  A usable entry: what a lookup needs to find in order to hit.  Every lookup is a case
  distinction on it.
\<close>

definition l1_hit :: "task \<Rightarrow> mcp_cache_key \<Rightarrow> bpf_state \<Rightarrow> mcp_cache_value option" where
  "l1_hit tk key s =
     (case l1_cache s (t_cpu tk) key of
        None \<Rightarrow> None
      | Some v \<Rightarrow>
          if cv_epoch v = mcp_current_epoch s \<and> mcp_guard_action_valid (cv_action v)
          then Some v else None)"

lemma l1_lookup_hit:
  "mcp_l1_lookup tk key out s =
     (case l1_hit tk key s of
        None \<Rightarrow> (MCP_GUARD_ACTION_UNSET, out)
      | Some v \<Rightarrow> (cv_action v, v))"
  by (auto simp: mcp_l1_lookup_def l1_hit_def Let_def split: option.splits)

lemma l1_hit_cong:
  "l1_cache s (t_cpu tk) k = l1_cache s' (t_cpu tk) k \<Longrightarrow>
   mcp_current_epoch s = mcp_current_epoch s' \<Longrightarrow> l1_hit tk k s = l1_hit tk k s'"
  by (simp add: l1_hit_def split: option.split)

lemma l1_hit_valid: "l1_hit tk key s = Some v \<Longrightarrow> mcp_guard_action_valid (cv_action v)"
  by (auto simp: l1_hit_def split: option.splits if_splits)

lemma l1_hit_epoch: "l1_hit tk key s = Some v \<Longrightarrow> cv_epoch v = mcp_current_epoch s"
  by (auto simp: l1_hit_def split: option.splits if_splits)

lemma l1_hit_cached: "l1_hit tk key s = Some v \<Longrightarrow> l1_cache s (t_cpu tk) key = Some v"
  by (auto simp: l1_hit_def split: option.splits if_splits)

lemma l1_lookup_unset_iff:
  "fst (mcp_l1_lookup tk key out s) = MCP_GUARD_ACTION_UNSET \<longleftrightarrow> l1_hit tk key s = None"
  by (auto simp: l1_lookup_hit dest: l1_hit_valid split: option.splits)

lemma current_epoch_frame [simp]:
  "mcp_current_epoch (s\<lparr>l1_cache := c\<rparr>) = mcp_current_epoch s"
  "mcp_current_epoch (s\<lparr>events := evs\<rparr>) = mcp_current_epoch s"
  "mcp_current_epoch (s\<lparr>metrics := ms\<rparr>) = mcp_current_epoch s"
  "mcp_current_epoch (s\<lparr>scratch := sc\<rparr>) = mcp_current_epoch s"
  "mcp_current_epoch (s\<lparr>tail_state := ts\<rparr>) = mcp_current_epoch s"
  "mcp_current_epoch (s\<lparr>ticks := n\<rparr>) = mcp_current_epoch s"
  by (simp_all add: mcp_current_epoch_def)

lemma current_epoch_store [simp]:
  "mcp_current_epoch (mcp_l1_store h tk key a f r re s) = mcp_current_epoch s"
  by (simp add: mcp_l1_store_def Let_def)

text \<open>The value a successful store writes.\<close>

definition stored_value :: "u32 \<Rightarrow> u32 \<Rightarrow> u32 \<Rightarrow> u32 \<Rightarrow> bpf_state \<Rightarrow> mcp_cache_value" where
  "stored_value action flags rule_id reason s =
     \<lparr>cv_epoch = mcp_current_epoch s, cv_action = action, cv_flags = flags,
      cv_rule_id = rule_id, cv_reason = reason\<rparr>"

lemma stored_value_simps [simp]:
  "cv_epoch (stored_value a f r re s) = mcp_current_epoch s"
  "cv_action (stored_value a f r re s) = a"
  "cv_rule_id (stored_value a f r re s) = r"
  by (simp_all add: stored_value_def)

lemma l1_cache_store:
  "l1_cache (mcp_l1_store h tk key a f r re s) =
     (if ck_resource_id key = 0 \<or> \<not> mcp_guard_action_valid a then l1_cache s
      else (l1_cache s)(t_cpu tk :=
             h_cache_update h (l1_cache s (t_cpu tk)) key (stored_value a f r re s)))"
  by (simp add: mcp_l1_store_def stored_value_def Let_def)

text \<open>
  The cache grows by at most the stored pair, on the task's CPU: the one law about stores that
  the whole development uses.
\<close>

lemma l1_store_cases:
  assumes law: "lru_law (h_cache_update h)"
    and cached: "l1_cache (mcp_l1_store h tk key a f r re s) cpu k = Some v"
  shows "l1_cache s cpu k = Some v \<or>
    cpu = t_cpu tk \<and> k = key \<and> v = stored_value a f r re s \<and>
      ck_resource_id key \<noteq> 0 \<and> mcp_guard_action_valid a"
proof -
  have "k = key \<and> v = stored_value a f r re s \<or> l1_cache s cpu k = Some v"
    if "h_cache_update h (l1_cache s cpu) key (stored_value a f r re s) k = Some v"
    using law that unfolding lru_law_def by blast
  with cached show ?thesis by (auto simp: l1_cache_store split: if_splits)
qed

lemma l1_store_hit:
  assumes "lru_keeps (h_cache_update h)" and "ck_resource_id key \<noteq> 0"
    and "mcp_guard_action_valid a"
  shows "l1_hit tk key (mcp_l1_store h tk key a f r re s) = Some (stored_value a f r re s)"
  using assms by (simp add: l1_hit_def l1_cache_store lru_keeps_def)

lemma l1_store_other:
  assumes "lru_keeps (h_cache_update h)" and "k \<noteq> key"
  shows "l1_hit tk k (mcp_l1_store h tk' key a f r re s) = l1_hit tk k s"
  using assms by (intro l1_hit_cong) (simp_all add: l1_cache_store lru_keeps_def)

lemma l1_store_noop [simp]:
  "ck_resource_id key = 0 \<Longrightarrow> mcp_l1_store h tk key a f r re s = s"
  by (simp add: mcp_l1_store_def)

section \<open>Resource ids\<close>

lemma fnv1a_hash_nonzero: "mcp_fnv1a_hash value max_len \<noteq> 0"
  by (simp add: mcp_fnv1a_hash_def Let_def)

lemma fnv1a_loop_cstr: "fnv1a_loop n hash (cstr b) = fnv1a_loop n hash b"
  by (induction n hash b rule: fnv1a_loop.induct) auto

lemma fnv1a_hash_cong: "cstr v = cstr w \<Longrightarrow> mcp_fnv1a_hash v n = mcp_fnv1a_hash w n"
  by (metis mcp_fnv1a_hash_def fnv1a_loop_cstr)

end
