(* ===== verification/SemiFastPath.thy ===== *)
theory SemiFastPath
  imports FastPath
begin

text \<open>
  \<^verbatim>\<open>bpf/l2_semi_fast_path.bpf.c\<close>: the cheap checks on the class of a resource.  Each
  returns an action, or UNSET to pass the request on to L3, together with what it writes
  through its output pointer.
\<close>

section \<open>Operations\<close>

definition mcp_l2_policy_flags :: "bpf_state \<Rightarrow> u32" where
  "mcp_l2_policy_flags s =
     (case policy_config s MCP_GUARD_CONFIG_KEY of
        None \<Rightarrow> MCP_GUARD_POLICY_F_SKIP_DIR_READ OR MCP_GUARD_POLICY_F_CACHE_FILE_FOLLOWUPS OR
          MCP_GUARD_POLICY_F_DENY_TAILCALL_FAIL
      | Some cfg \<Rightarrow> cfg_flags cfg)"

definition mcp_l2_file_decide :: "bpf_state \<Rightarrow> kfile option \<Rightarrow> u32 \<Rightarrow> u32 \<Rightarrow> u32 \<times> u32" where
  "mcp_l2_file_decide s file hook_id flags =
     (case file of
        None \<Rightarrow> (MCP_GUARD_ACTION_UNSET, flags)
      | Some f \<Rightarrow>
          (case f_inode f of
             None \<Rightarrow> (MCP_GUARD_ACTION_UNSET, flags)
           | Some ind \<Rightarrow>
               let mode = i_mode ind;
                   type = mode AND MCP_GUARD_S_IFMT
               in
               if mcp_l2_policy_flags s AND MCP_GUARD_POLICY_F_SKIP_L2_SAFE \<noteq> 0
               then (MCP_GUARD_ACTION_UNSET, flags)
               else if type \<noteq> MCP_GUARD_S_IFREG \<and> type \<noteq> MCP_GUARD_S_IFDIR
               then (MCP_GUARD_ACTION_ALLOW, 1)
               else if mcp_l2_policy_flags s AND MCP_GUARD_POLICY_F_SKIP_DIR_READ \<noteq> 0 \<and>
                       hook_id = MCP_GUARD_HOOK_FILE_READ \<and> type = MCP_GUARD_S_IFDIR
               then (MCP_GUARD_ACTION_ALLOW, 2)
               else (MCP_GUARD_ACTION_UNSET, flags)))"

definition mcp_l2_socket_decide :: "sockaddr option \<Rightarrow> u16 \<Rightarrow> u32 \<times> u16" where
  "mcp_l2_socket_decide address family =
     (case address of
        None \<Rightarrow> (MCP_GUARD_ACTION_UNSET, family)
      | Some a \<Rightarrow>
          if sa_family a \<noteq> MCP_GUARD_AF_INET then (MCP_GUARD_ACTION_ALLOW, sa_family a)
          else (MCP_GUARD_ACTION_UNSET, sa_family a))"

definition mcp_l2_exec_decide :: "buffer option \<Rightarrow> u32" where
  "mcp_l2_exec_decide filename =
     (case filename of
        None \<Rightarrow> MCP_GUARD_ACTION_DENY
      | Some b \<Rightarrow> if b ! 0 = NUL then MCP_GUARD_ACTION_DENY else MCP_GUARD_ACTION_UNSET)"

section \<open>What L2 decides\<close>

text \<open>The resource classes L2 lets pass, read off the inode's mode and the policy flags.\<close>

definition l2_safe_file :: "u32 \<Rightarrow> kfile option \<Rightarrow> u32 \<Rightarrow> bool" where
  "l2_safe_file flags file hook_id \<longleftrightarrow>
     (\<exists>f ind. file = Some f \<and> f_inode f = Some ind \<and>
        flags AND MCP_GUARD_POLICY_F_SKIP_L2_SAFE = 0 \<and>
        (i_mode ind AND MCP_GUARD_S_IFMT \<notin> {MCP_GUARD_S_IFREG, MCP_GUARD_S_IFDIR} \<or>
         i_mode ind AND MCP_GUARD_S_IFMT = MCP_GUARD_S_IFDIR \<and>
           hook_id = MCP_GUARD_HOOK_FILE_READ \<and> flags AND MCP_GUARD_POLICY_F_SKIP_DIR_READ \<noteq> 0))"

lemma l2_safe_file_code [code]:
  "l2_safe_file flags file hook_id =
     (case file of
        None \<Rightarrow> False
      | Some f \<Rightarrow>
          (case f_inode f of
             None \<Rightarrow> False
           | Some ind \<Rightarrow>
               flags AND MCP_GUARD_POLICY_F_SKIP_L2_SAFE = 0 \<and>
               (i_mode ind AND MCP_GUARD_S_IFMT \<noteq> MCP_GUARD_S_IFREG \<and>
                i_mode ind AND MCP_GUARD_S_IFMT \<noteq> MCP_GUARD_S_IFDIR \<or>
                i_mode ind AND MCP_GUARD_S_IFMT = MCP_GUARD_S_IFDIR \<and>
                hook_id = MCP_GUARD_HOOK_FILE_READ \<and>
                flags AND MCP_GUARD_POLICY_F_SKIP_DIR_READ \<noteq> 0)))"
  by (auto simp: l2_safe_file_def split: option.splits)

lemma l2_file_decide_action:
  "fst (mcp_l2_file_decide s file hook_id flags) =
     (if l2_safe_file (mcp_l2_policy_flags s) file hook_id
      then MCP_GUARD_ACTION_ALLOW else MCP_GUARD_ACTION_UNSET)"
  by (auto simp: mcp_l2_file_decide_def l2_safe_file_def Let_def split: option.splits)

lemma l2_file_decide_cases:
  "fst (mcp_l2_file_decide s file hook_id flags) \<in> {MCP_GUARD_ACTION_ALLOW, MCP_GUARD_ACTION_UNSET}"
  by (simp add: l2_file_decide_action)

lemma l2_socket_decide_action:
  "fst (mcp_l2_socket_decide address family) =
     (case address of
        None \<Rightarrow> MCP_GUARD_ACTION_UNSET
      | Some a \<Rightarrow>
          if sa_family a = MCP_GUARD_AF_INET then MCP_GUARD_ACTION_UNSET else MCP_GUARD_ACTION_ALLOW)"
  by (simp add: mcp_l2_socket_decide_def split: option.splits)

lemma l2_exec_decide_cstr:
  "b \<noteq> [] \<Longrightarrow> mcp_l2_exec_decide (Some b) =
     (if cstr b = [] then MCP_GUARD_ACTION_DENY else MCP_GUARD_ACTION_UNSET)"
  by (cases b) (auto simp: mcp_l2_exec_decide_def)

end
