(* ===== verification/SlowPath.thy ===== *)
theory SlowPath
  imports SemiFastPath
begin

text \<open>
  \<^verbatim>\<open>bpf/l3_slow_path.bpf.c\<close>: reading the active configuration, agent scoping, the
  metrics counters, the four policy deciders (path, command, resource id, IPv4) with the linear
  scan behind \<open>mcp_l3_string_decide\<close>, and event emission.

  A decider returns the action, the rule id behind its \<open>rule_id\<close> pointer and the contents of
  the \<open>rule_name\<close> buffer.
\<close>

section \<open>Configuration and scope\<close>

definition mcp_config :: "bpf_state \<Rightarrow> mcp_policy_config option" where
  "mcp_config s = policy_config s MCP_GUARD_CONFIG_KEY"

definition mcp_policy_default_action :: "bpf_state \<Rightarrow> u32" where
  "mcp_policy_default_action s =
     (case mcp_config s of
        None \<Rightarrow> MCP_GUARD_ACTION_ALLOW
      | Some cfg \<Rightarrow>
          if \<not> mcp_guard_action_valid (cfg_default_action cfg) then MCP_GUARD_ACTION_DENY
          else cfg_default_action cfg)"

definition mcp_policy_rule_count :: "bpf_state \<Rightarrow> u32" where
  "mcp_policy_rule_count s =
     (case mcp_config s of None \<Rightarrow> 0 | Some cfg \<Rightarrow> cfg_rule_count cfg)"

definition mcp_policy_has_rules :: "bpf_state \<Rightarrow> bool" where
  "mcp_policy_has_rules s \<longleftrightarrow> mcp_policy_rule_count s \<noteq> 0"

definition mcp_policy_enforced :: "bpf_state \<Rightarrow> bool" where
  "mcp_policy_enforced s =
     (case mcp_config s of None \<Rightarrow> True | Some cfg \<Rightarrow> cfg_enforce cfg \<noteq> 0)"

definition mcp_current_profile :: "bpf_state \<Rightarrow> u32 \<times> u32" where
  "mcp_current_profile s =
     (case mcp_config s of
        None \<Rightarrow> (0, 0)
      | Some cfg \<Rightarrow> (cfg_profile_id cfg, cfg_agent_id cfg))"

text \<open>The test the three selector lookups of \<open>mcp_scope_matches\<close> share.\<close>

definition scope_entry_matches ::
  "mcp_policy_config \<Rightarrow> u32 \<Rightarrow> mcp_scope_value option \<Rightarrow> bool" where
  "scope_entry_matches cfg selector scope =
     (case scope of
        None \<Rightarrow> False
      | Some v \<Rightarrow>
          sv_profile_id v = cfg_profile_id cfg \<and> sv_agent_id v = cfg_agent_id cfg \<and>
          sv_selector_type v = selector)"

definition mcp_scope_matches :: "task \<Rightarrow> bpf_state \<Rightarrow> bool" where
  "mcp_scope_matches tk s =
     (case mcp_config s of
        None \<Rightarrow> True
      | Some cfg \<Rightarrow>
          if cfg_scope_mode cfg = MCP_GUARD_SCOPE_SYSTEM_WIDE then True
          else if cfg_scope_mode cfg \<noteq> MCP_GUARD_SCOPE_SCOPED then False
          else if scope_entry_matches cfg MCP_GUARD_SCOPE_SELECTOR_PID
                    (map_of (scope_pid s) (task_pid tk)) then True
          else if scope_entry_matches cfg MCP_GUARD_SCOPE_SELECTOR_TGID
                    (map_of (scope_tgid s) (task_tgid tk)) then True
          else scope_entry_matches cfg MCP_GUARD_SCOPE_SELECTOR_COMM
                 (map_of (scope_comm s) \<lparr>csk_comm = t_comm tk\<rparr>))"

section \<open>Metrics\<close>

definition mcp_metric_index :: "u32 \<Rightarrow> u32 \<Rightarrow> u32 \<Rightarrow> u32" where
  "mcp_metric_index hook_id layer action =
     push_bit 5 (hook_id AND 7) OR push_bit 2 (layer AND 7) OR (action AND 3)"

definition mcp_hist_bucket :: "u64 \<Rightarrow> nat" where
  "mcp_hist_bucket duration_ns =
     (if duration_ns < 100 then 0
      else if duration_ns < 500 then 1
      else if duration_ns < 1000 then 2
      else if duration_ns < 5000 then 3
      else if duration_ns < 10000 then 4
      else if duration_ns < 50000 then 5
      else if duration_ns < 100000 then 6
      else 7)"

definition metric_add :: "u64 \<Rightarrow> mcp_metric_value \<Rightarrow> mcp_metric_value" where
  "metric_add duration_ns m =
     (let bucket = mcp_hist_bucket duration_ns in
      m\<lparr>mv_count := mv_count m + 1,
        mv_total_ns := mv_total_ns m + duration_ns,
        mv_min_ns := (if mv_min_ns m = 0 \<or> duration_ns < mv_min_ns m then duration_ns
                      else mv_min_ns m),
        mv_max_ns := (if mv_max_ns m < duration_ns then duration_ns else mv_max_ns m),
        mv_buckets := (mv_buckets m)[bucket := mv_buckets m ! bucket + 1]\<rparr>)"

definition mcp_record_metric ::
  "helpers \<Rightarrow> task \<Rightarrow> u32 \<Rightarrow> u32 \<Rightarrow> u32 \<Rightarrow> u64 \<Rightarrow> bpf_state \<Rightarrow> bpf_state" where
  "mcp_record_metric h tk hook_id action layer start_ns s0 =
     (let (now, s) = ktime_get_ns h s0;
          duration_ns = now - start_ns;
          index = mcp_metric_index hook_id layer action
      in case metrics s (t_cpu tk) index of
           None \<Rightarrow> s
         | Some metric \<Rightarrow>
             s\<lparr>metrics := (metrics s)(t_cpu tk :=
                 (metrics s (t_cpu tk))(index \<mapsto> metric_add duration_ns metric))\<rparr>)"

section \<open>Policy deciders\<close>

text \<open>
  \<open>mcp_has_prefix\<close>: the loop runs over the index up to the size of the rule value; a NUL in
  the searched value ends it.
\<close>

fun has_prefix_loop :: "nat \<Rightarrow> nat \<Rightarrow> buffer \<Rightarrow> buffer \<Rightarrow> bool" where
  "has_prefix_loop 0 len b prefix = True"
| "has_prefix_loop (Suc n) 0 b prefix = True"
| "has_prefix_loop (Suc n) (Suc len) (c # cs) (p # ps) =
     (if c = NUL then False else if c \<noteq> p then False else has_prefix_loop n len cs ps)"
| "has_prefix_loop (Suc n) (Suc len) _ _ = False"

definition mcp_has_prefix :: "buffer \<Rightarrow> buffer \<Rightarrow> u32 \<Rightarrow> bool" where
  "mcp_has_prefix b prefix prefix_len =
     (if prefix_len = 0 then False
      else has_prefix_loop MCP_GUARD_RULE_VALUE_LEN (unat prefix_len) b prefix)"

definition mcp_copy_rule_name :: "buffer \<Rightarrow> mcp_policy_rule \<Rightarrow> buffer" where
  "mcp_copy_rule_name dst rule = copy_until_nul MCP_GUARD_RULE_NAME_LEN dst (rule_name rule)"

definition mcp_copy_rule_name_from_path_value :: "buffer \<Rightarrow> mcp_path_policy_value \<Rightarrow> buffer" where
  "mcp_copy_rule_name_from_path_value dst rule =
     copy_until_nul MCP_GUARD_RULE_NAME_LEN dst (ppv_name rule)"

definition mcp_copy_rule_name_from_indexed_value ::
  "buffer \<Rightarrow> mcp_indexed_policy_value \<Rightarrow> buffer" where
  "mcp_copy_rule_name_from_indexed_value dst rule =
     copy_until_nul MCP_GUARD_RULE_NAME_LEN dst (ipv_name rule)"

text \<open>The action a matching rule stands for: anything outside the enum denies.\<close>

definition rule_verdict :: "u32 \<Rightarrow> u32" where
  "rule_verdict action =
     (if \<not> mcp_guard_action_valid action then MCP_GUARD_ACTION_DENY else action)"

type_synonym verdict = "u32 \<times> u32 \<times> buffer"

definition mcp_l3_path_trie_decide ::
  "helpers \<Rightarrow> u32 \<Rightarrow> buffer option \<Rightarrow> u64 \<Rightarrow> buffer \<Rightarrow> bpf_state \<Rightarrow> verdict" where
  "mcp_l3_path_trie_decide h hook_id path resource_id name s =
     (let hook_mask = mcp_guard_hook_mask hook_id;
          default_action = (mcp_policy_default_action s, 0, name)
      in case mcp_config s of
           None \<Rightarrow> default_action
         | Some cfg \<Rightarrow>
             if cfg_rule_count cfg = 0 then default_action
             else
               (case path of
                  None \<Rightarrow> default_action
                | Some p \<Rightarrow>
                    if p ! 0 = NUL then default_action
                    else
                      let key = \<lparr>plk_prefixlen = 32 + of_nat MCP_GUARD_PATH_LPM_LEN * 8,
                                 plk_generation = cfg_active_generation cfg,
                                 plk_path = copy_until_nul MCP_GUARD_PATH_LPM_LEN
                                   (zeroed MCP_GUARD_PATH_LPM_LEN) p\<rparr>
                      in case h_path_lookup h (path_policy_trie s) key of
                           None \<Rightarrow> default_action
                         | Some rule \<Rightarrow>
                             if ppv_enabled rule = 0 then default_action
                             else if ppv_hook_mask rule AND hook_mask = 0 then default_action
                             else (rule_verdict (ppv_action rule), ppv_rule_id rule,
                                   mcp_copy_rule_name_from_path_value name rule)))"

definition mcp_l3_command_trie_decide ::
  "helpers \<Rightarrow> u32 \<Rightarrow> buffer option \<Rightarrow> buffer \<Rightarrow> bpf_state \<Rightarrow> verdict" where
  "mcp_l3_command_trie_decide h hook_id cmd name s =
     (let hook_mask = mcp_guard_hook_mask hook_id;
          default_action = (mcp_policy_default_action s, 0, name)
      in case mcp_config s of
           None \<Rightarrow> default_action
         | Some cfg \<Rightarrow>
             if cfg_rule_count cfg = 0 then default_action
             else
               (case cmd of
                  None \<Rightarrow> default_action
                | Some c \<Rightarrow>
                    if c ! 0 = NUL then default_action
                    else
                      let key = \<lparr>clk_prefixlen = 32 + of_nat MCP_GUARD_RULE_VALUE_LEN * 8,
                                 clk_generation = cfg_active_generation cfg,
                                 clk_command = copy_until_nul MCP_GUARD_RULE_VALUE_LEN
                                   (zeroed MCP_GUARD_RULE_VALUE_LEN) c\<rparr>
                      in case h_command_lookup h (command_policy_trie s) key of
                           None \<Rightarrow> default_action
                         | Some rule \<Rightarrow>
                             if ipv_enabled rule = 0 then default_action
                             else if ipv_hook_mask rule AND hook_mask = 0 then default_action
                             else (rule_verdict (ipv_action rule), ipv_rule_id rule,
                                   mcp_copy_rule_name_from_indexed_value name rule)))"

text \<open>The linear scan over \<open>policy_rules\<close> at the end of \<open>mcp_l3_string_decide\<close>.\<close>

fun policy_rules_scan ::
  "u32 \<Rightarrow> u32 \<Rightarrow> buffer \<Rightarrow> u64 \<Rightarrow> buffer \<Rightarrow> bpf_state \<Rightarrow> nat list \<Rightarrow> verdict" where
  "policy_rules_scan rule_type hook_mask b resource_id name s [] =
     (mcp_policy_default_action s, 0, name)"
| "policy_rules_scan rule_type hook_mask b resource_id name s (i # is) =
     (case policy_rules s (of_nat i) of
        None \<Rightarrow> policy_rules_scan rule_type hook_mask b resource_id name s is
      | Some rule \<Rightarrow>
          if rule_enabled rule = 0 then
            policy_rules_scan rule_type hook_mask b resource_id name s is
          else if rule_rule_type rule \<noteq> rule_type then
            policy_rules_scan rule_type hook_mask b resource_id name s is
          else if rule_hook_mask rule AND hook_mask = 0 then
            policy_rules_scan rule_type hook_mask b resource_id name s is
          else if rule_type = MCP_GUARD_RULE_PATH_PREFIX \<and> rule_resource_id rule \<noteq> 0 \<and>
                  rule_resource_id rule = resource_id then
            (rule_verdict (rule_action rule), rule_rule_id rule, mcp_copy_rule_name name rule)
          else if \<not> mcp_has_prefix b (rule_value rule) (rule_value_len rule) then
            policy_rules_scan rule_type hook_mask b resource_id name s is
          else
            (rule_verdict (rule_action rule), rule_rule_id rule, mcp_copy_rule_name name rule))"

definition mcp_l3_string_decide ::
  "helpers \<Rightarrow> u32 \<Rightarrow> u32 \<Rightarrow> buffer \<Rightarrow> u64 \<Rightarrow> buffer \<Rightarrow> bpf_state \<Rightarrow> verdict" where
  "mcp_l3_string_decide h rule_type hook_id b resource_id name s =
     (if \<not> mcp_policy_has_rules s then (mcp_policy_default_action s, 0, name)
      else if rule_type = MCP_GUARD_RULE_PATH_PREFIX then
        mcp_l3_path_trie_decide h hook_id (Some b) resource_id name s
      else if rule_type = MCP_GUARD_RULE_COMMAND_PREFIX then
        mcp_l3_command_trie_decide h hook_id (Some b) name s
      else
        policy_rules_scan rule_type (mcp_guard_hook_mask hook_id) b resource_id name s
          [0..<MCP_GUARD_MAX_RULES])"

definition mcp_l3_resource_decide ::
  "u32 \<Rightarrow> u32 \<Rightarrow> u64 \<Rightarrow> buffer \<Rightarrow> bpf_state \<Rightarrow> verdict" where
  "mcp_l3_resource_decide rule_type hook_id resource_id name s =
     (let hook_mask = mcp_guard_hook_mask hook_id;
          default_action = (mcp_policy_default_action s, 0, name)
      in case mcp_config s of
           None \<Rightarrow> default_action
         | Some cfg \<Rightarrow>
             if cfg_rule_count cfg = 0 then default_action
             else
               let key = \<lparr>rpk_generation = cfg_active_generation cfg,
                          rpk_rule_type = rule_type, rpk_resource_id = resource_id\<rparr>
               in case map_of (resource_policy_hash s) key of
                    None \<Rightarrow> default_action
                  | Some rule \<Rightarrow>
                      if ipv_enabled rule \<noteq> 0 \<and> ipv_hook_mask rule AND hook_mask \<noteq> 0
                      then (rule_verdict (ipv_action rule), ipv_rule_id rule,
                            mcp_copy_rule_name_from_indexed_value name rule)
                      else default_action)"

definition mcp_l3_ipv4_decide ::
  "helpers \<Rightarrow> u32 \<Rightarrow> u16 \<Rightarrow> buffer \<Rightarrow> bpf_state \<Rightarrow> verdict" where
  "mcp_l3_ipv4_decide h ipv4_addr port name s =
     (let hook_mask = mcp_guard_hook_mask MCP_GUARD_HOOK_SOCKET_CONNECT;
          default_action = (mcp_policy_default_action s, 0, name)
      in case mcp_config s of
           None \<Rightarrow> default_action
         | Some cfg \<Rightarrow>
             if cfg_rule_count cfg = 0 then default_action
             else
               let key = \<lparr>nlk_prefixlen = 32 + 32 + 32,
                          nlk_generation = cfg_active_generation cfg,
                          nlk_port = ucast port, nlk_ipv4_addr = ipv4_addr\<rparr>;
                   rule = (case h_network_lookup h (network_policy_trie s) key of
                             None \<Rightarrow> h_network_lookup h (network_policy_trie s)
                                       (key\<lparr>nlk_port := 0\<rparr>)
                           | Some r \<Rightarrow> Some r)
               in case rule of
                    None \<Rightarrow> default_action
                  | Some r \<Rightarrow>
                      if ipv_enabled r \<noteq> 0 \<and> ipv_hook_mask r AND hook_mask \<noteq> 0
                      then (rule_verdict (ipv_action r), ipv_rule_id r,
                            mcp_copy_rule_name_from_indexed_value name r)
                      else default_action)"

section \<open>Events\<close>

definition mcp_copy_path :: "buffer \<Rightarrow> buffer \<Rightarrow> buffer" where
  "mcp_copy_path dst src = copy_until_nul MCP_GUARD_PATH_LEN dst src"

definition mcp_copy_event_rule_name :: "buffer \<Rightarrow> buffer \<Rightarrow> buffer" where
  "mcp_copy_event_rule_name dst src = copy_until_nul MCP_GUARD_RULE_NAME_LEN dst src"

definition mcp_emit_event ::
  "helpers \<Rightarrow> task \<Rightarrow> u32 \<Rightarrow> u32 \<Rightarrow> u32 \<Rightarrow> u32 \<Rightarrow> u32 \<Rightarrow> u64 \<Rightarrow> u64 \<Rightarrow> buffer option \<Rightarrow>
   buffer option \<Rightarrow> u16 \<Rightarrow> u32 \<Rightarrow> u16 \<Rightarrow> u32 \<Rightarrow> bpf_state \<Rightarrow> bpf_state" where
  "mcp_emit_event h tk hook_id action layer reason rule_id resource_id start_ns path name
     family ipv4_addr port err s0 =
     (if \<not> h_ringbuf_reserve h (events s0) then s0
      else
        let (now_ns, s) = ktime_get_ns h s0;
            (profile_id, agent_id) = mcp_current_profile s;
            event =
              \<lparr>ev_ts_ns = now_ns, ev_duration_ns = now_ns - start_ns,
               ev_epoch = mcp_current_epoch s, ev_resource_id = resource_id,
               ev_tgid = task_tgid tk, ev_pid = task_pid tk,
               ev_uid = ucast (t_uid_gid tk), ev_gid = ucast (drop_bit 32 (t_uid_gid tk)),
               ev_hook_id = hook_id, ev_action = action, ev_layer = layer, ev_reason = reason,
               ev_rule_id = rule_id, ev_profile_id = profile_id, ev_agent_id = agent_id,
               ev_error = err, ev_data_len = 0, ev_family = family, ev_port = port,
               ev_ipv4_addr = ipv4_addr, ev_comm = t_comm tk,
               ev_path = (case path of
                   Some p \<Rightarrow> mcp_copy_path (zeroed MCP_GUARD_PATH_LEN) p
                 | None \<Rightarrow> (zeroed MCP_GUARD_PATH_LEN)[0 := NUL]),
               ev_rule_name = (case name of
                   Some n \<Rightarrow> mcp_copy_event_rule_name (zeroed MCP_GUARD_RULE_NAME_LEN) n
                 | None \<Rightarrow> (zeroed MCP_GUARD_RULE_NAME_LEN)[0 := NUL])\<rparr>
        in s\<lparr>events := events s @ [event]\<rparr>)"

end
