(* ===== verification/Guard.thy ===== *)
theory Guard
  imports SlowPath
begin

text \<open>
  \<^verbatim>\<open>bpf/mcp_guard.bpf.c\<close>: the return value of an action, the per-CPU tail state and
  scratch buffers, the readers of kernel objects, and the twelve BPF programs: L1, L2 and L3 of
  the hooks \<open>bprm_check_security\<close>, \<open>file_open\<close>, \<open>file_permission\<close> and \<open>socket_connect\<close>.

  A program ends with a return value or with a tail call.  \<open>run_pipeline\<close> follows the tail calls
  through the hook's program array; a tail call that cannot run falls through to the
  \<^verbatim>\<open>return mcp_tail_fail_ret()\<close> that every program has behind it.
\<close>

section \<open>Return values\<close>

definition mcp_should_block :: "u32 \<Rightarrow> bpf_state \<Rightarrow> bool" where
  "mcp_should_block action s =
     (if \<not> mcp_guard_action_valid action then True
      else action = MCP_GUARD_ACTION_DENY \<and> mcp_policy_enforced s)"

definition mcp_action_ret :: "u32 \<Rightarrow> bpf_state \<Rightarrow> c_int" where
  "mcp_action_ret action s =
     (if \<not> mcp_guard_action_valid action then - MCP_GUARD_DENY_ERRNO
      else if mcp_should_block action s then - MCP_GUARD_DENY_ERRNO
      else 0)"

definition mcp_tail_fail_ret :: c_int where
  "mcp_tail_fail_ret = - MCP_GUARD_DENY_ERRNO"

datatype outcome = Ret c_int | Tail_call u32

definition mcp_recorded_action_ret ::
  "helpers \<Rightarrow> task \<Rightarrow> u32 \<Rightarrow> u32 \<Rightarrow> u32 \<Rightarrow> u64 \<Rightarrow> bpf_state \<Rightarrow> outcome \<times> bpf_state" where
  "mcp_recorded_action_ret h tk hook_id action layer start_ns s0 =
     (let s = mcp_record_metric h tk hook_id action layer start_ns s0
      in (Ret (mcp_action_ret action s), s))"

text \<open>The \<open>error\<close> argument every event carries: \<^verbatim>\<open>mcp_should_block(action) ? 13 : 0\<close>.\<close>

definition block_error :: "u32 \<Rightarrow> bpf_state \<Rightarrow> u32" where
  "block_error action s = (if mcp_should_block action s then 13 else 0)"

section \<open>Tail state and scratch buffers\<close>

definition mcp_set_tail_start :: "task \<Rightarrow> u64 \<Rightarrow> bpf_state \<Rightarrow> bpf_state" where
  "mcp_set_tail_start tk start_ns s =
     (case tail_state s (t_cpu tk) 0 of
        None \<Rightarrow> s
      | Some st \<Rightarrow>
          s\<lparr>tail_state := (tail_state s)(t_cpu tk :=
              (tail_state s (t_cpu tk))(0 \<mapsto> st\<lparr>ts_start_ns := start_ns\<rparr>))\<rparr>)"

definition mcp_get_tail_start :: "helpers \<Rightarrow> task \<Rightarrow> bpf_state \<Rightarrow> u64 \<times> bpf_state" where
  "mcp_get_tail_start h tk s =
     (case tail_state s (t_cpu tk) 0 of
        None \<Rightarrow> ktime_get_ns h s
      | Some st \<Rightarrow> if ts_start_ns st = 0 then ktime_get_ns h s else (ts_start_ns st, s))"

definition mcp_get_scratch :: "task \<Rightarrow> bpf_state \<Rightarrow> mcp_scratch option" where
  "mcp_get_scratch tk s = scratch s (t_cpu tk) 0"

text \<open>The writes of a program through the scratch pointer.\<close>

definition put_scratch :: "task \<Rightarrow> mcp_scratch \<Rightarrow> bpf_state \<Rightarrow> bpf_state" where
  "put_scratch tk sc s =
     s\<lparr>scratch := (scratch s)(t_cpu tk := (scratch s (t_cpu tk))(0 \<mapsto> sc))\<rparr>"

section \<open>Reading kernel objects\<close>

definition mcp_read_bprm_filename :: "helpers \<Rightarrow> linux_binprm \<Rightarrow> buffer \<Rightarrow> buffer" where
  "mcp_read_bprm_filename h bprm filename =
     (let b = filename[0 := NUL] in
      case bprm_filename bprm of
        None \<Rightarrow> b
      | Some filename_ptr \<Rightarrow> h_read_str h b MCP_GUARD_PATH_LEN filename_ptr)"

definition mcp_bprm_resource_id :: "linux_binprm \<Rightarrow> buffer option \<Rightarrow> u64" where
  "mcp_bprm_resource_id bprm filename =
     (let resource_id = mcp_file_resource_id (bprm_file bprm) in
      if resource_id \<noteq> 0 then resource_id
      else
        (case filename of
           None \<Rightarrow> 0
         | Some b \<Rightarrow> mcp_fnv1a_hash b (of_nat MCP_GUARD_PATH_LEN)))"

definition mcp_read_file_path :: "helpers \<Rightarrow> kfile option \<Rightarrow> buffer \<Rightarrow> c_int \<times> buffer" where
  "mcp_read_file_path h file path =
     (case file of
        None \<Rightarrow> (-1, path[0 := NUL])
      | Some f \<Rightarrow>
          let (ret, b) = h_d_path h path MCP_GUARD_PATH_LEN (f_path f) in
          if ret < 0 then (ret, b[0 := NUL]) else (0, b))"

text \<open>The results are the resource id, the family, the address and the port.\<close>

definition mcp_socket_resource_id :: "sockaddr option \<Rightarrow> u64 \<times> u16 \<times> u32 \<times> u16" where
  "mcp_socket_resource_id address =
     (case address of
        None \<Rightarrow> (0, 0, 0, 0)
      | Some a \<Rightarrow>
          if sa_family a \<noteq> MCP_GUARD_AF_INET then (0, sa_family a, 0, 0)
          else
            (push_bit 16 (ucast (sin_addr a)) OR ucast (bswap16 (sin_port a)),
             sa_family a, sin_addr a, bswap16 (sin_port a)))"

definition mcp_cache_file_followups ::
  "helpers \<Rightarrow> task \<Rightarrow> u64 \<Rightarrow> u32 \<Rightarrow> u32 \<Rightarrow> u32 \<Rightarrow> bpf_state \<Rightarrow> bpf_state" where
  "mcp_cache_file_followups h tk resource_id action rule_id reason s =
     (if mcp_l2_policy_flags s AND MCP_GUARD_POLICY_F_CACHE_FILE_FOLLOWUPS = 0 then s
      else
        let key = mcp_fill_cache_key tk MCP_GUARD_HOOK_FILE_READ resource_id;
            s1 = mcp_l1_store h tk key action 0 rule_id reason s
        in mcp_l1_store h tk (key\<lparr>ck_hook_id := MCP_GUARD_HOOK_FILE_WRITE\<rparr>)
             action 0 rule_id reason s1)"

section \<open>bprm_check_security\<close>

definition mcp_guard_bprm_check_security ::
  "helpers \<Rightarrow> task \<Rightarrow> linux_binprm \<Rightarrow> c_int \<Rightarrow> bpf_state \<Rightarrow> outcome \<times> bpf_state" where
  "mcp_guard_bprm_check_security h tk bprm ret s0 =
     (let scratch_ptr = mcp_get_scratch tk s0;
          (start_ns, s1) = ktime_get_ns h s0
      in
      if ret \<noteq> 0 then (Ret ret, s1)
      else if \<not> mcp_scope_matches tk s1 then (Ret 0, s1)
      else case scratch_ptr of
        None \<Rightarrow> (Ret mcp_tail_fail_ret, s1)
      | Some sc \<Rightarrow>
          let s2 = mcp_set_tail_start tk start_ns s1;
              path = mcp_read_bprm_filename h bprm (sc_path sc);
              s3 = put_scratch tk (sc\<lparr>sc_path := path\<rparr>) s2;
              resource_id = mcp_bprm_resource_id bprm (Some path);
              key = mcp_fill_cache_key tk MCP_GUARD_HOOK_EXEC resource_id;
              (action, cached) = mcp_l1_lookup tk key zero_cache_value s3
          in
          if action \<noteq> MCP_GUARD_ACTION_UNSET then
            let s4 =
              (if action \<noteq> MCP_GUARD_ACTION_ALLOW then
                 mcp_emit_event h tk MCP_GUARD_HOOK_EXEC action MCP_GUARD_LAYER_L1
                   MCP_GUARD_REASON_L1_CACHE (cv_rule_id cached) resource_id start_ns
                   (Some path) None 0 0 0 (block_error action s3) s3
               else s3)
            in mcp_recorded_action_ret h tk MCP_GUARD_HOOK_EXEC action MCP_GUARD_LAYER_L1
                 start_ns s4
          else (Tail_call MCP_GUARD_TAIL_L2, s3))"

definition mcp_guard_bprm_check_security_l2 ::
  "helpers \<Rightarrow> task \<Rightarrow> linux_binprm \<Rightarrow> c_int \<Rightarrow> bpf_state \<Rightarrow> outcome \<times> bpf_state" where
  "mcp_guard_bprm_check_security_l2 h tk bprm ret s0 =
     (let scratch_ptr = mcp_get_scratch tk s0;
          (start_ns, s1) = mcp_get_tail_start h tk s0
      in
      if ret \<noteq> 0 then (Ret ret, s1)
      else case scratch_ptr of
        None \<Rightarrow> (Ret mcp_tail_fail_ret, s1)
      | Some sc \<Rightarrow>
          let path = mcp_read_bprm_filename h bprm (sc_path sc);
              s2 = put_scratch tk (sc\<lparr>sc_path := path\<rparr>) s1;
              resource_id = mcp_bprm_resource_id bprm (Some path);
              action = mcp_l2_exec_decide (Some path)
          in
          if action = MCP_GUARD_ACTION_UNSET then (Tail_call MCP_GUARD_TAIL_L3, s2)
          else
            let key = mcp_fill_cache_key tk MCP_GUARD_HOOK_EXEC resource_id;
                s3 = mcp_l1_store h tk key action 0 0 MCP_GUARD_REASON_L2_SAFE s2;
                s4 = mcp_emit_event h tk MCP_GUARD_HOOK_EXEC action MCP_GUARD_LAYER_L2
                       MCP_GUARD_REASON_L2_SAFE 0 resource_id start_ns (Some path) None 0 0 0
                       (block_error action s3) s3
            in mcp_recorded_action_ret h tk MCP_GUARD_HOOK_EXEC action MCP_GUARD_LAYER_L2
                 start_ns s4)"

definition mcp_guard_bprm_check_security_l3 ::
  "helpers \<Rightarrow> task \<Rightarrow> linux_binprm \<Rightarrow> c_int \<Rightarrow> bpf_state \<Rightarrow> outcome \<times> bpf_state" where
  "mcp_guard_bprm_check_security_l3 h tk bprm ret s0 =
     (let (start_ns, s1) = mcp_get_tail_start h tk s0 in
      if ret \<noteq> 0 then (Ret ret, s1)
      else if \<not> mcp_policy_has_rules s1 \<and>
              mcp_policy_default_action s1 = MCP_GUARD_ACTION_ALLOW then
        let action = mcp_policy_default_action s1;
            resource_id = mcp_bprm_resource_id bprm None;
            key = mcp_fill_cache_key tk MCP_GUARD_HOOK_EXEC resource_id;
            s2 = mcp_l1_store h tk key action 0 0 MCP_GUARD_REASON_DEFAULT s1
        in mcp_recorded_action_ret h tk MCP_GUARD_HOOK_EXEC action MCP_GUARD_LAYER_L3
             start_ns s2
      else case mcp_get_scratch tk s1 of
        None \<Rightarrow> (Ret mcp_tail_fail_ret, s1)
      | Some sc \<Rightarrow>
          let path = mcp_read_bprm_filename h bprm (sc_path sc);
              resource_id = mcp_bprm_resource_id bprm (Some path);
              (action, rule_id, rule_name) =
                mcp_l3_string_decide h MCP_GUARD_RULE_COMMAND_PREFIX MCP_GUARD_HOOK_EXEC path 0
                  ((sc_rule_name sc)[0 := NUL]) s1;
              s2 = put_scratch tk \<lparr>sc_path = path, sc_rule_name = rule_name\<rparr> s1;
              reason = (if rule_id \<noteq> 0 then MCP_GUARD_REASON_POLICY
                        else MCP_GUARD_REASON_DEFAULT);
              key = mcp_fill_cache_key tk MCP_GUARD_HOOK_EXEC resource_id;
              s3 = mcp_l1_store h tk key action 0 rule_id reason s2;
              s4 =
                (if action \<noteq> MCP_GUARD_ACTION_ALLOW then
                   mcp_emit_event h tk MCP_GUARD_HOOK_EXEC action MCP_GUARD_LAYER_L3 reason
                     rule_id resource_id start_ns (Some path) (Some rule_name) 0 0 0
                     (block_error action s3) s3
                 else s3)
          in mcp_recorded_action_ret h tk MCP_GUARD_HOOK_EXEC action MCP_GUARD_LAYER_L3
               start_ns s4)"

section \<open>file_open\<close>

definition mcp_guard_file_open ::
  "helpers \<Rightarrow> task \<Rightarrow> kfile option \<Rightarrow> c_int \<Rightarrow> bpf_state \<Rightarrow> outcome \<times> bpf_state" where
  "mcp_guard_file_open h tk file ret s0 =
     (let resource_id = mcp_file_resource_id file;
          (start_ns, s1) = ktime_get_ns h s0
      in
      if ret \<noteq> 0 then (Ret ret, s1)
      else if \<not> mcp_scope_matches tk s1 then (Ret 0, s1)
      else
        let s2 = mcp_set_tail_start tk start_ns s1;
            key = mcp_fill_cache_key tk MCP_GUARD_HOOK_FILE_OPEN resource_id;
            (action, cached) = mcp_l1_lookup tk key zero_cache_value s2
        in
        if action \<noteq> MCP_GUARD_ACTION_UNSET then
          let s3 =
            (if action \<noteq> MCP_GUARD_ACTION_ALLOW then
               mcp_emit_event h tk MCP_GUARD_HOOK_FILE_OPEN action MCP_GUARD_LAYER_L1
                 MCP_GUARD_REASON_L1_CACHE (cv_rule_id cached) resource_id start_ns
                 None None 0 0 0 (block_error action s2) s2
             else s2)
          in mcp_recorded_action_ret h tk MCP_GUARD_HOOK_FILE_OPEN action MCP_GUARD_LAYER_L1
               start_ns s3
        else (Tail_call MCP_GUARD_TAIL_L2, s2))"

definition mcp_guard_file_open_l2 ::
  "helpers \<Rightarrow> task \<Rightarrow> kfile option \<Rightarrow> c_int \<Rightarrow> bpf_state \<Rightarrow> outcome \<times> bpf_state" where
  "mcp_guard_file_open_l2 h tk file ret s0 =
     (let resource_id = mcp_file_resource_id file;
          (start_ns, s1) = mcp_get_tail_start h tk s0
      in
      if ret \<noteq> 0 then (Ret ret, s1)
      else
        let (action, flags) = mcp_l2_file_decide s1 file MCP_GUARD_HOOK_FILE_OPEN 0 in
        if action = MCP_GUARD_ACTION_UNSET then (Tail_call MCP_GUARD_TAIL_L3, s1)
        else
          let key = mcp_fill_cache_key tk MCP_GUARD_HOOK_FILE_OPEN resource_id;
              s2 = mcp_l1_store h tk key action flags 0 MCP_GUARD_REASON_L2_SAFE s1;
              s3 = mcp_cache_file_followups h tk resource_id action 0
                     MCP_GUARD_REASON_L2_SAFE s2
          in mcp_recorded_action_ret h tk MCP_GUARD_HOOK_FILE_OPEN action MCP_GUARD_LAYER_L2
               start_ns s3)"

definition mcp_guard_file_open_l3 ::
  "helpers \<Rightarrow> task \<Rightarrow> kfile option \<Rightarrow> c_int \<Rightarrow> bpf_state \<Rightarrow> outcome \<times> bpf_state" where
  "mcp_guard_file_open_l3 h tk file ret s0 =
     (let resource_id = mcp_file_resource_id file;
          (start_ns, s1) = mcp_get_tail_start h tk s0;
          key = mcp_fill_cache_key tk MCP_GUARD_HOOK_FILE_OPEN resource_id
      in
      if ret \<noteq> 0 then (Ret ret, s1)
      else if \<not> mcp_policy_has_rules s1 \<and>
              mcp_policy_default_action s1 = MCP_GUARD_ACTION_ALLOW then
        let action = mcp_policy_default_action s1;
            s2 = mcp_l1_store h tk key action 0 0 MCP_GUARD_REASON_DEFAULT s1;
            s3 = mcp_cache_file_followups h tk resource_id action 0 MCP_GUARD_REASON_DEFAULT s2
        in mcp_recorded_action_ret h tk MCP_GUARD_HOOK_FILE_OPEN action MCP_GUARD_LAYER_L3
             start_ns s3
      else case mcp_get_scratch tk s1 of
        None \<Rightarrow> (Ret mcp_tail_fail_ret, s1)
      | Some sc \<Rightarrow>
          let path = snd (mcp_read_file_path h file (sc_path sc));
              (action, rule_id, rule_name) =
                mcp_l3_string_decide h MCP_GUARD_RULE_PATH_PREFIX MCP_GUARD_HOOK_FILE_OPEN path
                  resource_id ((sc_rule_name sc)[0 := NUL]) s1;
              s2 = put_scratch tk \<lparr>sc_path = path, sc_rule_name = rule_name\<rparr> s1;
              reason = (if rule_id \<noteq> 0 then MCP_GUARD_REASON_POLICY
                        else MCP_GUARD_REASON_DEFAULT);
              s3 = mcp_l1_store h tk key action 0 rule_id reason s2;
              s4 = mcp_cache_file_followups h tk resource_id action rule_id reason s3;
              s5 =
                (if action \<noteq> MCP_GUARD_ACTION_ALLOW then
                   mcp_emit_event h tk MCP_GUARD_HOOK_FILE_OPEN action MCP_GUARD_LAYER_L3
                     reason rule_id resource_id start_ns (Some path) (Some rule_name) 0 0 0
                     (block_error action s4) s4
                 else s4)
          in mcp_recorded_action_ret h tk MCP_GUARD_HOOK_FILE_OPEN action MCP_GUARD_LAYER_L3
               start_ns s5)"

section \<open>file_permission\<close>

text \<open>The hook id of an access mask: writing and appending count as a write.\<close>

definition permission_hook :: "u32 \<Rightarrow> u32" where
  "permission_hook acc_mask =
     (if acc_mask AND (MCP_GUARD_MAY_WRITE OR MCP_GUARD_MAY_APPEND) \<noteq> 0
      then MCP_GUARD_HOOK_FILE_WRITE else MCP_GUARD_HOOK_FILE_READ)"

definition mcp_guard_file_permission ::
  "helpers \<Rightarrow> task \<Rightarrow> kfile option \<times> u32 \<Rightarrow> c_int \<Rightarrow> bpf_state \<Rightarrow> outcome \<times> bpf_state" where
  "mcp_guard_file_permission h tk ctx ret s0 =
     (let (file, acc_mask) = ctx;
          resource_id = mcp_file_resource_id file;
          (start_ns, s1) = ktime_get_ns h s0
      in
      if ret \<noteq> 0 then (Ret ret, s1)
      else if \<not> mcp_scope_matches tk s1 then (Ret 0, s1)
      else
        let s2 = mcp_set_tail_start tk start_ns s1;
            hook_id = permission_hook acc_mask;
            key = mcp_fill_cache_key tk hook_id resource_id;
            (action, cached) = mcp_l1_lookup tk key zero_cache_value s2
        in
        if action \<noteq> MCP_GUARD_ACTION_UNSET then
          let s3 =
            (if action \<noteq> MCP_GUARD_ACTION_ALLOW then
               mcp_emit_event h tk hook_id action MCP_GUARD_LAYER_L1
                 MCP_GUARD_REASON_L1_CACHE (cv_rule_id cached) resource_id start_ns
                 None None 0 0 0 (block_error action s2) s2
             else s2)
          in mcp_recorded_action_ret h tk hook_id action MCP_GUARD_LAYER_L1 start_ns s3
        else (Tail_call MCP_GUARD_TAIL_L2, s2))"

definition mcp_guard_file_permission_l2 ::
  "helpers \<Rightarrow> task \<Rightarrow> kfile option \<times> u32 \<Rightarrow> c_int \<Rightarrow> bpf_state \<Rightarrow> outcome \<times> bpf_state" where
  "mcp_guard_file_permission_l2 h tk ctx ret s0 =
     (let (file, acc_mask) = ctx;
          resource_id = mcp_file_resource_id file;
          (start_ns, s1) = mcp_get_tail_start h tk s0
      in
      if ret \<noteq> 0 then (Ret ret, s1)
      else
        let hook_id = permission_hook acc_mask;
            (action, flags) = mcp_l2_file_decide s1 file hook_id 0
        in
        if action = MCP_GUARD_ACTION_UNSET then (Tail_call MCP_GUARD_TAIL_L3, s1)
        else
          let key = mcp_fill_cache_key tk hook_id resource_id;
              s2 = mcp_l1_store h tk key action flags 0 MCP_GUARD_REASON_L2_SAFE s1
          in mcp_recorded_action_ret h tk hook_id action MCP_GUARD_LAYER_L2 start_ns s2)"

definition mcp_guard_file_permission_l3 ::
  "helpers \<Rightarrow> task \<Rightarrow> kfile option \<times> u32 \<Rightarrow> c_int \<Rightarrow> bpf_state \<Rightarrow> outcome \<times> bpf_state" where
  "mcp_guard_file_permission_l3 h tk ctx ret s0 =
     (let (file, acc_mask) = ctx;
          resource_id = mcp_file_resource_id file;
          (start_ns, s1) = mcp_get_tail_start h tk s0;
          hook_id = permission_hook acc_mask;
          key = mcp_fill_cache_key tk hook_id resource_id
      in
      if ret \<noteq> 0 then (Ret ret, s1)
      else if \<not> mcp_policy_has_rules s1 \<and>
              mcp_policy_default_action s1 = MCP_GUARD_ACTION_ALLOW then
        let action = mcp_policy_default_action s1;
            s2 = mcp_l1_store h tk key action 0 0 MCP_GUARD_REASON_DEFAULT s1
        in mcp_recorded_action_ret h tk hook_id action MCP_GUARD_LAYER_L3 start_ns s2
      else case mcp_get_scratch tk s1 of
        None \<Rightarrow> (Ret mcp_tail_fail_ret, s1)
      | Some sc \<Rightarrow>
          let (action, rule_id, rule_name) =
                mcp_l3_resource_decide MCP_GUARD_RULE_PATH_PREFIX hook_id resource_id
                  ((sc_rule_name sc)[0 := NUL]) s1;
              s2 = put_scratch tk (sc\<lparr>sc_rule_name := rule_name\<rparr>) s1;
              reason = (if rule_id \<noteq> 0 then MCP_GUARD_REASON_POLICY
                        else MCP_GUARD_REASON_DEFAULT);
              s3 = mcp_l1_store h tk key action 0 rule_id reason s2;
              s4 =
                (if action \<noteq> MCP_GUARD_ACTION_ALLOW then
                   mcp_emit_event h tk hook_id action MCP_GUARD_LAYER_L3 reason rule_id
                     resource_id start_ns None (Some rule_name) 0 0 0
                     (block_error action s3) s3
                 else s3)
          in mcp_recorded_action_ret h tk hook_id action MCP_GUARD_LAYER_L3 start_ns s4)"

section \<open>socket_connect\<close>

definition mcp_guard_socket_connect ::
  "helpers \<Rightarrow> task \<Rightarrow> sockaddr option \<Rightarrow> c_int \<Rightarrow> bpf_state \<Rightarrow> outcome \<times> bpf_state" where
  "mcp_guard_socket_connect h tk address ret s0 =
     (let (start_ns, s1) = ktime_get_ns h s0 in
      if ret \<noteq> 0 then (Ret ret, s1)
      else if \<not> mcp_scope_matches tk s1 then (Ret 0, s1)
      else
        let s2 = mcp_set_tail_start tk start_ns s1;
            (resource_id, family, ipv4_addr, port) = mcp_socket_resource_id address;
            key = mcp_fill_cache_key tk MCP_GUARD_HOOK_SOCKET_CONNECT resource_id;
            (action, cached) =
              (if family = MCP_GUARD_AF_INET then mcp_l1_lookup tk key zero_cache_value s2
               else (MCP_GUARD_ACTION_UNSET, zero_cache_value))
        in
        if action \<noteq> MCP_GUARD_ACTION_UNSET then
          let s3 =
            (if action \<noteq> MCP_GUARD_ACTION_ALLOW then
               mcp_emit_event h tk MCP_GUARD_HOOK_SOCKET_CONNECT action MCP_GUARD_LAYER_L1
                 MCP_GUARD_REASON_L1_CACHE (cv_rule_id cached) resource_id start_ns
                 None None family ipv4_addr port (block_error action s2) s2
             else s2)
          in mcp_recorded_action_ret h tk MCP_GUARD_HOOK_SOCKET_CONNECT action
               MCP_GUARD_LAYER_L1 start_ns s3
        else (Tail_call MCP_GUARD_TAIL_L2, s2))"

definition mcp_guard_socket_connect_l2 ::
  "helpers \<Rightarrow> task \<Rightarrow> sockaddr option \<Rightarrow> c_int \<Rightarrow> bpf_state \<Rightarrow> outcome \<times> bpf_state" where
  "mcp_guard_socket_connect_l2 h tk address ret s0 =
     (let (start_ns, s1) = mcp_get_tail_start h tk s0 in
      if ret \<noteq> 0 then (Ret ret, s1)
      else
        let (action, family) = mcp_l2_socket_decide address 0 in
        if action = MCP_GUARD_ACTION_UNSET then (Tail_call MCP_GUARD_TAIL_L3, s1)
        else mcp_recorded_action_ret h tk MCP_GUARD_HOOK_SOCKET_CONNECT action
               MCP_GUARD_LAYER_L2 start_ns s1)"

definition mcp_guard_socket_connect_l3 ::
  "helpers \<Rightarrow> task \<Rightarrow> sockaddr option \<Rightarrow> c_int \<Rightarrow> bpf_state \<Rightarrow> outcome \<times> bpf_state" where
  "mcp_guard_socket_connect_l3 h tk address ret s0 =
     (let (start_ns, s1) = mcp_get_tail_start h tk s0 in
      if ret \<noteq> 0 then (Ret ret, s1)
      else if \<not> mcp_policy_has_rules s1 \<and>
              mcp_policy_default_action s1 = MCP_GUARD_ACTION_ALLOW then
        mcp_recorded_action_ret h tk MCP_GUARD_HOOK_SOCKET_CONNECT
          (mcp_policy_default_action s1) MCP_GUARD_LAYER_L3 start_ns s1
      else case mcp_get_scratch tk s1 of
        None \<Rightarrow> (Ret mcp_tail_fail_ret, s1)
      | Some sc \<Rightarrow>
          let (resource_id, family, ipv4_addr, port) = mcp_socket_resource_id address;
              (action, rule_id, rule_name) =
                mcp_l3_ipv4_decide h ipv4_addr port ((sc_rule_name sc)[0 := NUL]) s1;
              s2 = put_scratch tk (sc\<lparr>sc_rule_name := rule_name\<rparr>) s1;
              reason = (if rule_id \<noteq> 0 then MCP_GUARD_REASON_POLICY
                        else MCP_GUARD_REASON_DEFAULT);
              key = mcp_fill_cache_key tk MCP_GUARD_HOOK_SOCKET_CONNECT resource_id;
              s3 = mcp_l1_store h tk key action 0 rule_id reason s2;
              s4 =
                (if action \<noteq> MCP_GUARD_ACTION_ALLOW then
                   mcp_emit_event h tk MCP_GUARD_HOOK_SOCKET_CONNECT action MCP_GUARD_LAYER_L3
                     reason rule_id resource_id start_ns None (Some rule_name) family
                     ipv4_addr port (block_error action s3) s3
                 else s3)
          in mcp_recorded_action_ret h tk MCP_GUARD_HOOK_SOCKET_CONNECT action
               MCP_GUARD_LAYER_L3 start_ns s4)"

section \<open>Pipelines\<close>

text \<open>
  The tail-call chain of a hook.  The kernel bounds a chain to 33 tail calls, which is the fuel
  here; the arrays the loader sets up need two.
\<close>

definition MAX_TAIL_CALL_CNT :: nat where
  "MAX_TAIL_CALL_CNT = 33"

fun run_pipeline ::
  "(tail_prog \<Rightarrow> bpf_state \<Rightarrow> outcome \<times> bpf_state) \<Rightarrow> (bpf_state \<Rightarrow> u32 \<rightharpoonup> tail_prog) \<Rightarrow>
   nat \<Rightarrow> tail_prog \<Rightarrow> bpf_state \<Rightarrow> c_int \<times> bpf_state" where
  "run_pipeline prog arr n p s =
     (case prog p s of
        (Ret r, s') \<Rightarrow> (r, s')
      | (Tail_call i, s') \<Rightarrow>
          (case n of
             0 \<Rightarrow> (mcp_tail_fail_ret, s')
           | Suc m \<Rightarrow>
               (case arr s' i of
                  None \<Rightarrow> (mcp_tail_fail_ret, s')
                | Some q \<Rightarrow> run_pipeline prog arr m q s')))"

declare run_pipeline.simps [simp del]

definition exec_prog ::
  "helpers \<Rightarrow> task \<Rightarrow> linux_binprm \<Rightarrow> c_int \<Rightarrow> tail_prog \<Rightarrow> bpf_state \<Rightarrow> outcome \<times> bpf_state" where
  "exec_prog h tk bprm ret p =
     (case p of
        Prog_L1 \<Rightarrow> mcp_guard_bprm_check_security h tk bprm ret
      | Prog_L2 \<Rightarrow> mcp_guard_bprm_check_security_l2 h tk bprm ret
      | Prog_L3 \<Rightarrow> mcp_guard_bprm_check_security_l3 h tk bprm ret)"

definition file_open_prog ::
  "helpers \<Rightarrow> task \<Rightarrow> kfile option \<Rightarrow> c_int \<Rightarrow> tail_prog \<Rightarrow> bpf_state \<Rightarrow> outcome \<times> bpf_state" where
  "file_open_prog h tk file ret p =
     (case p of
        Prog_L1 \<Rightarrow> mcp_guard_file_open h tk file ret
      | Prog_L2 \<Rightarrow> mcp_guard_file_open_l2 h tk file ret
      | Prog_L3 \<Rightarrow> mcp_guard_file_open_l3 h tk file ret)"

definition file_permission_prog ::
  "helpers \<Rightarrow> task \<Rightarrow> kfile option \<times> u32 \<Rightarrow> c_int \<Rightarrow> tail_prog \<Rightarrow> bpf_state \<Rightarrow>
   outcome \<times> bpf_state" where
  "file_permission_prog h tk ctx ret p =
     (case p of
        Prog_L1 \<Rightarrow> mcp_guard_file_permission h tk ctx ret
      | Prog_L2 \<Rightarrow> mcp_guard_file_permission_l2 h tk ctx ret
      | Prog_L3 \<Rightarrow> mcp_guard_file_permission_l3 h tk ctx ret)"

definition socket_connect_prog ::
  "helpers \<Rightarrow> task \<Rightarrow> sockaddr option \<Rightarrow> c_int \<Rightarrow> tail_prog \<Rightarrow> bpf_state \<Rightarrow>
   outcome \<times> bpf_state" where
  "socket_connect_prog h tk address ret p =
     (case p of
        Prog_L1 \<Rightarrow> mcp_guard_socket_connect h tk address ret
      | Prog_L2 \<Rightarrow> mcp_guard_socket_connect_l2 h tk address ret
      | Prog_L3 \<Rightarrow> mcp_guard_socket_connect_l3 h tk address ret)"

definition run_exec :: "helpers \<Rightarrow> task \<Rightarrow> linux_binprm \<Rightarrow> c_int \<Rightarrow> bpf_state \<Rightarrow> c_int \<times> bpf_state"
  where "run_exec h tk bprm ret =
     run_pipeline (exec_prog h tk bprm ret) exec_pipeline MAX_TAIL_CALL_CNT Prog_L1"

definition run_file_open ::
  "helpers \<Rightarrow> task \<Rightarrow> kfile option \<Rightarrow> c_int \<Rightarrow> bpf_state \<Rightarrow> c_int \<times> bpf_state"
  where "run_file_open h tk file ret =
     run_pipeline (file_open_prog h tk file ret) file_open_pipeline MAX_TAIL_CALL_CNT Prog_L1"

definition run_file_permission ::
  "helpers \<Rightarrow> task \<Rightarrow> kfile option \<times> u32 \<Rightarrow> c_int \<Rightarrow> bpf_state \<Rightarrow> c_int \<times> bpf_state"
  where "run_file_permission h tk ctx ret =
     run_pipeline (file_permission_prog h tk ctx ret) file_permission_pipeline
       MAX_TAIL_CALL_CNT Prog_L1"

definition run_socket_connect ::
  "helpers \<Rightarrow> task \<Rightarrow> sockaddr option \<Rightarrow> c_int \<Rightarrow> bpf_state \<Rightarrow> c_int \<times> bpf_state"
  where "run_socket_connect h tk address ret =
     run_pipeline (socket_connect_prog h tk address ret) socket_connect_pipeline
       MAX_TAIL_CALL_CNT Prog_L1"

end
