(* ===== verification/Frames.thy ===== *)
theory Frames
  imports Guard
begin

text \<open>
  What the building blocks of the BPF programs leave alone.  \<open>policy_view\<close> is the part of
  the state that decides requests (the policy maps, the epoch, the program arrays); no BPF
  program writes it.  The rest of the theory collects, for every helper of the programs, its
  effect on the other maps, as simplification rules.
\<close>

section \<open>The policy view\<close>

definition policy_view where
  "policy_view s =
     (global_epoch s, policy_config s, policy_rules s,
      (scope_comm s, scope_pid s, scope_tgid s),
      (path_policy_trie s, command_policy_trie s, network_policy_trie s, resource_policy_hash s),
      (exec_pipeline s, file_open_pipeline s, file_permission_pipeline s,
       socket_connect_pipeline s))"

lemma view_updates [simp]:
  "policy_view (s\<lparr>l1_cache := c\<rparr>) = policy_view s"
  "policy_view (s\<lparr>events := evs\<rparr>) = policy_view s"
  "policy_view (s\<lparr>metrics := ms\<rparr>) = policy_view s"
  "policy_view (s\<lparr>tail_state := ts\<rparr>) = policy_view s"
  "policy_view (s\<lparr>scratch := sc\<rparr>) = policy_view s"
  "policy_view (s\<lparr>ticks := n\<rparr>) = policy_view s"
  by (simp_all add: policy_view_def)

lemma view_ktime [simp]: "policy_view (snd (ktime_get_ns h s)) = policy_view s"
  by (simp add: ktime_get_ns_def)

lemma view_store [simp]: "policy_view (mcp_l1_store h tk key a f r re s) = policy_view s"
  by (simp add: mcp_l1_store_def Let_def)

lemma view_followups [simp]:
  "policy_view (mcp_cache_file_followups h tk rid a r re s) = policy_view s"
  by (simp add: mcp_cache_file_followups_def Let_def)

lemma view_metric [simp]: "policy_view (mcp_record_metric h tk hook a l st s) = policy_view s"
  by (simp add: mcp_record_metric_def ktime_get_ns_def Let_def split: option.split)

lemma view_emit [simp]:
  "policy_view (mcp_emit_event h tk hook a l re r rid st p n fam ip port e s) = policy_view s"
  by (simp add: mcp_emit_event_def ktime_get_ns_def Let_def case_prod_beta)

lemma view_tail_start [simp]: "policy_view (mcp_set_tail_start tk st s) = policy_view s"
  by (simp add: mcp_set_tail_start_def split: option.split)

lemma view_get_tail_start [simp]: "policy_view (snd (mcp_get_tail_start h tk s)) = policy_view s"
  by (simp add: mcp_get_tail_start_def split: option.split)

lemma view_put_scratch [simp]: "policy_view (put_scratch tk sc s) = policy_view s"
  by (simp add: put_scratch_def)

lemma view_recorded [simp]:
  "policy_view (snd (mcp_recorded_action_ret h tk hook a l st s)) = policy_view s"
  by (simp add: mcp_recorded_action_ret_def Let_def)

section \<open>What depends on the view only\<close>

lemma view_fields:
  assumes "policy_view s = policy_view s'"
  shows "global_epoch s = global_epoch s'" "policy_config s = policy_config s'"
    "policy_rules s = policy_rules s'" "scope_comm s = scope_comm s'"
    "scope_pid s = scope_pid s'" "scope_tgid s = scope_tgid s'"
    "path_policy_trie s = path_policy_trie s'" "command_policy_trie s = command_policy_trie s'"
    "network_policy_trie s = network_policy_trie s'"
    "resource_policy_hash s = resource_policy_hash s'"
    "exec_pipeline s = exec_pipeline s'" "file_open_pipeline s = file_open_pipeline s'"
    "file_permission_pipeline s = file_permission_pipeline s'"
    "socket_connect_pipeline s = socket_connect_pipeline s'"
  using assms by (simp_all add: policy_view_def)

lemma view_config:
  assumes "policy_view s = policy_view s'"
  shows "mcp_current_epoch s = mcp_current_epoch s'" "mcp_config s = mcp_config s'"
    "mcp_policy_default_action s = mcp_policy_default_action s'"
    "mcp_policy_has_rules s = mcp_policy_has_rules s'"
    "mcp_policy_enforced s = mcp_policy_enforced s'"
    "mcp_l2_policy_flags s = mcp_l2_policy_flags s'"
    "mcp_scope_matches tk s = mcp_scope_matches tk s'"
    "mcp_action_ret a s = mcp_action_ret a s'"
    "block_error a s = block_error a s'"
  using view_fields [OF assms]
  by (simp_all add: mcp_current_epoch_def mcp_config_def mcp_policy_default_action_def
      mcp_policy_has_rules_def mcp_policy_rule_count_def mcp_policy_enforced_def
      mcp_l2_policy_flags_def mcp_scope_matches_def mcp_action_ret_def mcp_should_block_def
      block_error_def cong: option.case_cong if_cong)

lemma scan_view:
  assumes "policy_view s = policy_view s'"
  shows "policy_rules_scan t m b rid n s is = policy_rules_scan t m b rid n s' is"
  using view_fields(3) [OF assms] view_config(3) [OF assms]
  by (induction "is") (auto split: option.split)

lemma view_deciders:
  assumes "policy_view s = policy_view s'"
  shows "mcp_l3_path_trie_decide h hook p rid n s = mcp_l3_path_trie_decide h hook p rid n s'"
    "mcp_l3_command_trie_decide h hook p n s = mcp_l3_command_trie_decide h hook p n s'"
    "mcp_l3_resource_decide t hook rid n s = mcp_l3_resource_decide t hook rid n s'"
    "mcp_l3_ipv4_decide h ip port n s = mcp_l3_ipv4_decide h ip port n s'"
    "mcp_l3_string_decide h t hook b rid n s = mcp_l3_string_decide h t hook b rid n s'"
    "mcp_l2_file_decide s file hook f = mcp_l2_file_decide s' file hook f"
  using view_fields [OF assms] view_config [OF assms] scan_view [OF assms]
  by (simp_all add: mcp_l3_path_trie_decide_def mcp_l3_command_trie_decide_def
      mcp_l3_resource_decide_def mcp_l3_ipv4_decide_def mcp_l3_string_decide_def
      mcp_l2_file_decide_def Let_def cong: option.case_cong if_cong)

text \<open>The view rules, oriented for one helper at a time.\<close>

lemmas view_of_ktime = view_config [OF view_ktime] view_deciders [OF view_ktime]
lemmas view_of_tail = view_config [OF view_get_tail_start] view_deciders [OF view_get_tail_start]
lemmas view_of_set_tail = view_config [OF view_tail_start] view_deciders [OF view_tail_start]
lemmas view_of_scratch = view_config [OF view_put_scratch] view_deciders [OF view_put_scratch]
lemmas view_of_store = view_config [OF view_store] view_deciders [OF view_store]
lemmas view_of_followups = view_config [OF view_followups] view_deciders [OF view_followups]
lemmas view_of_metric = view_config [OF view_metric] view_deciders [OF view_metric]
lemmas view_of_emit = view_config [OF view_emit] view_deciders [OF view_emit]

lemmas view_of [simp] =
  view_of_ktime view_of_tail view_of_set_tail view_of_scratch view_of_store view_of_followups
  view_of_metric view_of_emit

section \<open>The cache\<close>

lemma cache_frames [simp]:
  "l1_cache (snd (ktime_get_ns h s)) = l1_cache s"
  "l1_cache (mcp_record_metric h tk hook a l st s) = l1_cache s"
  "l1_cache (mcp_emit_event h tk hook a l re r rid st p n fam ip port e s) = l1_cache s"
  "l1_cache (mcp_set_tail_start tk st s) = l1_cache s"
  "l1_cache (snd (mcp_get_tail_start h tk s)) = l1_cache s"
  "l1_cache (put_scratch tk sc s) = l1_cache s"
  by (simp_all add: ktime_get_ns_def mcp_record_metric_def mcp_emit_event_def
      mcp_set_tail_start_def mcp_get_tail_start_def put_scratch_def Let_def case_prod_beta
      split: option.split)

lemma hit_frames [simp]:
  "l1_hit tk k (snd (ktime_get_ns h s)) = l1_hit tk k s"
  "l1_hit tk k (mcp_record_metric h tk' hook a l st s) = l1_hit tk k s"
  "l1_hit tk k (mcp_emit_event h tk' hook a l re r rid st p n fam ip port e s) = l1_hit tk k s"
  "l1_hit tk k (mcp_set_tail_start tk' st s) = l1_hit tk k s"
  "l1_hit tk k (snd (mcp_get_tail_start h tk' s)) = l1_hit tk k s"
  "l1_hit tk k (put_scratch tk' sc s) = l1_hit tk k s"
  by (rule l1_hit_cong; simp)+

section \<open>Events\<close>

lemma event_frames [simp]:
  "events (snd (ktime_get_ns h s)) = events s"
  "events (mcp_record_metric h tk hook a l st s) = events s"
  "events (mcp_l1_store h tk key a f r re s) = events s"
  "events (mcp_set_tail_start tk st s) = events s"
  "events (snd (mcp_get_tail_start h tk s)) = events s"
  "events (put_scratch tk sc s) = events s"
  by (simp_all add: ktime_get_ns_def mcp_record_metric_def mcp_l1_store_def
      mcp_set_tail_start_def mcp_get_tail_start_def put_scratch_def Let_def
      split: option.split)

lemma event_followups [simp]: "events (mcp_cache_file_followups h tk rid a r re s) = events s"
  by (simp add: mcp_cache_file_followups_def Let_def)

section \<open>Metrics\<close>

lemma metric_frames [simp]:
  "metrics (snd (ktime_get_ns h s)) = metrics s"
  "metrics (mcp_emit_event h tk hook a l re r rid st p n fam ip port e s) = metrics s"
  "metrics (mcp_l1_store h tk key a f r re s) = metrics s"
  "metrics (mcp_set_tail_start tk st s) = metrics s"
  "metrics (snd (mcp_get_tail_start h tk s)) = metrics s"
  "metrics (put_scratch tk sc s) = metrics s"
  by (simp_all add: ktime_get_ns_def mcp_emit_event_def mcp_l1_store_def
      mcp_set_tail_start_def mcp_get_tail_start_def put_scratch_def Let_def case_prod_beta
      split: option.split)

lemma metric_followups [simp]: "metrics (mcp_cache_file_followups h tk rid a r re s) = metrics s"
  by (simp add: mcp_cache_file_followups_def Let_def)

section \<open>Scratch buffers\<close>

lemma scratch_frames [simp]:
  "scratch (snd (ktime_get_ns h s)) = scratch s"
  "scratch (mcp_record_metric h tk hook a l st s) = scratch s"
  "scratch (mcp_emit_event h tk hook a l re r rid st p n fam ip port e s) = scratch s"
  "scratch (mcp_l1_store h tk key a f r re s) = scratch s"
  "scratch (mcp_set_tail_start tk st s) = scratch s"
  "scratch (snd (mcp_get_tail_start h tk s)) = scratch s"
  by (simp_all add: ktime_get_ns_def mcp_record_metric_def mcp_emit_event_def mcp_l1_store_def
      mcp_set_tail_start_def mcp_get_tail_start_def Let_def case_prod_beta split: option.split)

lemma scratch_followups [simp]: "scratch (mcp_cache_file_followups h tk rid a r re s) = scratch s"
  by (simp add: mcp_cache_file_followups_def Let_def)

lemma get_scratch_frames [simp]:
  "mcp_get_scratch tk (snd (ktime_get_ns h s)) = mcp_get_scratch tk s"
  "mcp_get_scratch tk (mcp_set_tail_start tk' st s) = mcp_get_scratch tk s"
  "mcp_get_scratch tk (snd (mcp_get_tail_start h tk' s)) = mcp_get_scratch tk s"
  "mcp_get_scratch tk (put_scratch tk sc s) = Some sc"
  by (simp_all add: mcp_get_scratch_def) (simp add: put_scratch_def)

end
