(* ===== verification/Hooks.thy ===== *)
theory Hooks
  imports Frames
begin

text \<open>
  The contract that the twelve BPF programs share, as a locale: a program leaves the policy
  view alone, returns 0, \<open>-EACCES\<close> or the verdict it was handed, does nothing when an earlier
  LSM has denied, and adds to the L1 cache only valid decisions of the current epoch for its own
  task.  The pipeline of a hook inherits the contract from its programs; the four hooks are
  interpretations of the locale.
\<close>

section \<open>Growth of the cache\<close>

definition cache_entry_ok :: "task \<Rightarrow> bpf_state \<Rightarrow> nat \<Rightarrow> mcp_cache_key \<Rightarrow> mcp_cache_value \<Rightarrow> bool" where
  "cache_entry_ok tk s cpu k v \<longleftrightarrow>
     cpu = t_cpu tk \<and> ck_pid k = task_pid tk \<and> ck_tgid k = task_tgid tk \<and>
     ck_resource_id k \<noteq> 0 \<and> cv_epoch v = mcp_current_epoch s \<and>
     mcp_guard_action_valid (cv_action v)"

definition cache_grows :: "task \<Rightarrow> bpf_state \<Rightarrow> bpf_state \<Rightarrow> bool" where
  "cache_grows tk s s' \<longleftrightarrow>
     (\<forall>cpu k v. l1_cache s' cpu k = Some v \<longrightarrow>
        l1_cache s cpu k = Some v \<or> cache_entry_ok tk s cpu k v)"

lemma cache_grows_refl [simp]: "cache_grows tk s s"
  by (simp add: cache_grows_def)

lemma cache_grows_frames [simp]:
  "cache_grows tk s (snd (ktime_get_ns h s1)) = cache_grows tk s s1"
  "cache_grows tk s (mcp_record_metric h tk' hook a l st s1) = cache_grows tk s s1"
  "cache_grows tk s (mcp_emit_event h tk' hook a l re r rid st p n fam ip port e s1) =
     cache_grows tk s s1"
  "cache_grows tk s (mcp_set_tail_start tk' st s1) = cache_grows tk s s1"
  "cache_grows tk s (snd (mcp_get_tail_start h tk' s1)) = cache_grows tk s s1"
  "cache_grows tk s (put_scratch tk' sc s1) = cache_grows tk s s1"
  by (simp_all add: cache_grows_def)

lemma cache_grows_trans:
  "cache_grows tk s s1 \<Longrightarrow> cache_grows tk s1 s2 \<Longrightarrow> policy_view s1 = policy_view s \<Longrightarrow>
   cache_grows tk s s2"
  unfolding cache_grows_def cache_entry_ok_def by (metis view_config(1))

lemma cache_grows_store [simp]:
  assumes "lru_law (h_cache_update h)" and "cache_grows tk s s1"
    and "policy_view s1 = policy_view s"
    and "ck_pid key = task_pid tk" and "ck_tgid key = task_tgid tk"
  shows "cache_grows tk s (mcp_l1_store h tk key a f r re s1)"
proof -
  have "cache_grows tk s1 (mcp_l1_store h tk key a f r re s1)"
    using assms(4,5) by (auto simp: cache_grows_def cache_entry_ok_def dest: l1_store_cases [OF assms(1)])
  with assms(2,3) show ?thesis by (blast intro: cache_grows_trans)
qed

lemma cache_grows_followups [simp]:
  assumes "lru_law (h_cache_update h)" and "cache_grows tk s s1"
    and "policy_view s1 = policy_view s"
  shows "cache_grows tk s (mcp_cache_file_followups h tk rid a r re s1)"
  using assms by (auto simp: mcp_cache_file_followups_def Let_def)

text \<open>States that differ in the clock only.\<close>

definition only_ticks :: "bpf_state \<Rightarrow> bpf_state \<Rightarrow> bool" where
  "only_ticks s s' \<longleftrightarrow> (\<exists>n. s' = s\<lparr>ticks := n\<rparr>)"

lemma only_ticks_refl [simp]: "only_ticks s s"
  unfolding only_ticks_def by (rule exI [of _ "ticks s"]) simp

lemma only_ticks_ktime [simp]: "only_ticks s (snd (ktime_get_ns h s))"
  by (auto simp: only_ticks_def ktime_get_ns_def)

lemma only_ticks_tail [simp]: "only_ticks s (snd (mcp_get_tail_start h tk s))"
  by (simp add: mcp_get_tail_start_def split: option.split)

lemma action_ret_cases: "mcp_action_ret a s \<in> {0, - 13}"
  by (simp add: mcp_action_ret_def)

lemma recorded_fst [simp]:
  "fst (mcp_recorded_action_ret h tk hook a l st s) = Ret (mcp_action_ret a s)"
  by (simp add: mcp_recorded_action_ret_def Let_def)

lemma recorded_snd [simp]:
  "snd (mcp_recorded_action_ret h tk hook a l st s) = mcp_record_metric h tk hook a l st s"
  by (simp add: mcp_recorded_action_ret_def Let_def)

section \<open>The contract of a hook's programs\<close>

locale guard_program =
  fixes h :: helpers and tk :: task and ret :: c_int
    and prog :: "tail_prog \<Rightarrow> bpf_state \<Rightarrow> outcome \<times> bpf_state"
  assumes prog_view: "policy_view (snd (prog p s)) = policy_view s"
    and prog_ret: "fst (prog p s) = Ret r \<Longrightarrow> r \<in> {0, - 13, ret}"
    and prog_cache: "lru_law (h_cache_update h) \<Longrightarrow> cache_grows tk s (snd (prog p s))"
    and prog_denied: "ret \<noteq> 0 \<Longrightarrow>
      fst (prog p s) = Ret ret \<and> only_ticks s (snd (prog p s))"

context guard_program
begin

lemma pipeline_view: "policy_view (snd (run_pipeline prog arr n p s)) = policy_view s"
proof (induction n arbitrary: p s)
  case 0
  show ?case
    using prog_view [of p s]
    by (subst run_pipeline.simps) (auto split: prod.split outcome.split)
next
  case (Suc n)
  show ?case
    using prog_view [of p s] Suc.IH
    by (subst run_pipeline.simps) (auto split: prod.split outcome.split option.split)
qed

lemma pipeline_ret: "fst (run_pipeline prog arr n p s) \<in> {0, - 13, ret}"
proof (induction n arbitrary: p s)
  case 0
  show ?case
    using prog_ret [of p s]
    by (subst run_pipeline.simps) (auto simp: mcp_tail_fail_ret_def split: prod.split outcome.split)
next
  case (Suc n)
  show ?case
    using prog_ret [of p s] Suc.IH
    by (subst run_pipeline.simps)
      (auto simp: mcp_tail_fail_ret_def split: prod.split outcome.split option.split)
qed

lemma pipeline_cache:
  assumes "lru_law (h_cache_update h)"
  shows "cache_grows tk s (snd (run_pipeline prog arr n p s))"
proof (induction n arbitrary: p s)
  case 0
  show ?case
    using prog_cache [OF assms, of s p]
    by (subst run_pipeline.simps) (auto split: prod.split outcome.split)
next
  case (Suc n)
  show ?case
    using prog_cache [OF assms, of s p] prog_view [of p s] Suc.IH
    by (subst run_pipeline.simps)
      (auto split: prod.split outcome.split option.split intro: cache_grows_trans)
qed

lemma pipeline_denied:
  assumes "ret \<noteq> 0"
  shows "fst (run_pipeline prog arr n p s) = ret \<and>
    only_ticks s (snd (run_pipeline prog arr n p s))"
  using prog_denied [OF assms, of p s]
  by (subst (1 2) run_pipeline.simps) (auto split: prod.split outcome.split)

end

section \<open>The four hooks\<close>

lemmas [program_defs] =
  mcp_guard_bprm_check_security_def mcp_guard_bprm_check_security_l2_def
  mcp_guard_bprm_check_security_l3_def mcp_guard_file_open_def mcp_guard_file_open_l2_def
  mcp_guard_file_open_l3_def mcp_guard_file_permission_def mcp_guard_file_permission_l2_def
  mcp_guard_file_permission_l3_def mcp_guard_socket_connect_def mcp_guard_socket_connect_l2_def
  mcp_guard_socket_connect_l3_def

interpretation exec: guard_program h tk ret "exec_prog h tk bprm ret" for h tk ret bprm
proof (unfold_locales, goal_cases)
  case (1 p s)
  show ?case
    by (cases p) (simp_all add: exec_prog_def program_defs Let_def case_prod_beta
        split: option.split if_split)
next
  case (2 p s r)
  then show ?case
    using action_ret_cases
    by (cases p) (auto simp: exec_prog_def program_defs Let_def case_prod_beta mcp_tail_fail_ret_def
        split: option.splits if_splits)
next
  case (3 s p)
  then show ?case
    by (cases p) (simp_all add: exec_prog_def program_defs Let_def case_prod_beta split: option.split)
next
  case (4 p s)
  then show ?case
    by (cases p) (simp_all add: exec_prog_def program_defs Let_def case_prod_beta)
qed

interpretation fopen: guard_program h tk ret "file_open_prog h tk f ret" for h tk ret f
proof (unfold_locales, goal_cases)
  case (1 p s)
  show ?case
    by (cases p) (simp_all add: file_open_prog_def program_defs Let_def case_prod_beta
        split: option.split if_split)
next
  case (2 p s r)
  then show ?case
    using action_ret_cases
    by (cases p) (auto simp: file_open_prog_def program_defs Let_def case_prod_beta mcp_tail_fail_ret_def
        split: option.splits if_splits)
next
  case (3 s p)
  then show ?case
    by (cases p) (simp_all add: file_open_prog_def program_defs Let_def case_prod_beta split: option.split)
next
  case (4 p s)
  then show ?case
    by (cases p) (simp_all add: file_open_prog_def program_defs Let_def case_prod_beta)
qed

interpretation fperm: guard_program h tk ret "file_permission_prog h tk ctx ret" for h tk ret ctx
proof (unfold_locales, goal_cases)
  case (1 p s)
  show ?case
    by (cases p) (simp_all add: file_permission_prog_def program_defs Let_def case_prod_beta
        split: option.split if_split)
next
  case (2 p s r)
  then show ?case
    using action_ret_cases
    by (cases p) (auto simp: file_permission_prog_def program_defs Let_def case_prod_beta mcp_tail_fail_ret_def
        split: option.splits if_splits)
next
  case (3 s p)
  then show ?case
    by (cases p) (simp_all add: file_permission_prog_def program_defs Let_def case_prod_beta split: option.split)
next
  case (4 p s)
  then show ?case
    by (cases p) (simp_all add: file_permission_prog_def program_defs Let_def case_prod_beta)
qed

interpretation sconn: guard_program h tk ret "socket_connect_prog h tk address ret" for h tk ret address
proof (unfold_locales, goal_cases)
  case (1 p s)
  show ?case
    by (cases p) (simp_all add: socket_connect_prog_def program_defs Let_def case_prod_beta
        split: option.split if_split)
next
  case (2 p s r)
  then show ?case
    using action_ret_cases
    by (cases p) (auto simp: socket_connect_prog_def program_defs Let_def case_prod_beta mcp_tail_fail_ret_def
        split: option.splits if_splits)
next
  case (3 s p)
  then show ?case
    by (cases p) (simp_all add: socket_connect_prog_def program_defs Let_def case_prod_beta split: option.split)
next
  case (4 p s)
  then show ?case
    by (cases p) (simp_all add: socket_connect_prog_def program_defs Let_def case_prod_beta)
qed

end
