(* ===== verification/Deciders.thy ===== *)
theory Deciders
  imports Hooks
begin

text \<open>
  The four policy deciders of L3 share one contract: find a rule for the request, return its
  verdict, and fall back to the default action when there is none.  The locale
  \<open>policy_decider\<close> states it over the rule a decider finds; its interpretations give, for each
  decider, the function that finds the rule.  Metrics and events are treated here too.
\<close>

section \<open>The contract\<close>

locale policy_decider =
  fixes decide :: "buffer \<Rightarrow> bpf_state \<Rightarrow> verdict"
    and found :: "bpf_state \<Rightarrow> (u32 \<times> u32 \<times> buffer) option"
  assumes decide_found: "decide name s =
    (case found s of
       None \<Rightarrow> (mcp_policy_default_action s, 0, name)
     | Some (rule_id, action, nm) \<Rightarrow>
         (rule_verdict action, rule_id, copy_until_nul MCP_GUARD_RULE_NAME_LEN name nm))"

context policy_decider
begin

lemma decide_valid: "mcp_guard_action_valid (fst (decide name s))"
  by (auto simp: decide_found rule_verdict_def mcp_policy_default_action_def
      split: option.split)

lemma decide_default: "found s = None \<Longrightarrow> decide name s = (mcp_policy_default_action s, 0, name)"
  by (simp add: decide_found)

lemma decide_rule:
  "found s = Some (rule_id, action, nm) \<Longrightarrow>
   fst (decide name s) = rule_verdict action \<and> fst (snd (decide name s)) = rule_id"
  by (simp add: decide_found)

lemma decide_name_length: "length (snd (snd (decide name s))) = length name"
  by (simp add: decide_found split: option.split)

lemma decide_name_irrelevant:
  "fst (decide name s) = fst (decide name' s)"
  "fst (snd (decide name s)) = fst (snd (decide name' s))"
  by (simp_all add: decide_found split: option.split)

end

section \<open>The rules the deciders find\<close>

definition live_rule :: "u32 \<Rightarrow> u32 \<Rightarrow> u32 \<Rightarrow> bool" where
  "live_rule enabled rule_mask hook_id \<longleftrightarrow>
     enabled \<noteq> 0 \<and> rule_mask AND mcp_guard_hook_mask hook_id \<noteq> 0"

text \<open>The configuration under which rules are looked up at all.\<close>

definition rules_config :: "bpf_state \<Rightarrow> mcp_policy_config option" where
  "rules_config s =
     (case mcp_config s of
        None \<Rightarrow> None
      | Some cfg \<Rightarrow> if cfg_rule_count cfg = 0 then None else Some cfg)"

definition path_query :: "mcp_policy_config \<Rightarrow> buffer \<Rightarrow> mcp_path_lpm_key" where
  "path_query cfg p =
     \<lparr>plk_prefixlen = 32 + of_nat MCP_GUARD_PATH_LPM_LEN * 8,
      plk_generation = cfg_active_generation cfg,
      plk_path = copy_until_nul MCP_GUARD_PATH_LPM_LEN (zeroed MCP_GUARD_PATH_LPM_LEN) p\<rparr>"

definition command_query :: "mcp_policy_config \<Rightarrow> buffer \<Rightarrow> mcp_command_lpm_key" where
  "command_query cfg p =
     \<lparr>clk_prefixlen = 32 + of_nat MCP_GUARD_RULE_VALUE_LEN * 8,
      clk_generation = cfg_active_generation cfg,
      clk_command = copy_until_nul MCP_GUARD_RULE_VALUE_LEN (zeroed MCP_GUARD_RULE_VALUE_LEN) p\<rparr>"

definition network_query :: "mcp_policy_config \<Rightarrow> u32 \<Rightarrow> u16 \<Rightarrow> mcp_network_lpm_key" where
  "network_query cfg ipv4_addr port =
     \<lparr>nlk_prefixlen = 96, nlk_generation = cfg_active_generation cfg,
      nlk_port = ucast port, nlk_ipv4_addr = ipv4_addr\<rparr>"

definition path_found ::
  "helpers \<Rightarrow> u32 \<Rightarrow> buffer option \<Rightarrow> bpf_state \<Rightarrow> (u32 \<times> u32 \<times> buffer) option" where
  "path_found h hook_id path s =
     (case (rules_config s, path) of
        (Some cfg, Some p) \<Rightarrow>
          if p ! 0 = NUL then None
          else
            (case h_path_lookup h (path_policy_trie s) (path_query cfg p) of
               None \<Rightarrow> None
             | Some r \<Rightarrow>
                 if live_rule (ppv_enabled r) (ppv_hook_mask r) hook_id
                 then Some (ppv_rule_id r, ppv_action r, ppv_name r) else None)
      | _ \<Rightarrow> None)"

definition indexed_rule ::
  "u32 \<Rightarrow> mcp_indexed_policy_value option \<Rightarrow> (u32 \<times> u32 \<times> buffer) option" where
  "indexed_rule hook_id rule =
     (case rule of
        None \<Rightarrow> None
      | Some r \<Rightarrow>
          if live_rule (ipv_enabled r) (ipv_hook_mask r) hook_id
          then Some (ipv_rule_id r, ipv_action r, ipv_name r) else None)"

definition command_found ::
  "helpers \<Rightarrow> u32 \<Rightarrow> buffer option \<Rightarrow> bpf_state \<Rightarrow> (u32 \<times> u32 \<times> buffer) option" where
  "command_found h hook_id cmd s =
     (case (rules_config s, cmd) of
        (Some cfg, Some c) \<Rightarrow>
          if c ! 0 = NUL then None
          else indexed_rule hook_id
                 (h_command_lookup h (command_policy_trie s) (command_query cfg c))
      | _ \<Rightarrow> None)"

definition resource_found ::
  "u32 \<Rightarrow> u32 \<Rightarrow> u64 \<Rightarrow> bpf_state \<Rightarrow> (u32 \<times> u32 \<times> buffer) option" where
  "resource_found rule_type hook_id resource_id s =
     (case rules_config s of
        None \<Rightarrow> None
      | Some cfg \<Rightarrow>
          indexed_rule hook_id
            (map_of (resource_policy_hash s)
               \<lparr>rpk_generation = cfg_active_generation cfg, rpk_rule_type = rule_type,
                rpk_resource_id = resource_id\<rparr>))"

text \<open>A rule for the port itself is preferred to one for any port (stored under port 0).\<close>

definition network_rule ::
  "helpers \<Rightarrow> network_trie \<Rightarrow> mcp_network_lpm_key \<Rightarrow> mcp_indexed_policy_value option" where
  "network_rule h t key =
     (case h_network_lookup h t key of
        None \<Rightarrow> h_network_lookup h t (key\<lparr>nlk_port := 0\<rparr>)
      | Some r \<Rightarrow> Some r)"

definition network_found ::
  "helpers \<Rightarrow> u32 \<Rightarrow> u16 \<Rightarrow> bpf_state \<Rightarrow> (u32 \<times> u32 \<times> buffer) option" where
  "network_found h ipv4_addr port s =
     (case rules_config s of
        None \<Rightarrow> None
      | Some cfg \<Rightarrow>
          indexed_rule MCP_GUARD_HOOK_SOCKET_CONNECT
            (network_rule h (network_policy_trie s) (network_query cfg ipv4_addr port)))"

lemmas found_defs = rules_config_def live_rule_def indexed_rule_def

interpretation path_decider: policy_decider
  "\<lambda>name. mcp_l3_path_trie_decide h hook_id path resource_id name" "path_found h hook_id path"
  for h hook_id path resource_id
  by unfold_locales
    (simp add: mcp_l3_path_trie_decide_def path_found_def path_query_def found_defs
      mcp_copy_rule_name_from_path_value_def Let_def split: option.split)

interpretation command_decider: policy_decider
  "\<lambda>name. mcp_l3_command_trie_decide h hook_id cmd name" "command_found h hook_id cmd"
  for h hook_id cmd
  by unfold_locales
    (simp add: mcp_l3_command_trie_decide_def command_found_def command_query_def found_defs
      mcp_copy_rule_name_from_indexed_value_def Let_def split: option.split)

interpretation resource_decider: policy_decider
  "\<lambda>name. mcp_l3_resource_decide rule_type hook_id resource_id name"
  "resource_found rule_type hook_id resource_id"
  for rule_type hook_id resource_id
  by unfold_locales
    (simp add: mcp_l3_resource_decide_def resource_found_def found_defs
      mcp_copy_rule_name_from_indexed_value_def Let_def split: option.split)

interpretation network_decider: policy_decider
  "\<lambda>name. mcp_l3_ipv4_decide h ipv4_addr port name" "network_found h ipv4_addr port"
  for h ipv4_addr port
  by unfold_locales
    (simp add: mcp_l3_ipv4_decide_def network_found_def network_query_def network_rule_def
      found_defs mcp_copy_rule_name_from_indexed_value_def Let_def split: option.split)

text \<open>
  The string decider is one of the two trie deciders for the rule types its callers pass: without
  rules the trie deciders give the default action too, and the scan is never reached.
\<close>

lemma has_rules_config: "mcp_policy_has_rules s \<longleftrightarrow> rules_config s \<noteq> None"
  by (auto simp: mcp_policy_has_rules_def mcp_policy_rule_count_def rules_config_def
      split: option.split)

lemma string_decide_path:
  "mcp_l3_string_decide h MCP_GUARD_RULE_PATH_PREFIX hook_id b rid name s =
     mcp_l3_path_trie_decide h hook_id (Some b) rid name s"
  by (simp add: mcp_l3_string_decide_def has_rules_config path_decider.decide_found path_found_def)

lemma string_decide_command:
  "mcp_l3_string_decide h MCP_GUARD_RULE_COMMAND_PREFIX hook_id b rid name s =
     mcp_l3_command_trie_decide h hook_id (Some b) name s"
  by (simp add: mcp_l3_string_decide_def has_rules_config command_decider.decide_found
      command_found_def)

lemma no_rules_default:
  assumes "\<not> mcp_policy_has_rules s"
  shows "mcp_l3_ipv4_decide h ip port name s = (mcp_policy_default_action s, 0, name)"
    "mcp_l3_path_trie_decide h hook path rid name s = (mcp_policy_default_action s, 0, name)"
    "mcp_l3_command_trie_decide h hook path name s = (mcp_policy_default_action s, 0, name)"
    "mcp_l3_resource_decide t hook rid name s = (mcp_policy_default_action s, 0, name)"
  using assms
  by (simp_all add: has_rules_config network_decider.decide_found network_found_def
      path_decider.decide_found path_found_def command_decider.decide_found command_found_def
      resource_decider.decide_found resource_found_def)

lemma default_action_valid: "mcp_guard_action_valid (mcp_policy_default_action s)"
  by (simp add: mcp_policy_default_action_def split: option.split)

section \<open>Metrics\<close>

lemma hist_bucket_bound: "mcp_hist_bucket d < MCP_GUARD_HIST_BUCKETS"
  by (simp add: mcp_hist_bucket_def)

lemma hist_bucket_mono: "d \<le> e \<Longrightarrow> mcp_hist_bucket d \<le> mcp_hist_bucket e"
  unfolding mcp_hist_bucket_def by (auto intro: order.strict_trans1 order.strict_trans2)

end
