(* ===== verification/Chains.thy ===== *)
theory Chains
  imports Deciders
begin

text \<open>
  The tail-call chains of the four hooks: what a pipeline returns when its first, second or
  third program answers, and when a slot of the program array is empty.
\<close>

section \<open>Ready states\<close>

text \<open>The arrays as the loader fills them, and a task whose request is examined at all.\<close>

definition pipelines_loaded :: "bpf_state \<Rightarrow> bool" where
  "pipelines_loaded s \<longleftrightarrow>
     exec_pipeline s MCP_GUARD_TAIL_L2 = Some Prog_L2 \<and>
     exec_pipeline s MCP_GUARD_TAIL_L3 = Some Prog_L3 \<and>
     file_open_pipeline s MCP_GUARD_TAIL_L2 = Some Prog_L2 \<and>
     file_open_pipeline s MCP_GUARD_TAIL_L3 = Some Prog_L3 \<and>
     file_permission_pipeline s MCP_GUARD_TAIL_L2 = Some Prog_L2 \<and>
     file_permission_pipeline s MCP_GUARD_TAIL_L3 = Some Prog_L3 \<and>
     socket_connect_pipeline s MCP_GUARD_TAIL_L2 = Some Prog_L2 \<and>
     socket_connect_pipeline s MCP_GUARD_TAIL_L3 = Some Prog_L3"

definition scratch_ready :: "task \<Rightarrow> bpf_state \<Rightarrow> bool" where
  "scratch_ready tk s \<longleftrightarrow>
     (case mcp_get_scratch tk s of
        None \<Rightarrow> False
      | Some sc \<Rightarrow>
          length (sc_path sc) = MCP_GUARD_PATH_LEN \<and>
          length (sc_rule_name sc) = MCP_GUARD_RULE_NAME_LEN)"

lemma scratch_ready_frames [simp]:
  "scratch_ready tk (snd (ktime_get_ns h s)) = scratch_ready tk s"
  "scratch_ready tk (mcp_record_metric h tk' hook a l st s) = scratch_ready tk s"
  "scratch_ready tk (mcp_emit_event h tk' hook a l re r rid st p n fam ip port e s) =
     scratch_ready tk s"
  "scratch_ready tk (mcp_l1_store h tk' key a f r re s) = scratch_ready tk s"
  "scratch_ready tk (mcp_cache_file_followups h tk' rid a r re s) = scratch_ready tk s"
  "scratch_ready tk (mcp_set_tail_start tk' st s) = scratch_ready tk s"
  "scratch_ready tk (snd (mcp_get_tail_start h tk' s)) = scratch_ready tk s"
  by (simp_all add: scratch_ready_def mcp_get_scratch_def)

lemma scratch_ready_put:
  "length (sc_path sc) = 256 \<Longrightarrow> length (sc_rule_name sc) = 64 \<Longrightarrow> scratch_ready tk s \<Longrightarrow>
   scratch_ready tk (put_scratch tk' sc s)"
  by (simp add: scratch_ready_def mcp_get_scratch_def put_scratch_def)

lemma scratch_ready_get:
  "mcp_get_scratch tk s = Some sc \<Longrightarrow> scratch_ready tk s \<Longrightarrow>
   length (sc_path sc) = 256 \<and> length (sc_rule_name sc) = 64"
  by (simp add: scratch_ready_def)

text \<open>What the readers leave in a full-sized buffer.\<close>

lemma read_bprm_filename:
  assumes "strings_law h" and "length b = 256"
  shows "length (mcp_read_bprm_filename h bprm b) = 256"
    "cstr (mcp_read_bprm_filename h bprm b) =
       (case bprm_filename bprm of None \<Rightarrow> [] | Some p \<Rightarrow> take (MCP_GUARD_PATH_LEN - 1) (cstr p))"
proof -
  have "cstr (b[0 := NUL]) = []" by (cases b) auto
  then show "length (mcp_read_bprm_filename h bprm b) = 256"
    "cstr (mcp_read_bprm_filename h bprm b) =
       (case bprm_filename bprm of None \<Rightarrow> [] | Some p \<Rightarrow> take (MCP_GUARD_PATH_LEN - 1) (cstr p))"
    using assms(2) read_str_lawD [OF assms(1), of _ 256]
    by (simp_all add: mcp_read_bprm_filename_def Let_def split: option.split)
qed

lemma read_file_path:
  assumes "strings_law h" and "length b = 256"
  shows "length (snd (mcp_read_file_path h f b)) = 256"
    "cstr (snd (mcp_read_file_path h f b)) =
       (case f of
          None \<Rightarrow> []
        | Some f \<Rightarrow>
            if length (cstr (f_path f)) < MCP_GUARD_PATH_LEN then cstr (f_path f) else [])"
proof -
  have nul: "cstr (c[0 := NUL]) = []" for c by (cases c) auto
  show "length (snd (mcp_read_file_path h f b)) = 256"
    using assms(2) d_path_lawD(1) [OF assms]
    by (simp add: mcp_read_file_path_def Let_def case_prod_beta split: option.split)
  have "cstr (snd (mcp_read_file_path h (Some k) b)) =
      (if length (cstr (f_path k)) < 256 then cstr (f_path k) else [])" for k
    using d_path_lawD(2,3) [OF assms, of "f_path k"]
    by (cases "length (cstr (f_path k)) < 256")
      (simp_all add: mcp_read_file_path_def Let_def case_prod_beta nul)
  then show "cstr (snd (mcp_read_file_path h f b)) =
       (case f of
          None \<Rightarrow> []
        | Some f \<Rightarrow>
            if length (cstr (f_path f)) < MCP_GUARD_PATH_LEN then cstr (f_path f) else [])"
    by (cases f) (simp_all add: mcp_read_file_path_def nul)
qed

lemma length_string_decide:
  "length (snd (snd (mcp_l3_string_decide h 1 hook b rid name s))) = length name"
  "length (snd (snd (mcp_l3_string_decide h 2 hook b rid name s))) = length name"
  by (simp_all add: string_decide_path string_decide_command path_decider.decide_name_length
      command_decider.decide_name_length)

lemmas name_lengths =
  length_string_decide resource_decider.decide_name_length network_decider.decide_name_length

section \<open>Chains\<close>

locale guard_chain = guard_program +
  fixes arr :: "bpf_state \<Rightarrow> u32 \<rightharpoonup> tail_prog"
  assumes arr_view: "policy_view s = policy_view s' \<Longrightarrow> arr s = arr s'"
    and tail_l1: "fst (prog Prog_L1 s) = Tail_call i \<Longrightarrow> i = MCP_GUARD_TAIL_L2"
    and tail_l2: "fst (prog Prog_L2 s) = Tail_call i \<Longrightarrow> i = MCP_GUARD_TAIL_L3"
    and tail_l3: "fst (prog Prog_L3 s) \<noteq> Tail_call i"
    and prog_scratch: "strings_law h \<Longrightarrow> scratch_ready tk s \<Longrightarrow> scratch_ready tk' s \<Longrightarrow>
      scratch_ready tk (snd (prog p s)) \<and> scratch_ready tk' (snd (prog p s))"

lemma run_ret: "prog p s = (Ret r, s') \<Longrightarrow> run_pipeline prog arr n p s = (r, s')"
  by (subst run_pipeline.simps) simp

lemma run_call:
  "prog p s = (Tail_call i, s') \<Longrightarrow> arr s' i = Some q \<Longrightarrow>
   run_pipeline prog arr (Suc n) p s = run_pipeline prog arr n q s'"
  by (subst run_pipeline.simps) simp

lemma run_broken:
  "prog p s = (Tail_call i, s') \<Longrightarrow> arr s' i = None \<Longrightarrow>
   run_pipeline prog arr n p s = (mcp_tail_fail_ret, s')"
  by (subst run_pipeline.simps) (simp split: nat.split)

lemma two_tail_calls: "MAX_TAIL_CALL_CNT = Suc (Suc 31)"
  by (simp add: MAX_TAIL_CALL_CNT_def)

context guard_chain
begin

lemma step_l1:
  assumes "prog Prog_L1 s = (Tail_call i, s1)"
  shows "i = MCP_GUARD_TAIL_L2" and "arr s1 = arr s"
proof -
  show "i = MCP_GUARD_TAIL_L2" using assms by (intro tail_l1 [of s]) simp
  show "arr s1 = arr s" using prog_view [of Prog_L1 s] assms by (intro arr_view) simp
qed

lemma step_l2:
  assumes "prog Prog_L2 s = (Tail_call i, s1)"
  shows "i = MCP_GUARD_TAIL_L3" and "arr s1 = arr s"
proof -
  show "i = MCP_GUARD_TAIL_L3" using assms by (intro tail_l2 [of s]) simp
  show "arr s1 = arr s" using prog_view [of Prog_L2 s] assms by (intro arr_view) simp
qed

lemmas ret = run_ret [of prog]
lemmas call = run_call [of prog]
lemmas broken = run_broken [of prog]

lemma pipeline_scratch:
  assumes "strings_law h" and "scratch_ready tk s" and "scratch_ready tk' s"
  shows "scratch_ready tk (snd (run_pipeline prog arr n p s)) \<and>
    scratch_ready tk' (snd (run_pipeline prog arr n p s))"
  using assms(2,3)
proof (induction n arbitrary: p s)
  case 0
  then show ?case
    using prog_scratch [OF assms(1), of s tk' p]
    by (subst (1 2) run_pipeline.simps) (auto split: prod.split outcome.split)
next
  case (Suc n)
  then show ?case
    using prog_scratch [OF assms(1), of s tk' p]
    by (subst (1 2) run_pipeline.simps) (auto split: prod.split outcome.split option.split)
qed

lemma chain_hit:
  assumes "prog Prog_L1 s = (Ret r, s1)"
  shows "run_pipeline prog arr MAX_TAIL_CALL_CNT Prog_L1 s = (r, s1)"
  by (rule ret) (rule assms)

lemma chain_call_l2:
  assumes "prog Prog_L1 s = (Tail_call i, s1)" and "arr s MCP_GUARD_TAIL_L2 = Some Prog_L2"
  shows "run_pipeline prog arr MAX_TAIL_CALL_CNT Prog_L1 s =
    run_pipeline prog arr (Suc 31) Prog_L2 s1"
  unfolding two_tail_calls
  by (rule call) (use assms step_l1 [OF assms(1)] in simp_all)

lemma chain_l2:
  assumes "prog Prog_L1 s = (Tail_call i, s1)" and "arr s MCP_GUARD_TAIL_L2 = Some Prog_L2"
    and "prog Prog_L2 s1 = (Ret r, s2)"
  shows "run_pipeline prog arr MAX_TAIL_CALL_CNT Prog_L1 s = (r, s2)"
  unfolding chain_call_l2 [OF assms(1,2)] by (rule ret) (rule assms(3))

lemma chain_call_l3:
  assumes "prog Prog_L1 s = (Tail_call i, s1)" and "arr s MCP_GUARD_TAIL_L2 = Some Prog_L2"
    and "prog Prog_L2 s1 = (Tail_call j, s2)" and "arr s MCP_GUARD_TAIL_L3 = Some Prog_L3"
  shows "run_pipeline prog arr MAX_TAIL_CALL_CNT Prog_L1 s = run_pipeline prog arr 31 Prog_L3 s2"
  unfolding chain_call_l2 [OF assms(1,2)]
  by (rule call) (use assms step_l1 [OF assms(1)] step_l2 [OF assms(3)] in simp_all)

lemma chain_l3:
  assumes "prog Prog_L1 s = (Tail_call i, s1)" and "arr s MCP_GUARD_TAIL_L2 = Some Prog_L2"
    and "prog Prog_L2 s1 = (Tail_call j, s2)" and "arr s MCP_GUARD_TAIL_L3 = Some Prog_L3"
    and "prog Prog_L3 s2 = (Ret r, s3)"
  shows "run_pipeline prog arr MAX_TAIL_CALL_CNT Prog_L1 s = (r, s3)"
  unfolding chain_call_l3 [OF assms(1-4)] by (rule ret) (rule assms(5))

lemma chain_broken_l2:
  assumes "prog Prog_L1 s = (Tail_call i, s1)" and "arr s MCP_GUARD_TAIL_L2 = None"
  shows "run_pipeline prog arr MAX_TAIL_CALL_CNT Prog_L1 s = (mcp_tail_fail_ret, s1)"
  by (rule broken [of _ _ i]) (use assms step_l1 [OF assms(1)] in simp_all)

lemma chain_broken_l3:
  assumes "prog Prog_L1 s = (Tail_call i, s1)" and "arr s MCP_GUARD_TAIL_L2 = Some Prog_L2"
    and "prog Prog_L2 s1 = (Tail_call j, s2)" and "arr s MCP_GUARD_TAIL_L3 = None"
  shows "run_pipeline prog arr MAX_TAIL_CALL_CNT Prog_L1 s = (mcp_tail_fail_ret, s2)"
  unfolding chain_call_l2 [OF assms(1,2)]
  by (rule broken [of _ _ j]) (use assms step_l1 [OF assms(1)] step_l2 [OF assms(3)] in simp_all)

end

lemma recorded_not_tail [simp]:
  "fst (mcp_recorded_action_ret h tk hook a l st s) \<noteq> Tail_call i"
  by simp

interpretation exec_chain: guard_chain h tk ret "exec_prog h tk bprm ret" exec_pipeline
  for h tk ret bprm
proof (unfold_locales, goal_cases)
  case (5 s tk' p)
  then show ?case
    using name_lengths read_bprm_filename(1) read_file_path(1)
    by (cases p)
      (auto simp: exec_prog_def program_defs Let_def case_prod_beta scratch_ready_get
        intro!: scratch_ready_put split: option.split)
qed (auto simp: exec_prog_def program_defs Let_def case_prod_beta policy_view_def
    split: option.splits if_splits)

interpretation fopen_chain: guard_chain h tk ret "file_open_prog h tk f ret" file_open_pipeline
  for h tk ret f
proof (unfold_locales, goal_cases)
  case (5 s tk' p)
  then show ?case
    using name_lengths read_bprm_filename(1) read_file_path(1)
    by (cases p)
      (auto simp: file_open_prog_def program_defs Let_def case_prod_beta scratch_ready_get
        intro!: scratch_ready_put split: option.split)
qed (auto simp: file_open_prog_def program_defs Let_def case_prod_beta policy_view_def
    split: option.splits if_splits)

interpretation fperm_chain: guard_chain h tk ret "file_permission_prog h tk ctx ret"
  file_permission_pipeline
  for h tk ret ctx
proof (unfold_locales, goal_cases)
  case (5 s tk' p)
  then show ?case
    using name_lengths read_bprm_filename(1) read_file_path(1)
    by (cases p)
      (auto simp: file_permission_prog_def program_defs Let_def case_prod_beta scratch_ready_get
        intro!: scratch_ready_put split: option.split)
qed (auto simp: file_permission_prog_def program_defs Let_def case_prod_beta policy_view_def
    split: option.splits if_splits)

interpretation sconn_chain: guard_chain h tk ret "socket_connect_prog h tk address ret"
  socket_connect_pipeline
  for h tk ret address
proof (unfold_locales, goal_cases)
  case (5 s tk' p)
  then show ?case
    using name_lengths read_bprm_filename(1) read_file_path(1)
    by (cases p)
      (auto simp: socket_connect_prog_def program_defs Let_def case_prod_beta scratch_ready_get
        intro!: scratch_ready_put split: option.split)
qed (auto simp: socket_connect_prog_def program_defs Let_def case_prod_beta policy_view_def
    split: option.splits if_splits)

end
