(* ===== verification/Requests.thy ===== *)
theory Requests
  imports Chains
begin

text \<open>
  What the guard decides about a request, as a function of the policy and the cache alone, and
  the proof that the pipelines do just that.

  A \<open>decision\<close> says which layer answers, with which action and on the strength of which rule.
  \<open>exec_decision\<close>, \<open>file_open_decision\<close>, \<open>file_permission_decision\<close> and
  \<open>socket_connect_decision\<close> compute it without buffers, clocks or tail calls.  The locale
  \<open>layered_hook\<close> composes what the three programs of a hook do into \<open>answered\<close>: the
  return value, the one metric that is counted, the event that is logged and the entries that
  are cached all follow the decision.  The four hooks are interpretations of it.
\<close>

section \<open>Decisions\<close>

record decision =
  d_layer :: u32
  d_action :: u32
  d_flags :: u32
  d_rule_id :: u32
  d_reason :: u32
  d_event :: bool

definition hit_decision :: "mcp_cache_value \<Rightarrow> decision" where
  "hit_decision v =
     \<lparr>d_layer = MCP_GUARD_LAYER_L1, d_action = cv_action v, d_flags = cv_flags v,
      d_rule_id = cv_rule_id v, d_reason = MCP_GUARD_REASON_L1_CACHE,
      d_event = (cv_action v \<noteq> MCP_GUARD_ACTION_ALLOW)\<rparr>"

definition safe_decision :: "u32 \<Rightarrow> u32 \<Rightarrow> decision" where
  "safe_decision action flags =
     \<lparr>d_layer = MCP_GUARD_LAYER_L2, d_action = action, d_flags = flags, d_rule_id = 0,
      d_reason = MCP_GUARD_REASON_L2_SAFE, d_event = (action \<noteq> MCP_GUARD_ACTION_ALLOW)\<rparr>"

definition policy_decision :: "(u32 \<times> u32 \<times> buffer) option \<Rightarrow> bpf_state \<Rightarrow> decision" where
  "policy_decision rule s =
     (let (action, rule_id) =
            (case rule of
               None \<Rightarrow> (mcp_policy_default_action s, 0)
             | Some (rule_id, action, name) \<Rightarrow> (rule_verdict action, rule_id))
      in \<lparr>d_layer = MCP_GUARD_LAYER_L3, d_action = action, d_flags = 0, d_rule_id = rule_id,
          d_reason = (if rule_id \<noteq> 0 then MCP_GUARD_REASON_POLICY else MCP_GUARD_REASON_DEFAULT),
          d_event = (action \<noteq> MCP_GUARD_ACTION_ALLOW)\<rparr>)"

text \<open>The names the programs read: what fits the 256-byte buffer, or nothing.\<close>

definition exec_name :: "linux_binprm \<Rightarrow> string" where
  "exec_name bprm =
     (case bprm_filename bprm of None \<Rightarrow> [] | Some p \<Rightarrow> take (MCP_GUARD_PATH_LEN - 1) (cstr p))"

definition file_name :: "kfile option \<Rightarrow> string" where
  "file_name f =
     (case f of
        None \<Rightarrow> []
      | Some f \<Rightarrow> if length (cstr (f_path f)) < MCP_GUARD_PATH_LEN then cstr (f_path f) else [])"

text \<open>The rule a name selects in the path trie and in the command trie.\<close>

definition path_rule :: "helpers \<Rightarrow> u32 \<Rightarrow> string \<Rightarrow> bpf_state \<Rightarrow> (u32 \<times> u32 \<times> buffer) option" where
  "path_rule h hook_id name s = path_found h hook_id (Some (padded MCP_GUARD_PATH_LEN name)) s"

definition command_rule ::
  "helpers \<Rightarrow> u32 \<Rightarrow> string \<Rightarrow> bpf_state \<Rightarrow> (u32 \<times> u32 \<times> buffer) option" where
  "command_rule h hook_id name s =
     command_found h hook_id (Some (padded MCP_GUARD_PATH_LEN name)) s"

definition exec_resource :: "linux_binprm \<Rightarrow> u64" where
  "exec_resource bprm = mcp_bprm_resource_id bprm (Some (padded MCP_GUARD_PATH_LEN (exec_name bprm)))"

definition hook_hit :: "task \<Rightarrow> u32 \<Rightarrow> u64 \<Rightarrow> bpf_state \<Rightarrow> decision option" where
  "hook_hit tk hook_id resource_id s =
     map_option hit_decision (l1_hit tk (mcp_fill_cache_key tk hook_id resource_id) s)"

definition file_safe :: "kfile option \<Rightarrow> u32 \<Rightarrow> bpf_state \<Rightarrow> decision option" where
  "file_safe f hook_id s =
     (let (action, flags) = mcp_l2_file_decide s f hook_id 0
      in if action = MCP_GUARD_ACTION_UNSET then None else Some (safe_decision action flags))"

definition first_of :: "'a option \<Rightarrow> 'a option \<Rightarrow> 'a \<Rightarrow> 'a" where
  "first_of a b c = (case a of Some x \<Rightarrow> x | None \<Rightarrow> (case b of Some x \<Rightarrow> x | None \<Rightarrow> c))"

definition exec_decision :: "helpers \<Rightarrow> task \<Rightarrow> linux_binprm \<Rightarrow> bpf_state \<Rightarrow> decision" where
  "exec_decision h tk bprm s =
     first_of (hook_hit tk MCP_GUARD_HOOK_EXEC (exec_resource bprm) s)
       (if exec_name bprm = [] then Some (safe_decision MCP_GUARD_ACTION_DENY 0) else None)
       (policy_decision (command_rule h MCP_GUARD_HOOK_EXEC (exec_name bprm) s) s)"

definition file_open_decision :: "helpers \<Rightarrow> task \<Rightarrow> kfile option \<Rightarrow> bpf_state \<Rightarrow> decision" where
  "file_open_decision h tk f s =
     first_of (hook_hit tk MCP_GUARD_HOOK_FILE_OPEN (mcp_file_resource_id f) s)
       (file_safe f MCP_GUARD_HOOK_FILE_OPEN s)
       (policy_decision (path_rule h MCP_GUARD_HOOK_FILE_OPEN (file_name f) s) s)"

definition file_permission_decision :: "task \<Rightarrow> kfile option \<times> u32 \<Rightarrow> bpf_state \<Rightarrow> decision" where
  "file_permission_decision tk ctx s =
     (let f = fst ctx; hook_id = permission_hook (snd ctx) in
      first_of (hook_hit tk hook_id (mcp_file_resource_id f) s)
        (file_safe f hook_id s)
        (policy_decision (resource_found MCP_GUARD_RULE_PATH_PREFIX hook_id
           (mcp_file_resource_id f) s) s))"

definition socket_hit :: "task \<Rightarrow> sockaddr option \<Rightarrow> bpf_state \<Rightarrow> decision option" where
  "socket_hit tk address s =
     (let (resource_id, family, ipv4_addr, port) = mcp_socket_resource_id address in
      if family = MCP_GUARD_AF_INET
      then hook_hit tk MCP_GUARD_HOOK_SOCKET_CONNECT resource_id s else None)"

definition socket_safe :: "sockaddr option \<Rightarrow> decision option" where
  "socket_safe address =
     (if fst (mcp_l2_socket_decide address 0) = MCP_GUARD_ACTION_UNSET then None
      else Some (safe_decision (fst (mcp_l2_socket_decide address 0)) 0))"

definition socket_policy :: "helpers \<Rightarrow> sockaddr option \<Rightarrow> bpf_state \<Rightarrow> decision" where
  "socket_policy h address s =
     (let (resource_id, family, ipv4_addr, port) = mcp_socket_resource_id address in
      policy_decision (network_found h ipv4_addr port s) s)"

definition socket_connect_decision ::
  "helpers \<Rightarrow> task \<Rightarrow> sockaddr option \<Rightarrow> bpf_state \<Rightarrow> decision" where
  "socket_connect_decision h tk address s =
     first_of (socket_hit tk address s) (socket_safe address) (socket_policy h address s)"

section \<open>Buffers and names\<close>

lemma nul_padded:
  assumes "length (cstr b) < 256"
  shows "cstr (padded 256 (cstr b)) = cstr b" "padded 256 (cstr b) ! 0 = NUL \<longleftrightarrow> cstr b = []"
proof -
  show same: "cstr (padded 256 (cstr b)) = cstr b"
    using assms by (subst cstr_padded) auto
  have "padded 256 (cstr b) \<noteq> []"
    by (metis length_padded list.size(3) zero_neq_numeral)
  from nth_0_nul [OF this] show "padded 256 (cstr b) ! 0 = NUL \<longleftrightarrow> cstr b = []"
    by (simp add: same)
qed

lemma query_cstr:
  assumes "length b = 256"
  shows "path_query cfg (padded 256 (cstr b)) = path_query cfg b"
    "command_query cfg (padded 256 (cstr b)) = command_query cfg b"
proof -
  have "padded 192 (cstr (padded 256 (cstr b))) = padded 192 (cstr b)"
    by (simp add: cstr_padded padded_take)
  then show "path_query cfg (padded 256 (cstr b)) = path_query cfg b"
    "command_query cfg (padded 256 (cstr b)) = command_query cfg b"
    using assms by (simp_all add: path_query_def command_query_def copy_until_nul_zeroed)
qed

lemma found_cstr:
  assumes "length b = 256" and "length (cstr b) < 256"
  shows "path_found h hook_id (Some b) s = path_rule h hook_id (cstr b) s"
    "command_found h hook_id (Some b) s = command_rule h hook_id (cstr b) s"
proof -
  have "b ! 0 = NUL \<longleftrightarrow> cstr b = []" using assms(1) by (intro nth_0_nul) auto
  then show "path_found h hook_id (Some b) s = path_rule h hook_id (cstr b) s"
    "command_found h hook_id (Some b) s = command_rule h hook_id (cstr b) s"
    using assms
    by (simp_all add: path_found_def path_rule_def command_found_def command_rule_def
        nul_padded query_cstr cong: option.case_cong if_cong)
qed

section \<open>What an answer does\<close>

text \<open>One counter of the task's CPU is bumped, with some duration; no other metric moves.\<close>

definition counted :: "task \<Rightarrow> u32 \<Rightarrow> u32 \<Rightarrow> u32 \<Rightarrow> bpf_state \<Rightarrow> bpf_state \<Rightarrow> bool" where
  "counted tk hook_id layer action s s' \<longleftrightarrow>
     (\<exists>duration_ns.
        metrics s' =
          (case metrics s (t_cpu tk) (mcp_metric_index hook_id layer action) of
             None \<Rightarrow> metrics s
           | Some m \<Rightarrow>
               (metrics s)(t_cpu tk := (metrics s (t_cpu tk))
                 (mcp_metric_index hook_id layer action \<mapsto> metric_add duration_ns m))))"

definition event_tells ::
  "task \<Rightarrow> u32 \<Rightarrow> u64 \<Rightarrow> decision \<Rightarrow> bpf_state \<Rightarrow> mcp_event \<Rightarrow> bool" where
  "event_tells tk hook_id resource_id d s e \<longleftrightarrow>
     ev_hook_id e = hook_id \<and> ev_resource_id e = resource_id \<and> ev_pid e = task_pid tk \<and>
     ev_tgid e = task_tgid tk \<and> ev_comm e = t_comm tk \<and> ev_epoch e = mcp_current_epoch s \<and>
     ev_action e = d_action d \<and> ev_layer e = d_layer d \<and> ev_reason e = d_reason d \<and>
     ev_rule_id e = d_rule_id d \<and> ev_error e = block_error (d_action d) s \<and>
     length (ev_path e) = MCP_GUARD_PATH_LEN \<and>
     length (ev_rule_name e) = MCP_GUARD_RULE_NAME_LEN"

text \<open>One event is logged when the decision asks for it and the ring buffer has room.\<close>

definition logged ::
  "helpers \<Rightarrow> task \<Rightarrow> u32 \<Rightarrow> u64 \<Rightarrow> decision \<Rightarrow> bpf_state \<Rightarrow> bpf_state \<Rightarrow> bool" where
  "logged h tk hook_id resource_id d s s' \<longleftrightarrow>
     (if d_event d \<and> h_ringbuf_reserve h (events s)
      then \<exists>e. events s' = events s @ [e] \<and> event_tells tk hook_id resource_id d s e
      else events s' = events s)"

definition answered ::
  "helpers \<Rightarrow> task \<Rightarrow> u32 \<Rightarrow> u64 \<Rightarrow> decision \<Rightarrow> bpf_state \<Rightarrow> bpf_state \<Rightarrow> bpf_state \<Rightarrow> bool" where
  "answered h tk hook_id resource_id d store s s' \<longleftrightarrow>
     counted tk hook_id (d_layer d) (d_action d) s s' \<and>
     logged h tk hook_id resource_id d s s' \<and> l1_cache s' = l1_cache store"

text \<open>A state in which nothing but clock, tail state and scratch buffers has changed.\<close>

definition quiet :: "bpf_state \<Rightarrow> bpf_state \<Rightarrow> bool" where
  "quiet s s' \<longleftrightarrow>
     policy_view s' = policy_view s \<and> l1_cache s' = l1_cache s \<and> events s' = events s \<and>
     metrics s' = metrics s"

lemma quiet_trans: "quiet s s1 \<Longrightarrow> quiet s1 s2 \<Longrightarrow> quiet s s2"
  by (simp add: quiet_def)

lemma quiet_config:
  assumes "quiet s s'"
  shows "mcp_current_epoch s' = mcp_current_epoch s"
    "mcp_policy_default_action s' = mcp_policy_default_action s"
    "mcp_policy_has_rules s' = mcp_policy_has_rules s"
    "mcp_l2_policy_flags s' = mcp_l2_policy_flags s"
    "mcp_action_ret a s' = mcp_action_ret a s" "block_error a s' = block_error a s"
  using assms view_config [of s' s] by (simp_all add: quiet_def)

lemma found_view:
  assumes "policy_view s' = policy_view s"
  shows "path_found h hook p s' = path_found h hook p s"
    "command_found h hook p s' = command_found h hook p s"
    "resource_found t hook rid s' = resource_found t hook rid s"
    "network_found h ip port s' = network_found h ip port s"
  using view_fields [OF assms] view_config [OF assms]
  by (simp_all add: path_found_def command_found_def resource_found_def network_found_def
      rules_config_def cong: option.case_cong if_cong)

lemmas found_frames [simp] =
  found_view [OF view_get_tail_start] found_view [OF view_put_scratch]

lemma quiet_decisions:
  assumes "quiet s s'"
  shows "policy_decision rule s' = policy_decision rule s"
    "path_rule h hook name s' = path_rule h hook name s"
    "command_rule h hook name s' = command_rule h hook name s"
    "resource_found t hook rid s' = resource_found t hook rid s"
    "network_found h ip port s' = network_found h ip port s"
    "file_safe f hook s' = file_safe f hook s"
  using assms quiet_config [OF assms] found_view [of s' s] view_deciders [of s' s]
  by (simp_all add: policy_decision_def path_rule_def command_rule_def file_safe_def quiet_def
      split: option.split)

lemma answered_quiet:
  assumes "quiet s s1"
  shows "answered h tk hook rid d store s1 s' = answered h tk hook rid d store s s'"
  using assms quiet_config [OF assms]
  by (simp add: answered_def counted_def logged_def event_tells_def quiet_def
      cong: option.case_cong)

text \<open>Stores on states that agree on cache and epoch give the same cache.\<close>

lemma store_cong:
  assumes "l1_cache s = l1_cache s'" and "mcp_current_epoch s = mcp_current_epoch s'"
  shows "l1_cache (mcp_l1_store h tk k a f r re s) = l1_cache (mcp_l1_store h tk k a f r re s')"
  using assms by (simp add: l1_cache_store stored_value_def)

lemma followups_cong:
  assumes "l1_cache s = l1_cache s'" and "mcp_current_epoch s = mcp_current_epoch s'"
    and "mcp_l2_policy_flags s = mcp_l2_policy_flags s'"
  shows "l1_cache (mcp_cache_file_followups h tk rid a r re s) =
    l1_cache (mcp_cache_file_followups h tk rid a r re s')"
  using assms by (simp add: mcp_cache_file_followups_def l1_cache_store stored_value_def Let_def)

text \<open>The three effects of an answer, as the programs bring them about.\<close>

lemma counted_record [simp]:
  assumes "metrics s1 = metrics s"
  shows "counted tk hook_id layer action s (mcp_record_metric h tk hook_id action layer st s1)"
  unfolding counted_def
proof
  show "metrics (mcp_record_metric h tk hook_id action layer st s1) =
    (case metrics s (t_cpu tk) (mcp_metric_index hook_id layer action) of
       None \<Rightarrow> metrics s
     | Some m \<Rightarrow>
         (metrics s)(t_cpu tk := (metrics s (t_cpu tk))
           (mcp_metric_index hook_id layer action \<mapsto>
              metric_add (fst (ktime_get_ns h s1) - st) m)))"
    using assms
    by (simp add: mcp_record_metric_def ktime_get_ns_def Let_def split: option.split)
qed

lemma logged_record [simp]:
  "logged h tk hook_id rid d s (mcp_record_metric h' tk' hook_id' a l st s1) =
     logged h tk hook_id rid d s s1"
  by (simp add: logged_def)

lemma logged_quiet: "\<not> d_event d \<Longrightarrow> events s1 = events s \<Longrightarrow> logged h tk hook_id rid d s s1"
  by (simp add: logged_def)

lemma logged_emit:
  assumes "d_event d" and "events s1 = events s" and "policy_view s1 = policy_view s"
    and "a = d_action d" and "l = d_layer d" and "re = d_reason d" and "r = d_rule_id d"
    and "e = block_error (d_action d) s"
  shows "logged h tk hook_id rid d s
    (mcp_emit_event h tk hook_id a l re r rid st p n fam ip port e s1)"
  using assms view_config(1) [OF assms(3)]
  by (simp add: logged_def event_tells_def mcp_emit_event_def ktime_get_ns_def case_prod_beta Let_def
      mcp_current_epoch_def mcp_copy_path_def mcp_copy_event_rule_name_def split: option.split)

section \<open>Three layers\<close>

locale layered_hook = guard_chain h tk 0 prog arr
  for h :: helpers and tk :: task
    and prog :: "tail_prog \<Rightarrow> bpf_state \<Rightarrow> outcome \<times> bpf_state"
    and arr :: "bpf_state \<Rightarrow> u32 \<rightharpoonup> tail_prog" +
  fixes hook_id :: u32 and resource_id :: u64 and ready :: "bpf_state \<Rightarrow> bool"
    and hit safe :: "bpf_state \<Rightarrow> decision option" and policy :: "bpf_state \<Rightarrow> decision"
    and store :: "decision \<Rightarrow> bpf_state \<Rightarrow> bpf_state"
  assumes l1_hit: "ready s \<Longrightarrow> hit s = Some d \<Longrightarrow>
      fst (prog Prog_L1 s) = Ret (mcp_action_ret (d_action d) s) \<and>
      answered h tk hook_id resource_id d s s (snd (prog Prog_L1 s))"
    and l1_miss: "ready s \<Longrightarrow> hit s = None \<Longrightarrow>
      fst (prog Prog_L1 s) = Tail_call MCP_GUARD_TAIL_L2 \<and>
      quiet s (snd (prog Prog_L1 s)) \<and> ready (snd (prog Prog_L1 s))"
    and l2_safe: "ready s \<Longrightarrow> safe s = Some d \<Longrightarrow>
      fst (prog Prog_L2 s) = Ret (mcp_action_ret (d_action d) s) \<and>
      answered h tk hook_id resource_id d (store d s) s (snd (prog Prog_L2 s))"
    and l2_pass: "ready s \<Longrightarrow> safe s = None \<Longrightarrow>
      fst (prog Prog_L2 s) = Tail_call MCP_GUARD_TAIL_L3 \<and>
      quiet s (snd (prog Prog_L2 s)) \<and> ready (snd (prog Prog_L2 s))"
    and l3_policy: "ready s \<Longrightarrow> safe s = None \<Longrightarrow>
      fst (prog Prog_L3 s) = Ret (mcp_action_ret (d_action (policy s)) s) \<and>
      answered h tk hook_id resource_id (policy s) (store (policy s) s) s (snd (prog Prog_L3 s))"
    and safe_quiet: "quiet s s' \<Longrightarrow> safe s' = safe s"
    and policy_quiet: "quiet s s' \<Longrightarrow> policy s' = policy s"
    and store_quiet: "quiet s s' \<Longrightarrow> l1_cache (store d s') = l1_cache (store d s)"

context layered_hook
begin

definition decide :: "bpf_state \<Rightarrow> decision" where
  "decide s = first_of (hit s) (safe s) (policy s)"

lemma pair: "fst p = a \<Longrightarrow> p = (a, snd p)"
  by (cases p) simp

lemma store_answered:
  assumes "quiet s s1" and "answered h tk hook_id resource_id d (store d s1) s1 s'"
  shows "answered h tk hook_id resource_id d (store d s) s s'"
  using assms(2) store_quiet [OF assms(1), of d] unfolding answered_quiet [OF assms(1)]
  by (simp add: answered_def)

theorem request_hit:
  assumes "ready s" and "hit s = Some d"
  shows "fst (run_pipeline prog arr MAX_TAIL_CALL_CNT Prog_L1 s) = mcp_action_ret (d_action d) s \<and>
    answered h tk hook_id resource_id d s s
      (snd (run_pipeline prog arr MAX_TAIL_CALL_CNT Prog_L1 s))"
  using l1_hit [OF assms] chain_hit [OF pair, of s] by simp

theorem request_miss:
  assumes ready: "ready s" and miss: "hit s = None"
    and arr: "arr s MCP_GUARD_TAIL_L2 = Some Prog_L2" "arr s MCP_GUARD_TAIL_L3 = Some Prog_L3"
  shows "fst (run_pipeline prog arr MAX_TAIL_CALL_CNT Prog_L1 s) =
      mcp_action_ret (d_action (decide s)) s \<and>
    answered h tk hook_id resource_id (decide s) (store (decide s) s) s
      (snd (run_pipeline prog arr MAX_TAIL_CALL_CNT Prog_L1 s))"
proof -
  let ?s1 = "snd (prog Prog_L1 s)" and ?s2 = "snd (prog Prog_L2 (snd (prog Prog_L1 s)))"
  from l1_miss [OF ready miss] have l1: "prog Prog_L1 s = (Tail_call MCP_GUARD_TAIL_L2, ?s1)"
    and q1: "quiet s ?s1" and r1: "ready ?s1"
    by (simp_all add: prod_eq_iff)
  show ?thesis
  proof (cases "safe s")
    case (Some d)
    then have d: "safe ?s1 = Some d" "decide s = d"
      using safe_quiet [OF q1] miss by (simp_all add: decide_def first_of_def)
    note l2 = l2_safe [OF r1 d(1)]
    then have "run_pipeline prog arr MAX_TAIL_CALL_CNT Prog_L1 s =
        (mcp_action_ret (d_action d) ?s1, snd (prog Prog_L2 ?s1))"
      by (intro chain_l2 [OF l1 arr(1)] pair) simp
    then show ?thesis
      using l2 d(2) store_answered [OF q1] quiet_config(5) [OF q1] by simp
  next
    case None
    then have n: "safe ?s1 = None" "decide s = policy s"
      using safe_quiet [OF q1] miss by (simp_all add: decide_def first_of_def)
    from l2_pass [OF r1 n(1)] have l2: "prog Prog_L2 ?s1 = (Tail_call MCP_GUARD_TAIL_L3, ?s2)"
      and q2: "quiet ?s1 ?s2" and r2: "ready ?s2"
      by (simp_all add: prod_eq_iff)
    note q = quiet_trans [OF q1 q2]
    have p: "policy ?s2 = policy s" "safe ?s2 = None"
      using policy_quiet [OF q] safe_quiet [OF q] None by simp_all
    note l3 = l3_policy [OF r2 p(2)]
    then have "run_pipeline prog arr MAX_TAIL_CALL_CNT Prog_L1 s =
        (mcp_action_ret (d_action (policy ?s2)) ?s2, snd (prog Prog_L3 ?s2))"
      by (intro chain_l3 [OF l1 arr(1) l2 arr(2)] pair) simp
    then show ?thesis
      using l3 n(2) p(1) store_answered [OF q] quiet_config(5) [OF q] by simp
  qed
qed

end

section \<open>The hooks\<close>

definition file_store :: "helpers \<Rightarrow> task \<Rightarrow> kfile option \<Rightarrow> decision \<Rightarrow> bpf_state \<Rightarrow> bpf_state" where
  "file_store h tk f d s =
     mcp_cache_file_followups h tk (mcp_file_resource_id f) (d_action d) (d_rule_id d) (d_reason d)
       (mcp_l1_store h tk
          (mcp_fill_cache_key tk MCP_GUARD_HOOK_FILE_OPEN (mcp_file_resource_id f))
          (d_action d) (d_flags d) (d_rule_id d) (d_reason d) s)"

definition examined :: "helpers \<Rightarrow> task \<Rightarrow> bpf_state \<Rightarrow> bool" where
  "examined h tk s \<longleftrightarrow> strings_law h \<and> scratch_ready tk s \<and> mcp_scope_matches tk s"

lemma read_file_path_name:
  assumes "strings_law h" and "length b = 256"
  shows "length (snd (mcp_read_file_path h f b)) = 256"
    "cstr (snd (mcp_read_file_path h f b)) = file_name f"
  using read_file_path [OF assms] by (simp_all add: file_name_def)

lemma file_name_short: "length (file_name f) < 256"
  by (simp add: file_name_def split: option.split)

lemma file_open_path:
  assumes "strings_law h" and "length b = 256"
  shows "mcp_l3_string_decide h 1 hook_id (snd (mcp_read_file_path h f b)) rid name s =
    (case path_rule h hook_id (file_name f) s of
       None \<Rightarrow> (mcp_policy_default_action s, 0, name)
     | Some (rule_id, action, nm) \<Rightarrow>
         (rule_verdict action, rule_id, copy_until_nul MCP_GUARD_RULE_NAME_LEN name nm))"
  using read_file_path_name [OF assms] file_name_short
  by (simp add: string_decide_path path_decider.decide_found found_cstr)

lemma policy_decision_simps [simp]:
  "d_layer (policy_decision rule s) = MCP_GUARD_LAYER_L3"
  "d_flags (policy_decision rule s) = 0"
  "d_action (policy_decision rule s) =
     (case rule of None \<Rightarrow> mcp_policy_default_action s | Some (rule_id, a, nm) \<Rightarrow> rule_verdict a)"
  "d_rule_id (policy_decision rule s) = (case rule of None \<Rightarrow> 0 | Some (rule_id, a, nm) \<Rightarrow> rule_id)"
  "d_reason (policy_decision rule s) =
     (if d_rule_id (policy_decision rule s) \<noteq> 0 then MCP_GUARD_REASON_POLICY
      else MCP_GUARD_REASON_DEFAULT)"
  "d_event (policy_decision rule s) \<longleftrightarrow> d_action (policy_decision rule s) \<noteq> MCP_GUARD_ACTION_ALLOW"
  by (simp_all add: policy_decision_def Let_def case_prod_beta split: option.split)

lemma hit_decision_simps [simp]:
  "d_layer (hit_decision v) = MCP_GUARD_LAYER_L1" "d_action (hit_decision v) = cv_action v"
  "d_rule_id (hit_decision v) = cv_rule_id v" "d_reason (hit_decision v) = MCP_GUARD_REASON_L1_CACHE"
  "d_event (hit_decision v) \<longleftrightarrow> cv_action v \<noteq> MCP_GUARD_ACTION_ALLOW"
  by (simp_all add: hit_decision_def)

lemma safe_decision_simps [simp]:
  "d_layer (safe_decision a f) = MCP_GUARD_LAYER_L2" "d_action (safe_decision a f) = a"
  "d_rule_id (safe_decision a f) = 0" "d_reason (safe_decision a f) = MCP_GUARD_REASON_L2_SAFE"
  "d_flags (safe_decision a f) = f"
  "d_event (safe_decision a f) \<longleftrightarrow> a \<noteq> MCP_GUARD_ACTION_ALLOW"
  by (simp_all add: safe_decision_def)

lemma no_rules_found:
  assumes "\<not> mcp_policy_has_rules s"
  shows "path_rule h hook_id name s = None" "command_rule h hook_id name s = None"
    "resource_found t hook_id rid s = None" "network_found h ip port s = None"
  using assms
  by (simp_all add: has_rules_config path_rule_def path_found_def command_rule_def
      command_found_def resource_found_def network_found_def)

lemma file_safe_cases:
  "file_safe f hook s = None \<Longrightarrow> fst (mcp_l2_file_decide s f hook 0) = MCP_GUARD_ACTION_UNSET"
  "file_safe f hook s = Some d \<Longrightarrow>
     \<exists>fl. mcp_l2_file_decide s f hook 0 = (MCP_GUARD_ACTION_ALLOW, fl) \<and>
       d = safe_decision MCP_GUARD_ACTION_ALLOW fl"
  using l2_file_decide_cases [of s f hook 0]
  by (auto simp: file_safe_def Let_def case_prod_beta prod_eq_iff split: if_splits)

lemma quiet_intro [intro]:
  "policy_view s' = policy_view s \<Longrightarrow> l1_cache s' = l1_cache s \<Longrightarrow> events s' = events s \<Longrightarrow>
   metrics s' = metrics s \<Longrightarrow> quiet s s'"
  by (simp add: quiet_def)

lemma store_view_cong:
  assumes "quiet s s'"
  shows "l1_cache (mcp_l1_store h tk k a f r re s') = l1_cache (mcp_l1_store h tk k a f r re s)"
    "l1_cache (file_store h tk fl d s') = l1_cache (file_store h tk fl d s)"
  using assms quiet_config [OF assms] unfolding file_store_def
  by (intro followups_cong store_cong; simp add: quiet_def)+

lemma examined_scratch:
  "examined h tk s \<Longrightarrow> \<exists>sc. mcp_get_scratch tk s = Some sc \<and> length (sc_path sc) = 256 \<and>
     length (sc_rule_name sc) = 64"
  by (auto simp: examined_def scratch_ready_def split: option.splits)

lemma examined_frames [simp]:
  "examined h tk (snd (ktime_get_ns h' s)) = examined h tk s"
  "examined h tk (mcp_set_tail_start tk' st s) = examined h tk s"
  "examined h tk (snd (mcp_get_tail_start h' tk' s)) = examined h tk s"
  by (simp_all add: examined_def scratch_ready_def)

interpretation fopen_layers: layered_hook h tk "file_open_prog h tk f 0" file_open_pipeline
  MCP_GUARD_HOOK_FILE_OPEN "mcp_file_resource_id f" "examined h tk"
  "hook_hit tk MCP_GUARD_HOOK_FILE_OPEN (mcp_file_resource_id f)"
  "file_safe f MCP_GUARD_HOOK_FILE_OPEN"
  "\<lambda>s. policy_decision (path_rule h MCP_GUARD_HOOK_FILE_OPEN (file_name f) s) s"
  "file_store h tk f"
  for h tk f
proof (intro layered_hook.intro layered_hook_axioms.intro fopen_chain.guard_chain_axioms, goal_cases)
  case (1 s d)
  then show ?case
    by (auto simp: hook_hit_def file_open_prog_def program_defs Let_def case_prod_beta
        l1_lookup_hit examined_def answered_def valid_not_unset [OF l1_hit_valid]
        logged_emit logged_quiet)
next
  case (2 s)
  then show ?case
    by (auto simp: hook_hit_def file_open_prog_def program_defs Let_def case_prod_beta
        l1_lookup_hit examined_def scratch_ready_def split: option.splits)
next
  case (3 s d)
  with file_safe_cases(2) [OF this(2)] show ?case
    by (auto simp: file_open_prog_def program_defs Let_def case_prod_beta answered_def file_store_def
        logged_quiet intro!: followups_cong store_cong)
next
  case (4 s)
  with file_safe_cases(1) [OF this(2)] show ?case
    by (auto simp: file_open_prog_def program_defs Let_def case_prod_beta)
next
  case (5 s)
  then obtain sc where sc: "mcp_get_scratch tk s = Some sc" "length (sc_path sc) = 256"
    using examined_scratch by blast
  note path = file_open_path [OF _ sc(2)]
  show ?case
  proof (cases "\<not> mcp_policy_has_rules s \<and> mcp_policy_default_action s = 0")
    case True
    then show ?thesis
      by (auto simp: file_open_prog_def program_defs Let_def case_prod_beta answered_def
          file_store_def no_rules_found intro!: logged_quiet followups_cong store_cong)
  next
    case False
    then show ?thesis
      using 5 sc path
      by (auto simp: file_open_prog_def program_defs Let_def case_prod_beta answered_def
          file_store_def examined_def logged_quiet logged_emit
          intro!: followups_cong store_cong split: option.split)
  qed
next
  case (6 s s')
  then show ?case by (rule quiet_decisions)
next
  case (7 s s')
  then show ?case by (simp add: quiet_decisions)
next
  case (8 s s' d)
  then show ?case by (rule store_view_cong)
qed

definition permission_store ::
  "helpers \<Rightarrow> task \<Rightarrow> kfile option \<times> u32 \<Rightarrow> decision \<Rightarrow> bpf_state \<Rightarrow> bpf_state" where
  "permission_store h tk ctx d s =
     mcp_l1_store h tk
       (mcp_fill_cache_key tk (permission_hook (snd ctx)) (mcp_file_resource_id (fst ctx)))
       (d_action d) (d_flags d) (d_rule_id d) (d_reason d) s"

interpretation fperm_layers: layered_hook h tk "file_permission_prog h tk ctx 0"
  file_permission_pipeline "permission_hook (snd ctx)" "mcp_file_resource_id (fst ctx)"
  "examined h tk"
  "hook_hit tk (permission_hook (snd ctx)) (mcp_file_resource_id (fst ctx))"
  "file_safe (fst ctx) (permission_hook (snd ctx))"
  "\<lambda>s. policy_decision (resource_found MCP_GUARD_RULE_PATH_PREFIX (permission_hook (snd ctx))
     (mcp_file_resource_id (fst ctx)) s) s"
  "permission_store h tk ctx"
  for h tk ctx
proof (intro layered_hook.intro layered_hook_axioms.intro fperm_chain.guard_chain_axioms, goal_cases)
  case (1 s d)
  then show ?case
    by (auto simp: hook_hit_def file_permission_prog_def program_defs Let_def case_prod_beta
        l1_lookup_hit examined_def answered_def valid_not_unset [OF l1_hit_valid]
        logged_emit logged_quiet)
next
  case (2 s)
  then show ?case
    by (auto simp: hook_hit_def file_permission_prog_def program_defs Let_def case_prod_beta
        l1_lookup_hit examined_def scratch_ready_def split: option.splits)
next
  case (3 s d)
  with file_safe_cases(2) [OF this(2)] show ?case
    by (auto simp: file_permission_prog_def program_defs Let_def case_prod_beta answered_def
        permission_store_def logged_quiet intro!: store_cong)
next
  case (4 s)
  with file_safe_cases(1) [OF this(2)] show ?case
    by (auto simp: file_permission_prog_def program_defs Let_def case_prod_beta)
next
  case (5 s)
  then obtain sc where sc: "mcp_get_scratch tk s = Some sc"
    using examined_scratch by blast
  show ?case
  proof (cases "\<not> mcp_policy_has_rules s \<and> mcp_policy_default_action s = 0")
    case True
    then show ?thesis
      by (auto simp: file_permission_prog_def program_defs Let_def case_prod_beta answered_def
          permission_store_def no_rules_found intro!: logged_quiet store_cong)
  next
    case False
    then show ?thesis
      using sc
      by (auto simp: file_permission_prog_def program_defs Let_def case_prod_beta answered_def
          permission_store_def logged_quiet logged_emit resource_decider.decide_found
          intro!: store_cong split: option.split)
  qed
next
  case (6 s s')
  then show ?case by (rule quiet_decisions)
next
  case (7 s s')
  then show ?case by (simp add: quiet_decisions)
next
  case (8 s s' d)
  then show ?case unfolding permission_store_def by (rule store_view_cong)
qed

definition socket_store ::
  "helpers \<Rightarrow> task \<Rightarrow> sockaddr option \<Rightarrow> decision \<Rightarrow> bpf_state \<Rightarrow> bpf_state" where
  "socket_store h tk address d s =
     (if d_layer d = MCP_GUARD_LAYER_L2 \<or>
         \<not> mcp_policy_has_rules s \<and> mcp_policy_default_action s = MCP_GUARD_ACTION_ALLOW then s
      else mcp_l1_store h tk
             (mcp_fill_cache_key tk MCP_GUARD_HOOK_SOCKET_CONNECT
                (fst (mcp_socket_resource_id address)))
             (d_action d) (d_flags d) (d_rule_id d) (d_reason d) s)"

interpretation sconn_layers: layered_hook h tk "socket_connect_prog h tk address 0"
  socket_connect_pipeline MCP_GUARD_HOOK_SOCKET_CONNECT "fst (mcp_socket_resource_id address)"
  "examined h tk" "socket_hit tk address" "\<lambda>s. socket_safe address" "socket_policy h address"
  "socket_store h tk address"
  for h tk address
proof (intro layered_hook.intro layered_hook_axioms.intro sconn_chain.guard_chain_axioms, goal_cases)
  case (1 s d)
  then show ?case
    by (auto simp: socket_hit_def hook_hit_def socket_connect_prog_def program_defs Let_def
        case_prod_beta l1_lookup_hit examined_def answered_def valid_not_unset [OF l1_hit_valid]
        logged_emit logged_quiet split: if_splits)
next
  case (2 s)
  then show ?case
    by (auto simp: socket_hit_def hook_hit_def socket_connect_prog_def program_defs Let_def
        case_prod_beta l1_lookup_hit examined_def scratch_ready_def split: option.splits if_splits)
next
  case (3 s d)
  then show ?case
    by (auto simp: socket_safe_def socket_connect_prog_def program_defs Let_def case_prod_beta
        answered_def socket_store_def logged_quiet l2_socket_decide_action
        split: if_splits option.splits)
next
  case (4 s)
  then show ?case
    by (auto simp: socket_safe_def socket_connect_prog_def program_defs Let_def case_prod_beta
        split: if_splits)
next
  case (5 s)
  then obtain sc where sc: "mcp_get_scratch tk s = Some sc"
    using examined_scratch by blast
  show ?case
  proof (cases "\<not> mcp_policy_has_rules s \<and> mcp_policy_default_action s = 0")
    case True
    then show ?thesis
      by (auto simp: socket_connect_prog_def program_defs Let_def case_prod_beta answered_def
          socket_store_def socket_policy_def no_rules_found intro!: logged_quiet)
  next
    case False
    then show ?thesis
      using sc
      by (auto simp: socket_connect_prog_def program_defs Let_def case_prod_beta answered_def
          socket_store_def socket_policy_def logged_quiet logged_emit
          network_decider.decide_found intro!: store_cong split: option.split)
  qed
next
  case (6 s s')
  show ?case by (rule refl)
next
  case (7 s s')
  then show ?case by (simp add: socket_policy_def case_prod_beta quiet_decisions)
next
  case (8 s s' d)
  then show ?case using quiet_config [OF 8] store_view_cong [OF 8]
    by (simp add: socket_store_def quiet_def)
qed

definition exec_store ::
  "helpers \<Rightarrow> task \<Rightarrow> linux_binprm \<Rightarrow> decision \<Rightarrow> bpf_state \<Rightarrow> bpf_state" where
  "exec_store h tk bprm d s =
     mcp_l1_store h tk
       (mcp_fill_cache_key tk MCP_GUARD_HOOK_EXEC
          (if d_layer d = MCP_GUARD_LAYER_L3 \<and> \<not> mcp_policy_has_rules s \<and>
              mcp_policy_default_action s = MCP_GUARD_ACTION_ALLOW
           then mcp_bprm_resource_id bprm None else exec_resource bprm))
       (d_action d) (d_flags d) (d_rule_id d) (d_reason d) s"

lemma exec_name_short: "length (exec_name bprm) < 256"
  by (simp add: exec_name_def min_def split: option.split)

lemma exec_name_nul: "cstr (exec_name bprm) = exec_name bprm"
  by (auto simp: exec_name_def cstr_take split: option.split)

lemma read_bprm_name:
  assumes "strings_law h" and "length b = 256"
  shows "length (mcp_read_bprm_filename h bprm b) = 256"
    "cstr (mcp_read_bprm_filename h bprm b) = exec_name bprm"
  using read_bprm_filename [OF assms] by (simp_all add: exec_name_def)

lemma bprm_resource:
  assumes "cstr b = exec_name bprm"
  shows "mcp_bprm_resource_id bprm (Some b) = exec_resource bprm"
proof -
  have "cstr (padded 256 (exec_name bprm)) = exec_name bprm"
    using nul_padded(1) [of b] exec_name_short [of bprm] assms by simp
  with assms have "mcp_fnv1a_hash b n = mcp_fnv1a_hash (padded 256 (exec_name bprm)) n" for n
    by (intro fnv1a_hash_cong) simp
  then show ?thesis
    by (simp add: exec_resource_def mcp_bprm_resource_id_def Let_def)
qed

lemma exec_l2:
  assumes "strings_law h" and "length b = 256"
  shows "mcp_l2_exec_decide (Some (mcp_read_bprm_filename h bprm b)) =
    (if exec_name bprm = [] then MCP_GUARD_ACTION_DENY else MCP_GUARD_ACTION_UNSET)"
  using read_bprm_name [OF assms] l2_exec_decide_cstr [of "mcp_read_bprm_filename h bprm b"]
  by (metis list.size(3) zero_neq_numeral)

lemma exec_l3:
  assumes "strings_law h" and "length b = 256"
  shows "mcp_l3_string_decide h 2 hook_id (mcp_read_bprm_filename h bprm b) rid name s =
    (case command_rule h hook_id (exec_name bprm) s of
       None \<Rightarrow> (mcp_policy_default_action s, 0, name)
     | Some (rule_id, action, nm) \<Rightarrow>
         (rule_verdict action, rule_id, copy_until_nul MCP_GUARD_RULE_NAME_LEN name nm))"
  using read_bprm_name [OF assms] exec_name_short
  by (simp add: string_decide_command command_decider.decide_found found_cstr)

lemma examined_put [simp]:
  "length (sc_path sc) = 256 \<Longrightarrow> length (sc_rule_name sc) = 64 \<Longrightarrow>
   examined h tk (put_scratch tk sc s) = (strings_law h \<and> mcp_scope_matches tk s)"
  by (simp add: examined_def scratch_ready_def)

lemma quiet_frames [simp]:
  "quiet s (snd (ktime_get_ns h s1)) = quiet s s1"
  "quiet s (mcp_set_tail_start tk st s1) = quiet s s1"
  "quiet s (snd (mcp_get_tail_start h tk s1)) = quiet s s1"
  "quiet s (put_scratch tk sc s1) = quiet s s1"
  "quiet s s"
  by (simp_all add: quiet_def)

interpretation exec_layers: layered_hook h tk "exec_prog h tk bprm 0" exec_pipeline
  MCP_GUARD_HOOK_EXEC "exec_resource bprm" "examined h tk"
  "hook_hit tk MCP_GUARD_HOOK_EXEC (exec_resource bprm)"
  "\<lambda>s. if exec_name bprm = [] then Some (safe_decision MCP_GUARD_ACTION_DENY 0) else None"
  "\<lambda>s. policy_decision (command_rule h MCP_GUARD_HOOK_EXEC (exec_name bprm) s) s"
  "exec_store h tk bprm"
  for h tk bprm
proof (intro layered_hook.intro layered_hook_axioms.intro exec_chain.guard_chain_axioms, goal_cases)
  case (1 s d)
  then obtain sc where sc: "mcp_get_scratch tk s = Some sc" "length (sc_path sc) = 256"
    using examined_scratch by blast
  from 1 show ?case
    using sc bprm_resource [OF read_bprm_name(2) [OF _ sc(2)]]
    by (auto simp: hook_hit_def exec_prog_def program_defs Let_def case_prod_beta
        l1_lookup_hit examined_def answered_def valid_not_unset [OF l1_hit_valid]
        logged_emit logged_quiet)
next
  case (2 s)
  then obtain sc where sc: "mcp_get_scratch tk s = Some sc" "length (sc_path sc) = 256"
    "length (sc_rule_name sc) = 64"
    using examined_scratch by blast
  from 2 show ?case
    using sc bprm_resource [OF read_bprm_name(2) [OF _ sc(2)]] read_bprm_name(1) [OF _ sc(2)]
    by (auto simp: hook_hit_def exec_prog_def program_defs Let_def case_prod_beta
        l1_lookup_hit examined_def scratch_ready_def split: option.splits)
next
  case (3 s d)
  then obtain sc where sc: "mcp_get_scratch tk s = Some sc" "length (sc_path sc) = 256"
    using examined_scratch by blast
  from 3 show ?case
    using sc bprm_resource [OF read_bprm_name(2) [OF _ sc(2)]] exec_l2 [OF _ sc(2)]
    by (auto simp: exec_prog_def program_defs Let_def case_prod_beta answered_def exec_store_def
        examined_def logged_emit intro!: store_cong split: if_splits)
next
  case (4 s)
  then obtain sc where sc: "mcp_get_scratch tk s = Some sc" "length (sc_path sc) = 256"
    "length (sc_rule_name sc) = 64"
    using examined_scratch by blast
  from 4 show ?case
    using sc read_bprm_name(1) [OF _ sc(2)] exec_l2 [OF _ sc(2)]
    by (auto simp: exec_prog_def program_defs Let_def case_prod_beta examined_def scratch_ready_def
        split: if_splits)
next
  case (5 s)
  then obtain sc where sc: "mcp_get_scratch tk s = Some sc" "length (sc_path sc) = 256"
    using examined_scratch by blast
  show ?case
  proof (cases "\<not> mcp_policy_has_rules s \<and> mcp_policy_default_action s = 0")
    case True
    then show ?thesis
      by (auto simp: exec_prog_def program_defs Let_def case_prod_beta answered_def
          exec_store_def no_rules_found intro!: logged_quiet store_cong)
  next
    case False
    then show ?thesis
      using 5 sc bprm_resource [OF read_bprm_name(2) [OF _ sc(2)]] exec_l3 [OF _ sc(2)]
      by (auto simp: exec_prog_def program_defs Let_def case_prod_beta answered_def
          exec_store_def examined_def logged_quiet logged_emit
          intro!: store_cong split: option.split)
  qed
next
  case (6 s s')
  show ?case by (rule refl)
next
  case (7 s s')
  then show ?case by (simp add: quiet_decisions)
next
  case (8 s s' d)
  then show ?case using quiet_config [OF 8] store_view_cong [OF 8]
    by (simp add: exec_store_def)
qed

end
