(* ===== verification/Boot.thy ===== *)
theory Boot
  imports Requests
begin

text \<open>
  \<^verbatim>\<open>loader/bpf_loader.c\<close>: the maps as the kernel creates them from
  \<^verbatim>\<open>bpf/maps.bpf.h\<close> (array maps hold zeroed values for every index below
  \<^verbatim>\<open>max_entries\<close>, hash maps, tries and program arrays start empty), and the loader's
  filling of the four program arrays.

  libbpf and the kernel are a parameter: the record \<open>bpf_env\<close> holds what its calls return.
\<close>

section \<open>Created maps\<close>

definition zero_config :: mcp_policy_config where
  "zero_config =
     \<lparr>cfg_default_action = 0, cfg_enforce = 0, cfg_audit_allowed = 0, cfg_rule_count = 0,
      cfg_flags = 0, cfg_active_generation = 0, cfg_profile_id = 0, cfg_agent_id = 0,
      cfg_scope_mode = 0, cfg_scope_count = 0,
      cfg_profile_name = zeroed MCP_GUARD_PROFILE_NAME_LEN\<rparr>"

definition zero_rule :: mcp_policy_rule where
  "zero_rule =
     \<lparr>rule_enabled = 0, rule_rule_id = 0, rule_rule_type = 0, rule_action = 0,
      rule_hook_mask = 0, rule_flags = 0, rule_value_len = 0, rule_port = 0,
      rule_ipv4_addr = 0, rule_ipv4_mask = 0, rule_resource_id = 0,
      rule_value = zeroed MCP_GUARD_RULE_VALUE_LEN, rule_name = zeroed MCP_GUARD_RULE_NAME_LEN\<rparr>"

definition zero_metric :: mcp_metric_value where
  "zero_metric =
     \<lparr>mv_count = 0, mv_total_ns = 0, mv_min_ns = 0, mv_max_ns = 0,
      mv_buckets = replicate MCP_GUARD_HIST_BUCKETS 0\<rparr>"

definition zero_scratch :: mcp_scratch where
  "zero_scratch =
     \<lparr>sc_path = zeroed MCP_GUARD_PATH_LEN, sc_rule_name = zeroed MCP_GUARD_RULE_NAME_LEN\<rparr>"

definition array_of :: "nat \<Rightarrow> 'v \<Rightarrow> u32 \<rightharpoonup> 'v" where
  "array_of max_entries zero i = (if unat i < max_entries then Some zero else None)"

definition created_maps :: bpf_state where
  "created_maps =
     \<lparr>l1_cache = (\<lambda>cpu. Map.empty),
      global_epoch = array_of 1 0,
      policy_config = array_of 1 zero_config,
      policy_rules = array_of MCP_GUARD_MAX_RULES zero_rule,
      scope_comm = [], scope_pid = [], scope_tgid = [],
      path_policy_trie = [], command_policy_trie = [], network_policy_trie = [],
      resource_policy_hash = [],
      events = [],
      metrics = (\<lambda>cpu. array_of MCP_GUARD_METRIC_SLOTS zero_metric),
      tail_state = (\<lambda>cpu. array_of 1 \<lparr>ts_start_ns = 0\<rparr>),
      scratch = (\<lambda>cpu. array_of 1 zero_scratch),
      exec_pipeline = Map.empty, file_open_pipeline = Map.empty,
      file_permission_pipeline = Map.empty, socket_connect_pipeline = Map.empty,
      ticks = 0\<rparr>"

section \<open>Filling the program arrays\<close>

datatype pipeline = Exec | File_open | File_permission | Socket_connect

record bpf_env =
  env_calloc :: bool
  env_open_errno :: c_int
  env_load :: c_int
  env_map_fd :: "pipeline \<Rightarrow> c_int"
  env_prog_fd :: "pipeline \<Rightarrow> tail_prog \<Rightarrow> c_int"
  env_update_errno :: "pipeline \<Rightarrow> u32 \<Rightarrow> c_int"

definition set_slot :: "pipeline \<Rightarrow> u32 \<Rightarrow> tail_prog \<Rightarrow> bpf_state \<Rightarrow> bpf_state" where
  "set_slot pl i p s =
     (case pl of
        Exec \<Rightarrow> s\<lparr>exec_pipeline := (exec_pipeline s)(i \<mapsto> p)\<rparr>
      | File_open \<Rightarrow> s\<lparr>file_open_pipeline := (file_open_pipeline s)(i \<mapsto> p)\<rparr>
      | File_permission \<Rightarrow> s\<lparr>file_permission_pipeline := (file_permission_pipeline s)(i \<mapsto> p)\<rparr>
      | Socket_connect \<Rightarrow> s\<lparr>socket_connect_pipeline := (socket_connect_pipeline s)(i \<mapsto> p)\<rparr>)"

text \<open>\<open>env_update_errno\<close> is 0 where the update succeeds, the \<open>errno\<close> it sets elsewhere.\<close>

definition mcp_update_tail_call ::
  "bpf_env \<Rightarrow> pipeline \<Rightarrow> u32 \<Rightarrow> tail_prog \<Rightarrow> bpf_state \<Rightarrow> c_int \<times> bpf_state" where
  "mcp_update_tail_call env pl index prog s =
     (if env_map_fd env pl < 0 \<or> env_prog_fd env pl prog < 0 then (- 22, s)
      else if env_update_errno env pl index \<noteq> 0 then (- env_update_errno env pl index, s)
      else (0, set_slot pl index prog s))"

fun update_tail_calls ::
  "bpf_env \<Rightarrow> (pipeline \<times> u32 \<times> tail_prog) list \<Rightarrow> bpf_state \<Rightarrow> c_int \<times> bpf_state" where
  "update_tail_calls env [] s = (0, s)"
| "update_tail_calls env ((pl, index, prog) # rest) s =
     (let (err, s1) = mcp_update_tail_call env pl index prog s
      in if err \<noteq> 0 then (err, s1) else update_tail_calls env rest s1)"

definition mcp_populate_tail_calls :: "bpf_env \<Rightarrow> bpf_state \<Rightarrow> c_int \<times> bpf_state" where
  "mcp_populate_tail_calls env =
     update_tail_calls env
       [(Exec, MCP_GUARD_TAIL_L2, Prog_L2), (Exec, MCP_GUARD_TAIL_L3, Prog_L3),
        (File_open, MCP_GUARD_TAIL_L2, Prog_L2), (File_open, MCP_GUARD_TAIL_L3, Prog_L3),
        (File_permission, MCP_GUARD_TAIL_L2, Prog_L2),
        (File_permission, MCP_GUARD_TAIL_L3, Prog_L3),
        (Socket_connect, MCP_GUARD_TAIL_L2, Prog_L2),
        (Socket_connect, MCP_GUARD_TAIL_L3, Prog_L3)]"

text \<open>The result is the error, or the maps of the guard that \<open>*out\<close> receives.\<close>

definition mcp_bpf_open_load :: "bpf_env \<Rightarrow> c_int + bpf_state" where
  "mcp_bpf_open_load env =
     (if \<not> env_calloc env then Inl (- 12)
      else if env_open_errno env \<noteq> 0 then Inl (- env_open_errno env)
      else if env_load env \<noteq> 0 then Inl (env_load env)
      else
        let (err, s) = mcp_populate_tail_calls env created_maps
        in if err \<noteq> 0 then Inl err else Inr s)"

section \<open>Facts\<close>

lemma array_of_0 [simp]: "0 < n \<Longrightarrow> array_of n z 0 = Some z"
  by (simp add: array_of_def)

lemma created_scratch: "scratch created_maps cpu 0 = Some zero_scratch"
  by (simp add: created_maps_def)

lemma update_tail_call_ok:
  "mcp_update_tail_call env pl i p s = (0, s') \<Longrightarrow> s' = set_slot pl i p s"
  by (auto simp: mcp_update_tail_call_def split: if_splits)

lemma update_tail_calls_ok:
  "update_tail_calls env calls s = (0, s') \<Longrightarrow>
   s' = fold (\<lambda>(pl, i, p). set_slot pl i p) calls s"
  by (induction env calls s rule: update_tail_calls.induct)
    (auto simp: Let_def case_prod_beta prod_eq_iff dest: update_tail_call_ok
      split: if_splits, metis update_tail_call_ok prod.collapse)

definition loaded_maps :: bpf_state where
  "loaded_maps =
     created_maps
       \<lparr>exec_pipeline := [0 \<mapsto> Prog_L2, 1 \<mapsto> Prog_L3],
        file_open_pipeline := [0 \<mapsto> Prog_L2, 1 \<mapsto> Prog_L3],
        file_permission_pipeline := [0 \<mapsto> Prog_L2, 1 \<mapsto> Prog_L3],
        socket_connect_pipeline := [0 \<mapsto> Prog_L2, 1 \<mapsto> Prog_L3]\<rparr>"

lemma populate_ok:
  assumes "mcp_populate_tail_calls env created_maps = (0, s)"
  shows "s = loaded_maps"
  using update_tail_calls_ok [OF assms [unfolded mcp_populate_tail_calls_def]]
  by (simp add: set_slot_def loaded_maps_def created_maps_def)

lemma open_load_ok: "mcp_bpf_open_load env = Inr s \<Longrightarrow> s = loaded_maps"
  using populate_ok [of env s]
  by (auto simp: mcp_bpf_open_load_def Let_def case_prod_beta prod_eq_iff split: if_splits)

lemma loaded_ready: "pipelines_loaded loaded_maps" "scratch_ready tk loaded_maps"
  by (simp_all add: pipelines_loaded_def scratch_ready_def mcp_get_scratch_def loaded_maps_def
      created_maps_def zero_scratch_def)

lemma loaded_scope: "mcp_scope_matches tk loaded_maps"
  by (simp add: mcp_scope_matches_def mcp_config_def loaded_maps_def created_maps_def
      zero_config_def)

end
