(* ===== verification/Enforcement.thy ===== *)
theory Enforcement
  imports Boot
begin

text \<open>
  What the guard enforces: the properties of the four hooks, read off the contracts
  \<open>guard_program\<close>, \<open>guard_chain\<close> and \<open>layered_hook\<close>.
\<close>

section \<open>Concrete requests\<close>

text \<open>A task, a file and an address to evaluate with.\<close>

definition sample_task :: task where
  "sample_task =
     \<lparr>t_pid_tgid = 0x000004D2000004D3, t_uid_gid = 0, t_comm = ''agent'' @ zeroed 11, t_cpu = 0\<rparr>"

definition sample_file :: "kfile option" where
  "sample_file = Some \<lparr>f_inode = Some \<lparr>i_ino = 77, i_mode = 0x81A4\<rparr>, f_path = ''/etc/passwd''\<rparr>"

definition sample_bprm :: linux_binprm where
  "sample_bprm = \<lparr>bprm_file = sample_file, bprm_filename = Some ''/bin/sh''\<rparr>"

definition sample_address :: "sockaddr option" where
  "sample_address = Some \<lparr>sa_family = MCP_GUARD_AF_INET, sin_port = 0x5000, sin_addr = 0x0100007F\<rparr>"

lemma sample_examined: "examined reference_helpers sample_task loaded_maps"
  by (simp add: examined_def loaded_ready loaded_scope reference_laws)

text \<open>Maps under an enforced policy without rules that denies by default.\<close>

definition deny_maps :: bpf_state where
  "deny_maps =
     loaded_maps\<lparr>policy_config :=
       [0 \<mapsto> zero_config\<lparr>cfg_default_action := MCP_GUARD_ACTION_DENY, cfg_enforce := 1,
                        cfg_flags := MCP_GUARD_POLICY_F_CACHE_FILE_FOLLOWUPS\<rparr>]\<rparr>"

lemma deny_ready: "pipelines_loaded deny_maps" "scratch_ready tk deny_maps"
  by (simp_all add: deny_maps_def pipelines_loaded_def scratch_ready_def mcp_get_scratch_def
      loaded_maps_def created_maps_def zero_scratch_def)

lemma deny_examined: "examined reference_helpers sample_task deny_maps"
proof -
  have "mcp_scope_matches sample_task deny_maps"
    by (simp add: mcp_scope_matches_def mcp_config_def deny_maps_def zero_config_def)
  then show ?thesis by (simp add: examined_def reference_laws deny_ready)
qed

lemma deny_policy:
  "mcp_policy_enforced deny_maps" "mcp_policy_default_action deny_maps = MCP_GUARD_ACTION_DENY"
  "\<not> mcp_policy_has_rules deny_maps" "l1_hit tk k deny_maps = None"
  "mcp_l2_policy_flags deny_maps = MCP_GUARD_POLICY_F_CACHE_FILE_FOLLOWUPS"
  "events deny_maps = []"
  by (simp_all add: deny_maps_def mcp_policy_enforced_def mcp_policy_default_action_def
      mcp_policy_has_rules_def mcp_policy_rule_count_def mcp_config_def zero_config_def
      l1_hit_def mcp_l2_policy_flags_def loaded_maps_def created_maps_def)

section \<open>The pipelines decide as specified\<close>

lemmas runs = run_exec_def run_file_open_def run_file_permission_def run_socket_connect_def

lemmas loaded_arrays = pipelines_loaded_def

lemma decision_layers [simp]:
  "d_layer (first_of (hook_hit tk hook_id rid s) b c) =
     (if hook_hit tk hook_id rid s = None then d_layer (first_of None b c) else MCP_GUARD_LAYER_L1)"
  by (auto simp: first_of_def hook_hit_def)

text \<open>What a hook's request does: the return value follows the decision, and so do the counted
  metric, the logged event and the cached entries; a hit caches nothing.\<close>

definition outcome_ok ::
  "helpers \<Rightarrow> task \<Rightarrow> u32 \<Rightarrow> u64 \<Rightarrow> decision \<Rightarrow> bpf_state \<Rightarrow> bpf_state \<Rightarrow> c_int \<times> bpf_state \<Rightarrow> bool"
where
  "outcome_ok h tk hook_id resource_id d store s result \<longleftrightarrow>
     fst result = mcp_action_ret (d_action d) s \<and>
     policy_view (snd result) = policy_view s \<and>
     answered h tk hook_id resource_id d
       (if d_layer d = MCP_GUARD_LAYER_L1 then s else store) s (snd result)"

context layered_hook
begin

lemma outcome:
  assumes "ready s"
    and "arr s MCP_GUARD_TAIL_L2 = Some Prog_L2" and "arr s MCP_GUARD_TAIL_L3 = Some Prog_L3"
    and "\<And>d. hit s = Some d \<Longrightarrow> d_layer d = MCP_GUARD_LAYER_L1"
    and "\<And>d. safe s = Some d \<Longrightarrow> d_layer d \<noteq> MCP_GUARD_LAYER_L1"
    and "d_layer (policy s) \<noteq> MCP_GUARD_LAYER_L1"
  shows "outcome_ok h tk hook_id resource_id (first_of (hit s) (safe s) (policy s))
    (store (first_of (hit s) (safe s) (policy s)) s) s
    (run_pipeline prog arr MAX_TAIL_CALL_CNT Prog_L1 s)"
proof (cases "hit s")
  case None
  then have "d_layer (decide s) \<noteq> MCP_GUARD_LAYER_L1"
    using assms(5,6) by (auto simp: decide_def first_of_def split: option.split)
  then show ?thesis
    using request_miss [OF assms(1) None assms(2,3)]
    by (simp add: outcome_ok_def pipeline_view flip: decide_def)
next
  case (Some d)
  then show ?thesis
    using request_hit [OF assms(1) Some] assms(4) [OF Some]
    by (simp add: outcome_ok_def pipeline_view first_of_def)
qed

end

lemma hook_hit_layer: "hook_hit tk hook_id rid s = Some d \<Longrightarrow> d_layer d = MCP_GUARD_LAYER_L1"
  by (auto simp: hook_hit_def)

lemma file_safe_layer: "file_safe f hook_id s = Some d \<Longrightarrow> d_layer d \<noteq> MCP_GUARD_LAYER_L1"
  using file_safe_cases(2) by fastforce

section \<open>Requests, uniformly\<close>

datatype request =
    Req_exec linux_binprm
  | Req_open "kfile option"
  | Req_permission "kfile option \<times> u32"
  | Req_connect "sockaddr option"

fun run_request :: "helpers \<Rightarrow> task \<Rightarrow> request \<Rightarrow> c_int \<Rightarrow> bpf_state \<Rightarrow> c_int \<times> bpf_state" where
  "run_request h tk (Req_exec bprm) ret s = run_exec h tk bprm ret s"
| "run_request h tk (Req_open f) ret s = run_file_open h tk f ret s"
| "run_request h tk (Req_permission ctx) ret s = run_file_permission h tk ctx ret s"
| "run_request h tk (Req_connect address) ret s = run_socket_connect h tk address ret s"

fun request_decision :: "helpers \<Rightarrow> task \<Rightarrow> request \<Rightarrow> bpf_state \<Rightarrow> decision" where
  "request_decision h tk (Req_exec bprm) s = exec_decision h tk bprm s"
| "request_decision h tk (Req_open f) s = file_open_decision h tk f s"
| "request_decision h tk (Req_permission ctx) s = file_permission_decision tk ctx s"
| "request_decision h tk (Req_connect address) s = socket_connect_decision h tk address s"

text \<open>The decision without the cache: a function of the policy alone.\<close>

fun policy_verdict :: "helpers \<Rightarrow> request \<Rightarrow> bpf_state \<Rightarrow> decision" where
  "policy_verdict h (Req_exec bprm) s =
     (if exec_name bprm = [] then safe_decision MCP_GUARD_ACTION_DENY 0
      else policy_decision (command_rule h MCP_GUARD_HOOK_EXEC (exec_name bprm) s) s)"
| "policy_verdict h (Req_open f) s =
     (case file_safe f MCP_GUARD_HOOK_FILE_OPEN s of
        Some d \<Rightarrow> d
      | None \<Rightarrow> policy_decision (path_rule h MCP_GUARD_HOOK_FILE_OPEN (file_name f) s) s)"
| "policy_verdict h (Req_permission ctx) s =
     (case file_safe (fst ctx) (permission_hook (snd ctx)) s of
        Some d \<Rightarrow> d
      | None \<Rightarrow>
          policy_decision (resource_found MCP_GUARD_RULE_PATH_PREFIX (permission_hook (snd ctx))
            (mcp_file_resource_id (fst ctx)) s) s)"
| "policy_verdict h (Req_connect address) s =
     (case socket_safe address of Some d \<Rightarrow> d | None \<Rightarrow> socket_policy h address s)"

fun request_hook :: "request \<Rightarrow> u32" where
  "request_hook (Req_exec bprm) = MCP_GUARD_HOOK_EXEC"
| "request_hook (Req_open f) = MCP_GUARD_HOOK_FILE_OPEN"
| "request_hook (Req_permission ctx) = permission_hook (snd ctx)"
| "request_hook (Req_connect address) = MCP_GUARD_HOOK_SOCKET_CONNECT"

fun request_resource :: "request \<Rightarrow> u64" where
  "request_resource (Req_exec bprm) = exec_resource bprm"
| "request_resource (Req_open f) = mcp_file_resource_id f"
| "request_resource (Req_permission ctx) = mcp_file_resource_id (fst ctx)"
| "request_resource (Req_connect address) = fst (mcp_socket_resource_id address)"

fun request_hit :: "task \<Rightarrow> request \<Rightarrow> bpf_state \<Rightarrow> decision option" where
  "request_hit tk (Req_connect address) s = socket_hit tk address s"
| "request_hit tk req s = hook_hit tk (request_hook req) (request_resource req) s"

fun request_store :: "helpers \<Rightarrow> task \<Rightarrow> request \<Rightarrow> decision \<Rightarrow> bpf_state \<Rightarrow> bpf_state" where
  "request_store h tk (Req_exec bprm) d s = exec_store h tk bprm d s"
| "request_store h tk (Req_open f) d s = file_store h tk f d s"
| "request_store h tk (Req_permission ctx) d s = permission_store h tk ctx d s"
| "request_store h tk (Req_connect address) d s = socket_store h tk address d s"

lemma request_outcome:
  assumes "examined h tk s" and "pipelines_loaded s"
  shows "outcome_ok h tk (request_hook req) (request_resource req) (request_decision h tk req s)
    (request_store h tk req (request_decision h tk req s) s) s (run_request h tk req 0 s)"
proof (cases req)
  case (Req_exec bprm)
  show ?thesis unfolding Req_exec run_request.simps request_decision.simps request_store.simps
      request_hook.simps request_resource.simps run_exec_def exec_decision_def
    by (rule exec_layers.outcome)
      (use assms in \<open>auto simp: loaded_arrays hook_hit_layer split: if_splits\<close>)
next
  case (Req_open f)
  show ?thesis unfolding Req_open run_request.simps request_decision.simps request_store.simps
      request_hook.simps request_resource.simps run_file_open_def file_open_decision_def
    by (rule fopen_layers.outcome)
      (use assms in \<open>simp_all add: loaded_arrays hook_hit_layer file_safe_layer\<close>)
next
  case (Req_permission ctx)
  show ?thesis unfolding Req_permission run_request.simps request_decision.simps
      request_store.simps request_hook.simps request_resource.simps run_file_permission_def
      file_permission_decision_def Let_def
    by (rule fperm_layers.outcome)
      (use assms in \<open>simp_all add: loaded_arrays hook_hit_layer file_safe_layer\<close>)
next
  case (Req_connect address)
  show ?thesis unfolding Req_connect run_request.simps request_decision.simps
      request_store.simps request_hook.simps request_resource.simps run_socket_connect_def
      socket_connect_decision_def
    by (rule sconn_layers.outcome)
      (use assms in \<open>auto simp: loaded_arrays hook_hit_layer socket_hit_def socket_safe_def
        socket_policy_def Let_def case_prod_beta split: if_splits\<close>)
qed

lemma request_decision_cases:
  "request_decision h tk req s =
     (case request_hit tk req s of Some d \<Rightarrow> d | None \<Rightarrow> policy_verdict h req s)"
  by (cases req)
    (simp_all add: exec_decision_def file_open_decision_def file_permission_decision_def
      socket_connect_decision_def first_of_def Let_def split: option.split)

lemma policy_decision_valid: "mcp_guard_action_valid (d_action (policy_decision rule s))"
  using default_action_valid [of s] by (auto simp: rule_verdict_def split: option.split)

lemma policy_verdict_valid: "mcp_guard_action_valid (d_action (policy_verdict h req s))"
  using policy_decision_valid
  by (cases req)
    (auto simp: socket_policy_def case_prod_beta socket_safe_def l2_socket_decide_action
      simp del: policy_decision_simps split: option.split dest!: file_safe_cases(2))

lemma request_decision_valid: "mcp_guard_action_valid (d_action (request_decision h tk req s))"
  using policy_verdict_valid [of h req s]
  by (cases req)
    (auto simp: request_decision_cases hook_hit_def socket_hit_def case_prod_beta
      dest: l1_hit_valid split: option.splits if_splits)

lemma request_decision_event:
  "d_event (request_decision h tk req s) \<longleftrightarrow>
     d_action (request_decision h tk req s) \<noteq> MCP_GUARD_ACTION_ALLOW"
  by (cases req)
    (auto simp: request_decision_cases hook_hit_def socket_hit_def socket_policy_def
      case_prod_beta socket_safe_def split: option.split dest!: file_safe_cases(2))

lemma request_denied:
  "ret \<noteq> 0 \<Longrightarrow> fst (run_request h tk req ret s) = ret \<and> only_ticks s (snd (run_request h tk req ret s))"
  by (cases req) (simp_all add: runs exec.pipeline_denied fopen.pipeline_denied
      fperm.pipeline_denied sconn.pipeline_denied)

lemma request_view: "policy_view (snd (run_request h tk req ret s)) = policy_view s"
  by (cases req) (simp_all add: runs exec.pipeline_view fopen.pipeline_view
      fperm.pipeline_view sconn.pipeline_view)

lemma request_scratch:
  assumes "strings_law h" and "\<forall>tk. scratch_ready tk s"
  shows "scratch_ready tk' (snd (run_request h tk req ret s))"
proof (cases "ret = 0")
  case True
  then show ?thesis using assms
    by (cases req) (simp_all add: runs exec_chain.pipeline_scratch fopen_chain.pipeline_scratch
        fperm_chain.pipeline_scratch sconn_chain.pipeline_scratch)
next
  case False
  with assms(2) show ?thesis
    using request_denied [of ret h tk req s]
    by (auto simp: only_ticks_def scratch_ready_def mcp_get_scratch_def)
qed

section \<open>The four hooks\<close>

text \<open>C5. Opening a file: with the program arrays loaded, the pipeline of \<^verbatim>\<open>file_open\<close> returns
  what \<open>file_open_decision\<close> (cache entry, else safe class, else path rule, else default) maps to,
  counts one metric for it, logs one event for it when it is not an allow and the ring buffer
  has room, caches it (with its read and write follow-ups) unless it was a hit, and leaves the
  policy alone.\<close>

theorem file_open_decides:
  assumes "examined h tk s" and "pipelines_loaded s"
  shows "outcome_ok h tk MCP_GUARD_HOOK_FILE_OPEN (mcp_file_resource_id f)
    (file_open_decision h tk f s) (file_store h tk f (file_open_decision h tk f s) s) s
    (run_file_open h tk f 0 s)"
  using request_outcome [OF assms, of "Req_open f"] by simp

theorem file_open_decides_witness:
  "outcome_ok reference_helpers sample_task MCP_GUARD_HOOK_FILE_OPEN
    (mcp_file_resource_id sample_file)
    (file_open_decision reference_helpers sample_task sample_file loaded_maps)
    (file_store reference_helpers sample_task sample_file
      (file_open_decision reference_helpers sample_task sample_file loaded_maps) loaded_maps)
    loaded_maps (run_file_open reference_helpers sample_task sample_file 0 loaded_maps)"
  by (rule file_open_decides [OF sample_examined loaded_ready(1)])

text \<open>C8. Reading or writing an open file: the same for \<^verbatim>\<open>file_permission\<close> and
  \<open>file_permission_decision\<close>, which decides by resource id.\<close>

theorem file_permission_decides:
  assumes "examined h tk s" and "pipelines_loaded s"
  shows "outcome_ok h tk (permission_hook (snd ctx)) (mcp_file_resource_id (fst ctx))
    (file_permission_decision tk ctx s)
    (permission_store h tk ctx (file_permission_decision tk ctx s) s) s
    (run_file_permission h tk ctx 0 s)"
  using request_outcome [OF assms, of "Req_permission ctx"] by simp

theorem file_permission_decides_witness:
  "outcome_ok reference_helpers sample_task MCP_GUARD_HOOK_FILE_WRITE 77
    (file_permission_decision sample_task (sample_file, 2) loaded_maps)
    (permission_store reference_helpers sample_task (sample_file, 2)
      (file_permission_decision sample_task (sample_file, 2) loaded_maps) loaded_maps)
    loaded_maps (run_file_permission reference_helpers sample_task (sample_file, 2) 0 loaded_maps)"
  using file_permission_decides [OF sample_examined loaded_ready(1), of "(sample_file, 2)"]
  by (simp add: permission_hook_def mcp_file_resource_id_def sample_file_def)

text \<open>C6. Executing a program: the same for \<^verbatim>\<open>bprm_check_security\<close> and \<open>exec_decision\<close>,
  which denies an empty name at L2 and decides by command prefix at L3.\<close>

theorem exec_decides:
  assumes "examined h tk s" and "pipelines_loaded s"
  shows "outcome_ok h tk MCP_GUARD_HOOK_EXEC (exec_resource bprm)
    (exec_decision h tk bprm s) (exec_store h tk bprm (exec_decision h tk bprm s) s) s
    (run_exec h tk bprm 0 s)"
  using request_outcome [OF assms, of "Req_exec bprm"] by simp

theorem exec_decides_witness:
  "outcome_ok reference_helpers sample_task MCP_GUARD_HOOK_EXEC 77
    (exec_decision reference_helpers sample_task sample_bprm loaded_maps)
    (exec_store reference_helpers sample_task sample_bprm
      (exec_decision reference_helpers sample_task sample_bprm loaded_maps) loaded_maps)
    loaded_maps (run_exec reference_helpers sample_task sample_bprm 0 loaded_maps)"
  using exec_decides [OF sample_examined loaded_ready(1), of sample_bprm]
  by (simp add: exec_resource_def mcp_bprm_resource_id_def mcp_file_resource_id_def
      sample_bprm_def sample_file_def)

text \<open>C7. Connecting a socket: the same for \<^verbatim>\<open>socket_connect\<close> and
  \<open>socket_connect_decision\<close>, which lets other families than IPv4 pass at L2 and never caches
  them.\<close>

theorem socket_connect_decides:
  assumes "examined h tk s" and "pipelines_loaded s"
  shows "outcome_ok h tk MCP_GUARD_HOOK_SOCKET_CONNECT (fst (mcp_socket_resource_id address))
    (socket_connect_decision h tk address s)
    (socket_store h tk address (socket_connect_decision h tk address s) s) s
    (run_socket_connect h tk address 0 s)"
  using request_outcome [OF assms, of "Req_connect address"] by simp

theorem socket_connect_decides_witness:
  "outcome_ok reference_helpers sample_task MCP_GUARD_HOOK_SOCKET_CONNECT
    (fst (mcp_socket_resource_id sample_address))
    (socket_connect_decision reference_helpers sample_task sample_address loaded_maps)
    (socket_store reference_helpers sample_task sample_address
      (socket_connect_decision reference_helpers sample_task sample_address loaded_maps)
      loaded_maps)
    loaded_maps (run_socket_connect reference_helpers sample_task sample_address 0 loaded_maps)"
  by (rule socket_connect_decides [OF sample_examined loaded_ready(1)])

lemma request_hit_layer: "request_hit tk req s = Some d \<Longrightarrow> d_layer d = MCP_GUARD_LAYER_L1"
  by (cases req) (auto simp: hook_hit_layer socket_hit_def case_prod_beta split: if_splits)

section \<open>What every hook respects\<close>

text \<open>A denial by an earlier LSM wins: when a hook is entered with a non-zero return value,
  each of the four pipelines returns that value and changes nothing but the count of clock
  readings (no policy, cache, event, metric or scratch buffer is touched).\<close>

theorem earlier_denial_wins:
  assumes "ret \<noteq> 0"
  shows "fst (run_exec h tk bprm ret s) = ret \<and> only_ticks s (snd (run_exec h tk bprm ret s)) \<and>
    fst (run_file_open h tk f ret s) = ret \<and> only_ticks s (snd (run_file_open h tk f ret s)) \<and>
    fst (run_file_permission h tk ctx ret s) = ret \<and>
    only_ticks s (snd (run_file_permission h tk ctx ret s)) \<and>
    fst (run_socket_connect h tk address ret s) = ret \<and>
    only_ticks s (snd (run_socket_connect h tk address ret s))"
  using request_denied [OF assms, of h tk "Req_exec bprm" s]
    request_denied [OF assms, of h tk "Req_open f" s]
    request_denied [OF assms, of h tk "Req_permission ctx" s]
    request_denied [OF assms, of h tk "Req_connect address" s]
  by simp

theorem earlier_denial_wins_witness:
  "fst (run_exec reference_helpers sample_task sample_bprm (- 1) loaded_maps) = - 1"
  using earlier_denial_wins [of "- 1"] by simp

text \<open>Whatever the policy, the cache and the program arrays hold, a hook returns 0,
  \<open>-EACCES\<close> or the value it was handed.\<close>

theorem hook_return_values:
  "fst (run_exec h tk bprm ret s) \<in> {0, - 13, ret} \<and>
   fst (run_file_open h tk f ret s) \<in> {0, - 13, ret} \<and>
   fst (run_file_permission h tk ctx ret s) \<in> {0, - 13, ret} \<and>
   fst (run_socket_connect h tk address ret s) \<in> {0, - 13, ret}"
  unfolding runs
  by (intro conjI exec.pipeline_ret fopen.pipeline_ret fperm.pipeline_ret sconn.pipeline_ret)

text \<open>No hook writes the policy: configuration, rules, scopes, tries, the resource hash,
  the epoch and the program arrays are the same after every request.\<close>

theorem hooks_keep_policy:
  "policy_view (snd (run_exec h tk bprm ret s)) = policy_view s \<and>
   policy_view (snd (run_file_open h tk f ret s)) = policy_view s \<and>
   policy_view (snd (run_file_permission h tk ctx ret s)) = policy_view s \<and>
   policy_view (snd (run_socket_connect h tk address ret s)) = policy_view s"
  unfolding runs
  by (intro conjI exec.pipeline_view fopen.pipeline_view fperm.pipeline_view sconn.pipeline_view)

section \<open>Scope\<close>

lemma request_out_of_scope:
  assumes "\<not> mcp_scope_matches tk s"
  shows "fst (run_request h tk req 0 s) = 0 \<and> only_ticks s (snd (run_request h tk req 0 s))"
proof -
  have l1: "exec_prog h tk bprm 0 Prog_L1 s = (Ret 0, snd (ktime_get_ns h s))"
    "file_open_prog h tk f 0 Prog_L1 s = (Ret 0, snd (ktime_get_ns h s))"
    "file_permission_prog h tk ctx 0 Prog_L1 s = (Ret 0, snd (ktime_get_ns h s))"
    "socket_connect_prog h tk address 0 Prog_L1 s = (Ret 0, snd (ktime_get_ns h s))"
    for bprm f ctx address
    using assms
    by (simp_all add: exec_prog_def file_open_prog_def file_permission_prog_def
        socket_connect_prog_def program_defs Let_def case_prod_beta)
  show ?thesis
    by (cases req)
      (simp_all add: runs exec_chain.chain_hit [OF l1(1)] fopen_chain.chain_hit [OF l1(2)]
        fperm_chain.chain_hit [OF l1(3)] sconn_chain.chain_hit [OF l1(4)])
qed

text \<open>C24. A task outside the configured scope is not examined: all four hooks return 0 at once
  and leave everything but the clock count as it was (no metric, no event, no cache entry).\<close>

theorem out_of_scope_passes:
  assumes "\<not> mcp_scope_matches tk s"
  shows "fst (run_exec h tk bprm 0 s) = 0 \<and> only_ticks s (snd (run_exec h tk bprm 0 s)) \<and>
    fst (run_file_open h tk f 0 s) = 0 \<and> only_ticks s (snd (run_file_open h tk f 0 s)) \<and>
    fst (run_file_permission h tk ctx 0 s) = 0 \<and>
    only_ticks s (snd (run_file_permission h tk ctx 0 s)) \<and>
    fst (run_socket_connect h tk address 0 s) = 0 \<and>
    only_ticks s (snd (run_socket_connect h tk address 0 s))"
  using request_out_of_scope [OF assms, of h "Req_exec bprm"]
    request_out_of_scope [OF assms, of h "Req_open f"]
    request_out_of_scope [OF assms, of h "Req_permission ctx"]
    request_out_of_scope [OF assms, of h "Req_connect address"]
  by simp

definition scoped_maps :: bpf_state where
  "scoped_maps =
     loaded_maps\<lparr>policy_config :=
       [0 \<mapsto> zero_config\<lparr>cfg_scope_mode := MCP_GUARD_SCOPE_SCOPED, cfg_enforce := 1,
                        cfg_default_action := MCP_GUARD_ACTION_DENY\<rparr>]\<rparr>"

theorem out_of_scope_passes_witness:
  "fst (run_file_open reference_helpers sample_task sample_file 0 scoped_maps) = 0"
proof -
  have "\<not> mcp_scope_matches sample_task scoped_maps"
    by (simp add: mcp_scope_matches_def mcp_config_def scoped_maps_def zero_config_def
        scope_entry_matches_def loaded_maps_def created_maps_def)
  from out_of_scope_passes [OF this] show ?thesis by blast
qed

section \<open>Failing closed\<close>

context layered_hook
begin

lemma broken:
  assumes ready: "ready s" and miss: "hit s = None" "safe s = None"
    and broken: "arr s MCP_GUARD_TAIL_L2 = None \<or>
      arr s MCP_GUARD_TAIL_L2 = Some Prog_L2 \<and> arr s MCP_GUARD_TAIL_L3 = None"
  shows "fst (run_pipeline prog arr MAX_TAIL_CALL_CNT Prog_L1 s) = - 13"
proof -
  let ?s1 = "snd (prog Prog_L1 s)" and ?s2 = "snd (prog Prog_L2 (snd (prog Prog_L1 s)))"
  from l1_miss [OF ready miss(1)] have l1: "prog Prog_L1 s = (Tail_call MCP_GUARD_TAIL_L2, ?s1)"
    and q1: "quiet s ?s1" and r1: "ready ?s1"
    by (simp_all add: prod_eq_iff)
  from l2_pass [OF r1] have l2: "prog Prog_L2 ?s1 = (Tail_call MCP_GUARD_TAIL_L3, ?s2)"
    using safe_quiet [OF q1] miss(2) by (simp add: prod_eq_iff)
  from broken show ?thesis
    using chain_broken_l2 [OF l1] chain_broken_l3 [OF l1 _ l2]
    by (auto simp: mcp_tail_fail_ret_def)
qed

end

definition chain_broken :: "(u32 \<rightharpoonup> tail_prog) \<Rightarrow> bool" where
  "chain_broken arr \<longleftrightarrow>
     arr MCP_GUARD_TAIL_L2 = None \<or>
     arr MCP_GUARD_TAIL_L2 = Some Prog_L2 \<and> arr MCP_GUARD_TAIL_L3 = None"


lemma created_examined: "examined reference_helpers sample_task created_maps"
  by (simp add: examined_def reference_laws mcp_scope_matches_def mcp_config_def
      scratch_ready_def mcp_get_scratch_def created_maps_def zero_config_def zero_scratch_def)


section \<open>Blocking\<close>

lemma action_ret_blocks:
  "mcp_guard_action_valid a \<Longrightarrow>
   mcp_action_ret a s = - 13 \<longleftrightarrow> a = MCP_GUARD_ACTION_DENY \<and> mcp_policy_enforced s"
  by (auto simp: mcp_action_ret_def mcp_should_block_def)

text \<open>C23. A request is blocked exactly when its decision is a denial and the policy is
  enforced: audit decisions never block, and with \<^verbatim>\<open>enforce\<close> off nothing is blocked.\<close>

theorem blocked_iff_denied:
  assumes "examined h tk s" and "pipelines_loaded s"
  shows "fst (run_request h tk req 0 s) = - 13 \<longleftrightarrow>
    d_action (request_decision h tk req s) = MCP_GUARD_ACTION_DENY \<and> mcp_policy_enforced s"
  using request_outcome [OF assms, of req]
  by (simp add: outcome_ok_def action_ret_blocks request_decision_valid)

theorem blocked_iff_denied_witness:
  "fst (run_request reference_helpers sample_task (Req_open sample_file) 0 loaded_maps) \<noteq> - 13"
  using blocked_iff_denied [OF sample_examined loaded_ready(1), of "Req_open sample_file"]
  by (simp add: mcp_policy_enforced_def mcp_config_def loaded_maps_def created_maps_def
      zero_config_def)

text \<open>No silent blocking: when a request is blocked and the ring buffer has room, exactly one
  event is appended, and it records the denial, the error 13, the hook, the resource and the
  process.\<close>

theorem blocks_are_logged:
  assumes "examined h tk s" and "pipelines_loaded s"
    and "fst (run_request h tk req 0 s) = - 13" and "h_ringbuf_reserve h (events s)"
  shows "\<exists>e. events (snd (run_request h tk req 0 s)) = events s @ [e] \<and>
    ev_action e = MCP_GUARD_ACTION_DENY \<and> ev_error e = 13 \<and>
    ev_hook_id e = request_hook req \<and> ev_resource_id e = request_resource req \<and>
    ev_pid e = task_pid tk \<and> ev_tgid e = task_tgid tk"
proof -
  let ?d = "request_decision h tk req s"
  have out: "outcome_ok h tk (request_hook req) (request_resource req) ?d
      (request_store h tk req ?d s) s (run_request h tk req 0 s)"
    by (rule request_outcome [OF assms(1,2)])
  then have denied: "d_action ?d = MCP_GUARD_ACTION_DENY" "mcp_policy_enforced s"
    using assms(3) action_ret_blocks [OF request_decision_valid, of h tk req s s]
    by (simp_all add: outcome_ok_def)
  have "d_event ?d" using denied(1) by (simp add: request_decision_event)
  with out assms(4) have "\<exists>e. events (snd (run_request h tk req 0 s)) = events s @ [e] \<and>
      event_tells tk (request_hook req) (request_resource req) ?d s e"
    by (simp add: outcome_ok_def answered_def logged_def)
  moreover have "ev_action e = MCP_GUARD_ACTION_DENY \<and> ev_error e = 13 \<and>
      ev_hook_id e = request_hook req \<and> ev_resource_id e = request_resource req \<and>
      ev_pid e = task_pid tk \<and> ev_tgid e = task_tgid tk"
    if "event_tells tk (request_hook req) (request_resource req) ?d s e" for e
    using that denied by (simp add: event_tells_def block_error_def mcp_should_block_def)
  ultimately show ?thesis by blast
qed

lemma deny_open:
  "d_action (request_decision reference_helpers sample_task (Req_open sample_file) deny_maps) =
     MCP_GUARD_ACTION_DENY"
  by (simp add: request_decision_cases hook_hit_def deny_policy no_rules_found file_safe_def
      mcp_l2_file_decide_def sample_file_def)

theorem blocks_are_logged_witness:
  "\<exists>e. events (snd (run_request reference_helpers sample_task (Req_open sample_file) 0 deny_maps)) =
     [e] \<and> ev_action e = MCP_GUARD_ACTION_DENY \<and> ev_error e = 13 \<and> ev_resource_id e = 77"
proof -
  have blocked:
    "fst (run_request reference_helpers sample_task (Req_open sample_file) 0 deny_maps) = - 13"
    using request_outcome [OF deny_examined deny_ready(1), of "Req_open sample_file"]
    by (simp add: outcome_ok_def action_ret_blocks deny_open [simplified] deny_policy)
  have "h_ringbuf_reserve reference_helpers (events deny_maps)"
    by (simp add: reference_helpers_def deny_policy)
  from blocks_are_logged [OF deny_examined deny_ready(1) blocked this]
  show ?thesis by (auto simp: deny_policy mcp_file_resource_id_def sample_file_def)
qed

section \<open>Follow-ups\<close>

lemma followups_hit:
  assumes "lru_keeps (h_cache_update h)" and "rid \<noteq> 0" and "mcp_guard_action_valid a"
    and "mcp_l2_policy_flags s AND MCP_GUARD_POLICY_F_CACHE_FILE_FOLLOWUPS \<noteq> 0"
    and "hook \<in> {MCP_GUARD_HOOK_FILE_READ, MCP_GUARD_HOOK_FILE_WRITE}"
  shows "\<exists>v. l1_hit tk (mcp_fill_cache_key tk hook rid)
      (mcp_cache_file_followups h tk rid a r re s) = Some v \<and> cv_action v = a"
proof -
  have key: "(mcp_fill_cache_key tk 3 rid)\<lparr>ck_hook_id := 4\<rparr> = mcp_fill_cache_key tk 4 rid"
    by (simp add: mcp_fill_cache_key_def)
  show ?thesis
    using assms
    by (auto simp: mcp_cache_file_followups_def Let_def key l1_store_hit l1_store_other)
qed

lemma open_caches_followups:
  assumes "examined h tk s" and "pipelines_loaded s" and "lru_keeps (h_cache_update h)"
    and "mcp_l2_policy_flags s AND MCP_GUARD_POLICY_F_CACHE_FILE_FOLLOWUPS \<noteq> 0"
    and "mcp_file_resource_id f \<noteq> 0"
    and "hook_hit tk MCP_GUARD_HOOK_FILE_OPEN (mcp_file_resource_id f) s = None"
    and "hook \<in> {MCP_GUARD_HOOK_FILE_READ, MCP_GUARD_HOOK_FILE_WRITE}"
  shows "\<exists>v. l1_hit tk (mcp_fill_cache_key tk hook (mcp_file_resource_id f))
      (snd (run_file_open h tk f 0 s)) = Some v \<and> cv_action v = d_action (file_open_decision h tk f s)"
proof -
  let ?d = "file_open_decision h tk f s" and ?rid = "mcp_file_resource_id f"
  let ?s' = "snd (run_file_open h tk f 0 s)"
  have out: "outcome_ok h tk MCP_GUARD_HOOK_FILE_OPEN ?rid ?d (file_store h tk f ?d s) s
      (run_file_open h tk f 0 s)"
    using request_outcome [OF assms(1,2), of "Req_open f"] by simp
  then have view: "policy_view ?s' = policy_view s" by (simp add: outcome_ok_def)
  have "d_layer ?d \<noteq> MCP_GUARD_LAYER_L1"
    using assms(6) file_safe_layer
    by (auto simp: file_open_decision_def first_of_def split: option.split)
  then have "l1_cache ?s' = l1_cache (file_store h tk f ?d s)"
    using out by (simp add: outcome_ok_def answered_def)
  then have "l1_hit tk k ?s' = l1_hit tk k (file_store h tk f ?d s)" for k
    using view_config(1) [OF view]
    by (intro l1_hit_cong) (simp_all add: file_store_def mcp_cache_file_followups_def Let_def)
  moreover have "mcp_guard_action_valid (d_action ?d)"
    using request_decision_valid [of h tk "Req_open f" s] by simp
  ultimately show ?thesis
    unfolding file_store_def using assms(3-5,7) by (simp add: followups_hit)
qed

text \<open>C21. Follow-up caching: after a \<^verbatim>\<open>file_open\<close> that missed the cache, with
  \<open>CACHE_FILE_FOLLOWUPS\<close> set and an LRU map that does not evict, every read or write of a file
  with the same inode by the same task is answered at L1, with the return value of the open.\<close>

theorem open_decides_followups:
  assumes "examined h tk s" and "pipelines_loaded s" and "lru_keeps (h_cache_update h)"
    and "mcp_l2_policy_flags s AND MCP_GUARD_POLICY_F_CACHE_FILE_FOLLOWUPS \<noteq> 0"
    and "mcp_file_resource_id f \<noteq> 0" and "mcp_file_resource_id g = mcp_file_resource_id f"
    and "hook_hit tk MCP_GUARD_HOOK_FILE_OPEN (mcp_file_resource_id f) s = None"
    and "(r, s') = run_file_open h tk f 0 s"
  shows "d_layer (file_permission_decision tk (g, acc_mask) s') = MCP_GUARD_LAYER_L1 \<and>
    fst (run_file_permission h tk (g, acc_mask) 0 s') = r"
proof -
  let ?d = "file_open_decision h tk f s"
  have s': "s' = snd (run_file_open h tk f 0 s)" and r: "r = mcp_action_ret (d_action ?d) s"
    and view: "policy_view s' = policy_view s"
    using request_outcome [OF assms(1,2), of "Req_open f"] assms(8)
    by (auto simp: outcome_ok_def dest: sym)
  have hook: "permission_hook acc_mask \<in> {MCP_GUARD_HOOK_FILE_READ, MCP_GUARD_HOOK_FILE_WRITE}"
    by (simp add: permission_hook_def)
  obtain v where v: "cv_action v = d_action ?d"
    "l1_hit tk (mcp_fill_cache_key tk (permission_hook acc_mask) (mcp_file_resource_id f)) s' = Some v"
    using open_caches_followups [OF assms(1-5,7) hook] unfolding s' by blast
  have dec: "file_permission_decision tk (g, acc_mask) s' = hit_decision v"
    by (simp add: file_permission_decision_def hook_hit_def assms(6) v(2) first_of_def)
  have loaded: "pipelines_loaded s'"
    using assms(2) view_fields [OF view] by (simp add: pipelines_loaded_def)
  have "scratch_ready tk s'"
    using fopen_chain.pipeline_scratch [of h tk s tk f 0] assms(1)
    by (simp add: s' run_file_open_def examined_def)
  then have "examined h tk s'"
    using assms(1) view_config(7) [OF view] by (simp add: examined_def)
  from request_outcome [OF this loaded, of "Req_permission (g, acc_mask)"]
  have "fst (run_file_permission h tk (g, acc_mask) 0 s') = mcp_action_ret (d_action ?d) s'"
    by (simp add: outcome_ok_def dec v(1))
  then show ?thesis
    using dec r view_config(8) [OF view] by simp
qed

theorem open_decides_followups_witness:
  "fst (run_file_permission reference_helpers sample_task (sample_file, 2) 0
     (snd (run_file_open reference_helpers sample_task sample_file 0 deny_maps))) =
   fst (run_file_open reference_helpers sample_task sample_file 0 deny_maps)"
  using open_decides_followups [OF deny_examined deny_ready(1) reference_lru_keeps _ _ refl, of sample_file]
  by (simp add: deny_policy hook_hit_def mcp_file_resource_id_def sample_file_def)

end
