(* ===== verification/Coherence.thy ===== *)
theory Coherence
  imports Enforcement
begin

text \<open>
  The guard as a system: requests of any task on any hook, policy writes by the loader and
  epoch bumps, interleaved in any order (\<open>guard_reach\<close>).  The invariant of the reachable states
  says that a cache entry that can still hit was decided under the policy of this very state,
  once the epoch has been bumped after the last write.
\<close>

section \<open>Runs of the system\<close>

text \<open>A write of the loader: any new contents of the policy maps, the rest untouched.\<close>

definition policy_write :: "bpf_state \<Rightarrow> bpf_state \<Rightarrow> bool" where
  "policy_write s s' \<longleftrightarrow>
     (\<exists>cfg rules sc sp st pt ct nt rh.
        s' = s\<lparr>policy_config := cfg, policy_rules := rules, scope_comm := sc, scope_pid := sp,
               scope_tgid := st, path_policy_trie := pt, command_policy_trie := ct,
               network_policy_trie := nt, resource_policy_hash := rh\<rparr>)"

text \<open>\<^verbatim>\<open>bump_epoch\<close> of the loader, when its update succeeds.\<close>

definition next_epoch :: "u64 \<Rightarrow> u64" where
  "next_epoch epoch = (if epoch + 1 = 0 then 1 else epoch + 1)"

definition epoch_bumped :: "bpf_state \<Rightarrow> bpf_state" where
  "epoch_bumped s =
     s\<lparr>global_epoch := (global_epoch s)(MCP_GUARD_EPOCH_KEY \<mapsto> next_epoch (mcp_current_epoch s))\<rparr>"

text \<open>
  \<open>guard_reach h n current s\<close>: the state \<open>s\<close> is reached from freshly loaded maps by requests,
  writes and \<open>n\<close> epoch bumps; \<open>current\<close> says that no write has happened since the last bump that
  could change a decision.  The reader of the ring buffer takes events off at any time.  Writes that change
  no decision, like the removal of the retired generation after the bump, are \<open>retired\<close> steps.
\<close>

inductive guard_reach :: "helpers \<Rightarrow> nat \<Rightarrow> bool \<Rightarrow> bpf_state \<Rightarrow> bool" for h :: helpers where
  booted: "mcp_bpf_open_load env = Inr s \<Longrightarrow> guard_reach h 0 True s"
| served: "guard_reach h n current s \<Longrightarrow>
    guard_reach h n current (snd (run_request h tk req ret s))"
| written: "guard_reach h n current s \<Longrightarrow> policy_write s s' \<Longrightarrow> guard_reach h n False s'"
| retired: "guard_reach h n current s \<Longrightarrow> policy_write s s' \<Longrightarrow>
    \<forall>req. policy_verdict h req s' = policy_verdict h req s \<Longrightarrow> guard_reach h n current s'"
| bumped: "guard_reach h n current s \<Longrightarrow> guard_reach h (Suc n) True (epoch_bumped s)"
| drained: "guard_reach h n current s \<Longrightarrow> guard_reach h n current (s\<lparr>events := drop m (events s)\<rparr>)"

text \<open>The requests whose decision may be found under a cache key.\<close>

fun caches_under :: "request \<Rightarrow> u32 \<Rightarrow> u64 \<Rightarrow> bool" where
  "caches_under (Req_exec bprm) hook_id resource_id \<longleftrightarrow>
     hook_id = MCP_GUARD_HOOK_EXEC \<and>
     resource_id \<in> {exec_resource bprm, mcp_bprm_resource_id bprm None}"
| "caches_under (Req_open f) hook_id resource_id \<longleftrightarrow>
     hook_id \<in> {MCP_GUARD_HOOK_FILE_OPEN, MCP_GUARD_HOOK_FILE_READ, MCP_GUARD_HOOK_FILE_WRITE} \<and>
     resource_id = mcp_file_resource_id f"
| "caches_under (Req_permission ctx) hook_id resource_id \<longleftrightarrow>
     hook_id = permission_hook (snd ctx) \<and> resource_id = mcp_file_resource_id (fst ctx)"
| "caches_under (Req_connect address) hook_id resource_id \<longleftrightarrow>
     hook_id = MCP_GUARD_HOOK_SOCKET_CONNECT \<and>
     resource_id = fst (mcp_socket_resource_id address)"

definition justified :: "helpers \<Rightarrow> bpf_state \<Rightarrow> mcp_cache_key \<Rightarrow> u32 \<Rightarrow> bool" where
  "justified h s k action \<longleftrightarrow>
     ck_resource_id k \<noteq> 0 \<and>
     (\<exists>req. caches_under req (ck_hook_id k) (ck_resource_id k) \<and>
        action = d_action (policy_verdict h req s))"

section \<open>The invariant\<close>

definition cache_current :: "helpers \<Rightarrow> bpf_state \<Rightarrow> bool" where
  "cache_current h s \<longleftrightarrow>
     (\<forall>cpu k v. l1_cache s cpu k = Some v \<longrightarrow> cv_epoch v = mcp_current_epoch s \<longrightarrow>
        justified h s k (cv_action v))"

definition epochs_bounded :: "nat \<Rightarrow> bpf_state \<Rightarrow> bool" where
  "epochs_bounded n s \<longleftrightarrow>
     (\<forall>cpu k v. l1_cache s cpu k = Some v \<longrightarrow> unat (cv_epoch v) \<le> n)"

definition system_ok :: "helpers \<Rightarrow> nat \<Rightarrow> bool \<Rightarrow> bpf_state \<Rightarrow> bool" where
  "system_ok h n current s \<longleftrightarrow>
     pipelines_loaded s \<and> (\<forall>tk. scratch_ready tk s) \<and> mcp_current_epoch s = of_nat n \<and>
     epochs_bounded n s \<and> (current \<longrightarrow> cache_current h s)"

lemma quiet_verdict:
  assumes "policy_view s' = policy_view s"
  shows "policy_verdict h req s' = policy_verdict h req s"
  using view_config [OF assms] found_view [OF assms] view_deciders [OF assms]
  by (cases req)
    (simp_all add: policy_decision_def command_rule_def path_rule_def file_safe_def
      socket_policy_def case_prod_beta split: option.split)

lemma justified_view:
  assumes "policy_view s' = policy_view s"
  shows "justified h s' k a = justified h s k a"
  unfolding justified_def quiet_verdict [OF assms] ..

text \<open>What a request adds to the cache: decisions of its own, under keys of its own.\<close>

lemma store_adds:
  assumes law: "lru_law (h_cache_update h)"
    and cached: "l1_cache (request_store h tk req d s) cpu k = Some v"
  shows "l1_cache s cpu k = Some v \<or>
    cv_epoch v = mcp_current_epoch s \<and> cv_action v = d_action d \<and> ck_resource_id k \<noteq> 0 \<and>
    caches_under req (ck_hook_id k) (ck_resource_id k)"
proof -
  note cases = l1_store_cases [OF law]
  show ?thesis
  proof (cases req)
    case (Req_exec bprm)
    then show ?thesis using cached by (auto simp: exec_store_def dest!: cases)
  next
    case (Req_open f)
    then show ?thesis using cached
      by (auto simp: file_store_def mcp_cache_file_followups_def Let_def split: if_splits
          dest!: cases)
  next
    case (Req_permission ctx)
    then show ?thesis using cached by (auto simp: permission_store_def dest!: cases)
  next
    case (Req_connect address)
    then show ?thesis using cached
      by (auto simp: socket_store_def split: if_splits dest!: cases)
  qed
qed

lemma request_adds:
  assumes "strings_law h" and "lru_law (h_cache_update h)"
    and "pipelines_loaded s" and "scratch_ready tk s"
    and cached: "l1_cache (snd (run_request h tk req ret s)) cpu k = Some v"
  shows "l1_cache s cpu k = Some v \<or>
    cv_epoch v = mcp_current_epoch s \<and> justified h s k (cv_action v)"
proof (cases "ret = 0 \<and> mcp_scope_matches tk s")
  case False
  then have "only_ticks s (snd (run_request h tk req ret s))"
    using request_denied [of ret h tk req s] request_out_of_scope [of tk s h req] by auto
  then show ?thesis using cached by (auto simp: only_ticks_def)
next
  case True
  let ?d = "request_decision h tk req s"
  have ex: "examined h tk s" using True assms(1,4) by (simp add: examined_def)
  have out: "l1_cache (snd (run_request h tk req ret s)) =
      l1_cache (if d_layer ?d = MCP_GUARD_LAYER_L1 then s else request_store h tk req ?d s)"
    using request_outcome [OF ex assms(3), of req] True
    by (simp add: outcome_ok_def answered_def)
  show ?thesis
  proof (cases "d_layer ?d = MCP_GUARD_LAYER_L1")
    case True
    then show ?thesis using out cached by simp
  next
    case False
    then have "request_hit tk req s = None"
      using hook_hit_layer request_hit_layer
      by (auto simp: request_decision_cases split: option.splits)
    then have "?d = policy_verdict h req s" by (simp add: request_decision_cases)
    then show ?thesis
      using store_adds [OF assms(2), of tk req ?d s cpu k v] cached out False
      unfolding justified_def by auto
  qed
qed

lemma system_ok_request:
  assumes laws: "strings_law h" "lru_law (h_cache_update h)" and ok: "system_ok h n current s"
    and n: "n < 2 ^ 64"
  shows "system_ok h n current (snd (run_request h tk req ret s))"
proof -
  let ?s' = "snd (run_request h tk req ret s)"
  have view: "policy_view ?s' = policy_view s" by (rule request_view)
  from ok have loaded: "pipelines_loaded s" and scratch: "\<forall>tk. scratch_ready tk s"
    and epoch: "mcp_current_epoch s = of_nat n"
    by (simp_all add: system_ok_def)
  have small: "unat (of_nat n :: u64) = n"
    using n by (simp add: unat_of_nat take_bit_nat_eq_self)
  note adds = request_adds [OF laws loaded, of tk req ret _ _ _]
  have "epochs_bounded n ?s'"
    using ok adds scratch unfolding epochs_bounded_def system_ok_def
    by (metis epoch le_refl small)
  moreover have "cache_current h ?s'" if current
    using ok that adds scratch justified_view [OF view] view_config(1) [OF view]
    unfolding cache_current_def system_ok_def by metis
  ultimately show ?thesis
    using loaded scratch epoch view_fields [OF view] view_config(1) [OF view]
      request_scratch [OF laws(1) scratch]
    by (simp add: system_ok_def pipelines_loaded_def)
qed

lemma system_ok_written:
  assumes "policy_write s s'" and "system_ok h n current s"
  shows "system_ok h n False s'"
  using assms
  by (auto simp: policy_write_def system_ok_def pipelines_loaded_def scratch_ready_def
      mcp_get_scratch_def mcp_current_epoch_def epochs_bounded_def)

lemma system_ok_retired:
  assumes "policy_write s s'" and "\<forall>req. policy_verdict h req s' = policy_verdict h req s"
    and "system_ok h n current s"
  shows "system_ok h n current s'"
proof -
  have frame: "l1_cache s' = l1_cache s" "mcp_current_epoch s' = mcp_current_epoch s"
    using assms(1) by (auto simp: policy_write_def mcp_current_epoch_def)
  have "cache_current h s' = cache_current h s"
    unfolding cache_current_def justified_def frame using assms(2) by simp
  then show ?thesis
    using system_ok_written [OF assms(1,3)] assms(3) by (simp add: system_ok_def)
qed

lemma next_epoch_of_nat: "Suc n < 2 ^ 64 \<Longrightarrow> next_epoch (of_nat n) = of_nat (Suc n)"
proof -
  assume "Suc n < 2 ^ 64"
  then have "(of_nat (Suc n) :: u64) \<noteq> 0"
    by (simp add: word_of_nat_eq_0_iff del: of_nat_Suc) (auto dest: dvd_imp_le)
  then show ?thesis by (simp add: next_epoch_def add.commute)
qed

lemma system_ok_bumped:
  assumes "system_ok h n current s" and "Suc n < 2 ^ 64"
  shows "system_ok h (Suc n) True (epoch_bumped s)"
proof -
  have epoch: "mcp_current_epoch (epoch_bumped s) = of_nat (Suc n)"
    using assms next_epoch_of_nat [OF assms(2)]
    by (simp add: epoch_bumped_def mcp_current_epoch_def system_ok_def del: of_nat_Suc)
  have "unat (of_nat (Suc n) :: u64) = Suc n"
    using assms(2) by (simp add: unat_of_nat take_bit_nat_eq_self del: of_nat_Suc)
  then have fresh: "cv_epoch v \<noteq> of_nat (Suc n)" if "l1_cache s cpu k = Some v" for cpu k v
    using assms(1) that unfolding system_ok_def epochs_bounded_def
    by (metis not_less_eq_eq le_refl)
  have bounded: "epochs_bounded (Suc n) (epoch_bumped s)"
    using assms(1) unfolding system_ok_def epochs_bounded_def epoch_bumped_def
    by (auto intro: le_SucI)
  have "cache_current h (epoch_bumped s)"
    unfolding cache_current_def epoch using fresh by (simp add: epoch_bumped_def)
  with bounded epoch assms(1) show ?thesis
    by (simp add: system_ok_def epoch_bumped_def pipelines_loaded_def scratch_ready_def
        mcp_get_scratch_def)
qed

lemma system_ok_drained:
  assumes "system_ok h n current s"
  shows "system_ok h n current (s\<lparr>events := evs\<rparr>)"
  using assms view_config [of "s\<lparr>events := evs\<rparr>" s] justified_view [of "s\<lparr>events := evs\<rparr>" s]
  by (simp add: system_ok_def cache_current_def epochs_bounded_def pipelines_loaded_def
      scratch_ready_def mcp_get_scratch_def)

theorem reach_system_ok:
  assumes "strings_law h" and "lru_law (h_cache_update h)"
    and "guard_reach h n current s" and "n < 2 ^ 64"
  shows "system_ok h n current s"
  using assms(3,4)
proof (induction rule: guard_reach.induct)
  case (booted env s)
  then show ?case
    using open_load_ok [OF booted(1)] loaded_ready
    by (simp add: system_ok_def epochs_bounded_def cache_current_def mcp_current_epoch_def)
      (simp add: loaded_maps_def created_maps_def)
next
  case (served n current s tk req ret)
  then show ?case using system_ok_request [OF assms(1,2)] by simp
next
  case (written n current s s')
  then show ?case using system_ok_written by blast
next
  case (retired n current s s')
  then show ?case using system_ok_retired by blast
next
  case (bumped n current s)
  then show ?case using system_ok_bumped by simp
next
  case (drained n current s m)
  then show ?case using system_ok_drained by simp
qed

section \<open>No stale decisions\<close>

lemma reach_hit:
  assumes "strings_law h" and "lru_law (h_cache_update h)" and "guard_reach h n True s"
    and "n < 2 ^ 64" and "l1_hit tk k s = Some v"
  shows "justified h s k (cv_action v)"
  using reach_system_ok [OF assms(1-4)] l1_hit_epoch [OF assms(5)] l1_hit_cached [OF assms(5)]
  by (simp add: system_ok_def cache_current_def)

text \<open>C9. No stale and no invented decisions: in every state that requests of any tasks, policy
  writes and fewer than \<open>2^64\<close> epoch bumps can reach, with no write since the last bump, an entry
  that hits in the L1 cache holds the action that the policy of this very state gives to some
  request which is cached under that hook and resource id.\<close>

theorem hits_are_current:
  assumes "strings_law h" and "lru_law (h_cache_update h)" and "guard_reach h n True s"
    and "n < 2 ^ 64" and "l1_hit tk k s = Some v"
  shows "\<exists>req. caches_under req (ck_hook_id k) (ck_resource_id k) \<and>
    cv_action v = d_action (policy_verdict h req s)"
  using reach_hit [OF assms] by (simp add: justified_def)

definition current_maps :: bpf_state where
  "current_maps = epoch_bumped deny_maps"

definition sample_env :: bpf_env where
  "sample_env =
     \<lparr>env_calloc = True, env_open_errno = 0, env_load = 0, env_map_fd = (\<lambda>pl. 3),
      env_prog_fd = (\<lambda>pl p. 4), env_update_errno = (\<lambda>pl i. 0)\<rparr>"

lemma sample_boot: "mcp_bpf_open_load sample_env = Inr loaded_maps"
proof -
  obtain s where s: "mcp_bpf_open_load sample_env = Inr s"
    by (simp add: mcp_bpf_open_load_def mcp_populate_tail_calls_def sample_env_def
        mcp_update_tail_call_def)
  with open_load_ok [OF s] show ?thesis by simp
qed

lemma current_reach: "guard_reach reference_helpers 1 True current_maps"
proof -
  have "guard_reach reference_helpers 0 True loaded_maps"
    by (rule booted [OF sample_boot])
  moreover have "policy_write loaded_maps deny_maps"
    unfolding policy_write_def deny_maps_def by (intro exI) (simp add: loaded_maps_def created_maps_def)
  ultimately have "guard_reach reference_helpers 0 False deny_maps" by (rule written)
  from bumped [OF this] show ?thesis by (simp add: current_maps_def)
qed

lemma current_maps_facts:
  "examined reference_helpers sample_task current_maps" "pipelines_loaded current_maps"
  "mcp_l2_policy_flags current_maps = MCP_GUARD_POLICY_F_CACHE_FILE_FOLLOWUPS"
  "l1_hit tk k current_maps = None"
proof -
  show "pipelines_loaded current_maps"
    using deny_ready(1) by (simp add: current_maps_def epoch_bumped_def pipelines_loaded_def)
  have "scratch_ready sample_task current_maps"
    using deny_ready(2) [of sample_task]
    by (simp add: current_maps_def epoch_bumped_def scratch_ready_def mcp_get_scratch_def)
  moreover have "mcp_scope_matches sample_task current_maps"
    by (simp add: current_maps_def epoch_bumped_def deny_maps_def mcp_scope_matches_def
        mcp_config_def zero_config_def)
  ultimately show "examined reference_helpers sample_task current_maps"
    by (simp add: examined_def reference_laws)
qed (simp_all add: current_maps_def epoch_bumped_def deny_maps_def mcp_l2_policy_flags_def
    l1_hit_def loaded_maps_def created_maps_def zero_config_def)

theorem hits_are_current_witness:
  "\<exists>s v req. guard_reach reference_helpers 1 True s \<and>
     l1_hit sample_task (mcp_fill_cache_key sample_task MCP_GUARD_HOOK_FILE_READ 77) s = Some v \<and>
     caches_under req MCP_GUARD_HOOK_FILE_READ 77 \<and>
     cv_action v = d_action (policy_verdict reference_helpers req s)"
proof -
  let ?s = "snd (run_request reference_helpers sample_task (Req_open sample_file) 0 current_maps)"
  have reach: "guard_reach reference_helpers 1 True ?s"
    by (rule served [OF current_reach])
  obtain v where hit:
    "l1_hit sample_task (mcp_fill_cache_key sample_task MCP_GUARD_HOOK_FILE_READ 77) ?s = Some v"
    using open_caches_followups [OF current_maps_facts(1,2) reference_lru_keeps, of sample_file]
    by (auto simp: current_maps_facts(3,4) hook_hit_def mcp_file_resource_id_def sample_file_def)
  from hits_are_current [OF reference_strings_law reference_lru_law reach _ hit]
  obtain req where "caches_under req MCP_GUARD_HOOK_FILE_READ 77"
    "cv_action v = d_action (policy_verdict reference_helpers req ?s)" by auto
  with reach hit show ?thesis by blast
qed

section \<open>Socket addresses\<close>

lemma socket_id_inject:
  fixes a b :: u32 and p q :: u16
  assumes "(push_bit 16 (ucast a) OR ucast p :: u64) = push_bit 16 (ucast b) OR ucast q"
  shows "a = b \<and> p = q"
proof -
  have bits: "bit (push_bit 16 (ucast a) OR ucast p :: u64) n =
      bit (push_bit 16 (ucast b) OR ucast q :: u64) n" for n
    using assms by simp
  have "bit p n = bit q n" if "n < 16" for n
    using bits [of n] that by (simp add: bit_simps)
  moreover have "bit a n = bit b n" if "n < 32" for n
    using bits [of "n + 16"] that by (auto simp: bit_simps dest: bit_imp_le_length)
  ultimately show ?thesis by (auto intro!: bit_word_eqI)
qed

lemma same_socket:
  assumes "sa_family a = MCP_GUARD_AF_INET"
    and "fst (mcp_socket_resource_id b) = fst (mcp_socket_resource_id (Some a))"
    and "fst (mcp_socket_resource_id (Some a)) \<noteq> 0"
  obtains c where "b = Some c" "sa_family c = MCP_GUARD_AF_INET" "sin_addr c = sin_addr a"
    "sin_port c = sin_port a"
proof -
  from assms obtain c where c: "b = Some c" "sa_family c = MCP_GUARD_AF_INET"
    by (auto simp: mcp_socket_resource_id_def split: option.splits if_splits)
  with assms have "(push_bit 16 (ucast (sin_addr c)) OR ucast (bswap16 (sin_port c)) :: u64) =
      push_bit 16 (ucast (sin_addr a)) OR ucast (bswap16 (sin_port a))"
    by (simp add: mcp_socket_resource_id_def)
  from socket_id_inject [OF this] have "sin_addr c = sin_addr a" "sin_port c = sin_port a"
    by (auto dest: arg_cong [of _ _ bswap16])
  with c show thesis by (rule that)
qed

lemma caches_under_socket:
  "caches_under req MCP_GUARD_HOOK_SOCKET_CONNECT rid \<longleftrightarrow>
     (\<exists>address. req = Req_connect address \<and> rid = fst (mcp_socket_resource_id address))"
  by (cases req) (auto simp: permission_hook_def)

text \<open>C25. The resource id of a socket is exact: whatever shares a non-zero id with an IPv4
  address is an IPv4 address with the same address and the same port.\<close>

theorem socket_resource_id_exact:
  assumes "sa_family a = MCP_GUARD_AF_INET"
    and "fst (mcp_socket_resource_id b) = fst (mcp_socket_resource_id (Some a))"
    and "fst (mcp_socket_resource_id (Some a)) \<noteq> 0"
  shows "\<exists>c. b = Some c \<and> sa_family c = MCP_GUARD_AF_INET \<and> sin_addr c = sin_addr a \<and>
    sin_port c = sin_port a"
  using same_socket [OF assms] by blast

theorem socket_resource_id_exact_witness:
  "\<exists>c. sample_address = Some c \<and> sa_family c = MCP_GUARD_AF_INET \<and> sin_addr c = 0x0100007F \<and>
     sin_port c = 0x5000"
  using socket_resource_id_exact
    [of "\<lparr>sa_family = MCP_GUARD_AF_INET, sin_port = 0x5000, sin_addr = 0x0100007F\<rparr>" sample_address]
  by (simp add: sample_address_def mcp_socket_resource_id_def bswap16_def)

lemma reach_socket:
  assumes "strings_law h" and "lru_law (h_cache_update h)" and "guard_reach h n True s"
    and "n < 2 ^ 64" and "mcp_scope_matches tk s"
  shows "fst (run_socket_connect h tk address 0 s) =
    mcp_action_ret (d_action (policy_verdict h (Req_connect address) s)) s"
proof -
  let ?req = "Req_connect address"
  have ok: "system_ok h n True s" by (rule reach_system_ok [OF assms(1-4)])
  then have "examined h tk s" "pipelines_loaded s"
    using assms(1,5) by (simp_all add: system_ok_def examined_def)
  from request_outcome [OF this, of ?req]
  have ret: "fst (run_socket_connect h tk address 0 s) =
      mcp_action_ret (d_action (request_decision h tk ?req s)) s"
    by (simp add: outcome_ok_def)
  show ?thesis
  proof (cases "socket_hit tk address s")
    case None
    then show ?thesis using ret by (simp only: request_decision_cases) simp
  next
    case (Some d)
    then obtain a v where a: "address = Some a" "sa_family a = MCP_GUARD_AF_INET"
      and hit: "l1_hit tk (mcp_fill_cache_key tk MCP_GUARD_HOOK_SOCKET_CONNECT
          (fst (mcp_socket_resource_id address))) s = Some v" and d: "d = hit_decision v"
      by (auto simp: socket_hit_def hook_hit_def mcp_socket_resource_id_def case_prod_beta
          split: option.splits if_splits)
    from reach_hit [OF assms(1-4) hit] obtain b where
      b: "fst (mcp_socket_resource_id b) = fst (mcp_socket_resource_id address)"
      "fst (mcp_socket_resource_id address) \<noteq> 0"
      "cv_action v = d_action (policy_verdict h (Req_connect b) s)"
      by (auto simp: justified_def caches_under_socket)
    from same_socket [OF a(2) b(1,2) [unfolded a(1)]] obtain c where
      c: "b = Some c" "sa_family c = MCP_GUARD_AF_INET" "sin_addr c = sin_addr a"
      "sin_port c = sin_port a" .
    then have "policy_verdict h (Req_connect b) s = policy_verdict h ?req s"
      using a
      by (simp add: socket_safe_def socket_policy_def mcp_l2_socket_decide_def
          mcp_socket_resource_id_def)
    then have "d_action (request_decision h tk ?req s) = d_action (policy_verdict h ?req s)"
      using Some b(3) d by (simp only: request_decision_cases) simp
    then show ?thesis using ret by simp
  qed
qed

text \<open>C10. For sockets the cache is invisible: in every reachable state with no write since the
  last bump, \<^verbatim>\<open>socket_connect\<close> returns what the current policy says about the address,
  hit or miss.\<close>

theorem socket_cache_invisible:
  assumes "strings_law h" and "lru_law (h_cache_update h)" and "guard_reach h n True s"
    and "n < 2 ^ 64" and "mcp_scope_matches tk s"
  shows "fst (run_socket_connect h tk address 0 s) =
    mcp_action_ret (d_action (policy_verdict h (Req_connect address) s)) s"
  using assms by (rule reach_socket)

theorem socket_cache_invisible_witness:
  "fst (run_socket_connect reference_helpers sample_task sample_address 0 current_maps) =
   mcp_action_ret
     (d_action (policy_verdict reference_helpers (Req_connect sample_address) current_maps))
     current_maps"
  using socket_cache_invisible [OF reference_strings_law reference_lru_law current_reach,
      of sample_task sample_address] current_maps_facts(1)
  by (simp add: examined_def)

end
