(* ===== verification/Baseline.thy ===== *)
theory Baseline
  imports Coherence
begin

text \<open>
  The naive eBPF LSM guard of \<^verbatim>\<open>experiments/baselines/naive_ebpf_lsm/naive_guard.bpf.c\<close>, the
  baseline that the layered guard is measured against: one program per hook, no cache, no safe
  classes, no tail calls, no events.  It uses the rule tries of the guard, and the comparison is
  fair only if it decides alike: \<open>naive_agrees\<close>.
\<close>

section \<open>State\<close>

record baseline_config =
  bc_enforce :: u32
  bc_default_action :: u32
  bc_active_generation :: u32
  bc_reserved :: u32

record naive_state =
  nv_config :: "u32 \<rightharpoonup> baseline_config"
  nv_path :: path_trie
  nv_command :: command_trie
  nv_network :: network_trie
  nv_resource :: resource_hash
  nv_metrics :: "nat \<Rightarrow> u32 \<rightharpoonup> mcp_metric_value"
  nv_scratch :: "nat \<Rightarrow> u32 \<rightharpoonup> buffer"
  nv_ticks :: nat

definition get_baseline_config :: "naive_state \<Rightarrow> baseline_config option" where
  "get_baseline_config b = nv_config b 0"

definition get_baseline_scratch :: "task \<Rightarrow> naive_state \<Rightarrow> buffer option" where
  "get_baseline_scratch tk b = nv_scratch b (t_cpu tk) 0"

definition put_baseline_scratch :: "task \<Rightarrow> buffer \<Rightarrow> naive_state \<Rightarrow> naive_state" where
  "put_baseline_scratch tk path b =
     b\<lparr>nv_scratch := (nv_scratch b)(t_cpu tk := (nv_scratch b (t_cpu tk))(0 \<mapsto> path))\<rparr>"

definition naive_ktime :: "helpers \<Rightarrow> naive_state \<Rightarrow> u64 \<times> naive_state" where
  "naive_ktime h b = (h_ktime h (nv_ticks b), b\<lparr>nv_ticks := Suc (nv_ticks b)\<rparr>)"

section \<open>Configuration and metrics\<close>

definition baseline_action_valid :: "u32 \<Rightarrow> bool" where
  "baseline_action_valid action \<longleftrightarrow>
     action = MCP_GUARD_ACTION_ALLOW \<or> action = MCP_GUARD_ACTION_DENY \<or>
     action = MCP_GUARD_ACTION_AUDIT"

definition baseline_default_action :: "baseline_config option \<Rightarrow> u32" where
  "baseline_default_action cfg =
     (case cfg of
        None \<Rightarrow> MCP_GUARD_ACTION_ALLOW
      | Some c \<Rightarrow>
          if \<not> baseline_action_valid (bc_default_action c) then MCP_GUARD_ACTION_ALLOW
          else bc_default_action c)"

definition baseline_generation :: "baseline_config option \<Rightarrow> u32" where
  "baseline_generation cfg =
     (case cfg of
        None \<Rightarrow> 1
      | Some c \<Rightarrow> if bc_active_generation c = 0 then 1 else bc_active_generation c)"

definition metric_index :: "u32 \<Rightarrow> u32 \<Rightarrow> u32 \<Rightarrow> u32" where
  "metric_index hook_id layer action =
     push_bit 5 (hook_id AND 7) OR push_bit 2 (layer AND 7) OR (action AND 3)"

definition hist_bucket :: "u64 \<Rightarrow> nat" where
  "hist_bucket duration_ns =
     (if duration_ns < 100 then 0
      else if duration_ns < 500 then 1
      else if duration_ns < 1000 then 2
      else if duration_ns < 5000 then 3
      else if duration_ns < 10000 then 4
      else if duration_ns < 50000 then 5
      else if duration_ns < 100000 then 6
      else 7)"

definition record_metric ::
  "helpers \<Rightarrow> task \<Rightarrow> u32 \<Rightarrow> u32 \<Rightarrow> u64 \<Rightarrow> naive_state \<Rightarrow> naive_state" where
  "record_metric h tk hook_id action start_ns b0 =
     (let (now, b) = naive_ktime h b0;
          duration_ns = now - start_ns;
          index = metric_index hook_id MCP_GUARD_LAYER_L3 action;
          bucket = hist_bucket duration_ns
      in case nv_metrics b (t_cpu tk) index of
           None \<Rightarrow> b
         | Some m \<Rightarrow>
             let m' = m\<lparr>mv_count := mv_count m + 1,
                        mv_total_ns := mv_total_ns m + duration_ns,
                        mv_min_ns := (if mv_min_ns m = 0 \<or> duration_ns < mv_min_ns m
                                      then duration_ns else mv_min_ns m),
                        mv_max_ns := (if mv_max_ns m < duration_ns
                                      then duration_ns else mv_max_ns m),
                        mv_buckets := (mv_buckets m)[bucket := mv_buckets m ! bucket + 1]\<rparr>
             in b\<lparr>nv_metrics := (nv_metrics b)(t_cpu tk :=
                    (nv_metrics b (t_cpu tk))(index \<mapsto> m'))\<rparr>)"

definition naive_action_ret :: "baseline_config option \<Rightarrow> u32 \<Rightarrow> c_int" where
  "naive_action_ret cfg action =
     (if action = MCP_GUARD_ACTION_DENY \<and>
         (case cfg of None \<Rightarrow> True | Some c \<Rightarrow> bc_enforce c \<noteq> 0)
      then - MCP_GUARD_DENY_ERRNO else 0)"

section \<open>Reading kernel objects\<close>

definition naive_read_file_path :: "helpers \<Rightarrow> kfile option \<Rightarrow> buffer \<Rightarrow> c_int \<times> buffer" where
  "naive_read_file_path h file path =
     (case file of
        None \<Rightarrow> (- 1, path[0 := NUL])
      | Some f \<Rightarrow>
          let (ret, b) = h_d_path h path MCP_GUARD_PATH_LEN (f_path f) in
          if ret < 0 then (ret, b[0 := NUL]) else (0, b))"

definition naive_file_resource_id :: "kfile option \<Rightarrow> u64" where
  "naive_file_resource_id file =
     (case file of
        None \<Rightarrow> 0
      | Some f \<Rightarrow> (case f_inode f of None \<Rightarrow> 0 | Some ind \<Rightarrow> i_ino ind))"

section \<open>Decisions\<close>

text \<open>The four deciders return the action and the rule id.\<close>

definition baseline_command_decide ::
  "helpers \<Rightarrow> naive_state \<Rightarrow> baseline_config option \<Rightarrow> buffer option \<Rightarrow> u32 \<times> u32" where
  "baseline_command_decide h b cfg val =
     (let hook_mask = mcp_guard_hook_mask MCP_GUARD_HOOK_EXEC in
      case val of
        None \<Rightarrow> (baseline_default_action cfg, 0)
      | Some v \<Rightarrow>
          if v ! 0 = NUL then (baseline_default_action cfg, 0)
          else
            let key = \<lparr>clk_prefixlen = 32 + of_nat MCP_GUARD_RULE_VALUE_LEN * 8,
                       clk_generation = baseline_generation cfg,
                       clk_command = copy_until_nul MCP_GUARD_RULE_VALUE_LEN
                         (zeroed MCP_GUARD_RULE_VALUE_LEN) v\<rparr>
            in case h_command_lookup h (nv_command b) key of
                 None \<Rightarrow> (baseline_default_action cfg, 0)
               | Some rule \<Rightarrow>
                   if ipv_enabled rule \<noteq> 0 \<and> ipv_hook_mask rule AND hook_mask \<noteq> 0
                   then (if baseline_action_valid (ipv_action rule) then ipv_action rule
                         else MCP_GUARD_ACTION_DENY, ipv_rule_id rule)
                   else (baseline_default_action cfg, 0))"

definition baseline_path_decide ::
  "helpers \<Rightarrow> naive_state \<Rightarrow> baseline_config option \<Rightarrow> u32 \<Rightarrow> buffer option \<Rightarrow> u64 \<Rightarrow> u32 \<times> u32"
where
  "baseline_path_decide h b cfg hook_id path resource_id =
     (let hook_mask = mcp_guard_hook_mask hook_id in
      case path of
        None \<Rightarrow> (baseline_default_action cfg, 0)
      | Some p \<Rightarrow>
          if p ! 0 = NUL then (baseline_default_action cfg, 0)
          else
            let key = \<lparr>plk_prefixlen = 32 + of_nat MCP_GUARD_PATH_LPM_LEN * 8,
                       plk_generation = baseline_generation cfg,
                       plk_path = copy_until_nul MCP_GUARD_PATH_LPM_LEN
                         (zeroed MCP_GUARD_PATH_LPM_LEN) p\<rparr>
            in case h_path_lookup h (nv_path b) key of
                 None \<Rightarrow> (baseline_default_action cfg, 0)
               | Some rule \<Rightarrow>
                   if ppv_enabled rule \<noteq> 0 \<and> ppv_hook_mask rule AND hook_mask \<noteq> 0
                   then (if baseline_action_valid (ppv_action rule) then ppv_action rule
                         else MCP_GUARD_ACTION_DENY, ppv_rule_id rule)
                   else (baseline_default_action cfg, 0))"

definition baseline_resource_decide ::
  "naive_state \<Rightarrow> baseline_config option \<Rightarrow> u32 \<Rightarrow> u32 \<Rightarrow> u64 \<Rightarrow> u32 \<times> u32" where
  "baseline_resource_decide b cfg rule_type hook_id resource_id =
     (let hook_mask = mcp_guard_hook_mask hook_id in
      if resource_id = 0 then (baseline_default_action cfg, 0)
      else
        let key = \<lparr>rpk_generation = baseline_generation cfg, rpk_rule_type = rule_type,
                   rpk_resource_id = resource_id\<rparr>
        in case map_of (nv_resource b) key of
             None \<Rightarrow> (baseline_default_action cfg, 0)
           | Some rule \<Rightarrow>
               if ipv_enabled rule \<noteq> 0 \<and> ipv_hook_mask rule AND hook_mask \<noteq> 0
               then (if baseline_action_valid (ipv_action rule) then ipv_action rule
                     else MCP_GUARD_ACTION_DENY, ipv_rule_id rule)
               else (baseline_default_action cfg, 0))"

definition baseline_network_decide ::
  "helpers \<Rightarrow> naive_state \<Rightarrow> baseline_config option \<Rightarrow> u32 \<Rightarrow> u16 \<Rightarrow> u32 \<times> u32" where
  "baseline_network_decide h b cfg ipv4_addr port =
     (let hook_mask = mcp_guard_hook_mask MCP_GUARD_HOOK_SOCKET_CONNECT;
          key = \<lparr>nlk_prefixlen = 32 + 32 + 32, nlk_generation = baseline_generation cfg,
                 nlk_port = ucast port, nlk_ipv4_addr = ipv4_addr\<rparr>;
          rule = (case h_network_lookup h (nv_network b) key of
                    None \<Rightarrow> h_network_lookup h (nv_network b) (key\<lparr>nlk_port := 0\<rparr>)
                  | Some r \<Rightarrow> Some r)
      in case rule of
           None \<Rightarrow> (baseline_default_action cfg, 0)
         | Some rule \<Rightarrow>
             if ipv_enabled rule \<noteq> 0 \<and> ipv_hook_mask rule AND hook_mask \<noteq> 0
             then (if baseline_action_valid (ipv_action rule) then ipv_action rule
                   else MCP_GUARD_ACTION_DENY, ipv_rule_id rule)
             else (baseline_default_action cfg, 0))"

section \<open>Programs\<close>

definition naive_bprm_check_security ::
  "helpers \<Rightarrow> task \<Rightarrow> linux_binprm \<Rightarrow> c_int \<Rightarrow> naive_state \<Rightarrow> c_int \<times> naive_state" where
  "naive_bprm_check_security h tk bprm ret b0 =
     (let cfg = get_baseline_config b0;
          tmp = get_baseline_scratch tk b0;
          (start_ns, b1) = naive_ktime h b0
      in
      if ret \<noteq> 0 then (ret, b1)
      else case tmp of
        None \<Rightarrow> (0, record_metric h tk MCP_GUARD_HOOK_EXEC MCP_GUARD_ACTION_ALLOW start_ns b1)
      | Some path \<Rightarrow>
          let path1 = path[0 := NUL];
              path2 = (case bprm_filename bprm of
                         None \<Rightarrow> path1
                       | Some filename_ptr \<Rightarrow> h_read_str h path1 MCP_GUARD_PATH_LEN filename_ptr);
              b2 = put_baseline_scratch tk path2 b1;
              action = fst (baseline_command_decide h b2 cfg (Some path2))
          in (naive_action_ret cfg action,
              record_metric h tk MCP_GUARD_HOOK_EXEC action start_ns b2))"

definition naive_file_open ::
  "helpers \<Rightarrow> task \<Rightarrow> kfile option \<Rightarrow> c_int \<Rightarrow> naive_state \<Rightarrow> c_int \<times> naive_state" where
  "naive_file_open h tk file ret b0 =
     (let cfg = get_baseline_config b0;
          tmp = get_baseline_scratch tk b0;
          (start_ns, b1) = naive_ktime h b0;
          resource_id = naive_file_resource_id file
      in
      if ret \<noteq> 0 then (ret, b1)
      else
        let (action, b2) =
              (case tmp of
                 None \<Rightarrow> (baseline_default_action cfg, b1)
               | Some path \<Rightarrow>
                   let (err, path1) = naive_read_file_path h file path;
                       b2 = put_baseline_scratch tk path1 b1
                   in if err = 0
                      then (fst (baseline_path_decide h b2 cfg MCP_GUARD_HOOK_FILE_OPEN
                              (Some path1) resource_id), b2)
                      else (baseline_default_action cfg, b2))
        in (naive_action_ret cfg action,
            record_metric h tk MCP_GUARD_HOOK_FILE_OPEN action start_ns b2))"

definition naive_file_permission ::
  "helpers \<Rightarrow> task \<Rightarrow> kfile option \<times> u32 \<Rightarrow> c_int \<Rightarrow> naive_state \<Rightarrow> c_int \<times> naive_state" where
  "naive_file_permission h tk ctx ret b0 =
     (let (file, acc_mask) = ctx;
          cfg = get_baseline_config b0;
          (start_ns, b1) = naive_ktime h b0
      in
      if ret \<noteq> 0 then (ret, b1)
      else
        let writes = (acc_mask AND (MCP_GUARD_MAY_WRITE OR MCP_GUARD_MAY_APPEND) \<noteq> 0);
            hook_id = (if writes then MCP_GUARD_HOOK_FILE_WRITE else MCP_GUARD_HOOK_FILE_READ)
        in
        if \<not> writes \<and> acc_mask AND MCP_GUARD_MAY_READ = 0 then (0, b1)
        else
          let resource_id = naive_file_resource_id file;
              action = fst (baseline_resource_decide b1 cfg MCP_GUARD_RULE_PATH_PREFIX hook_id
                resource_id)
          in (naive_action_ret cfg action, record_metric h tk hook_id action start_ns b1))"

definition naive_socket_connect ::
  "helpers \<Rightarrow> task \<Rightarrow> sockaddr option \<Rightarrow> c_int \<Rightarrow> naive_state \<Rightarrow> c_int \<times> naive_state" where
  "naive_socket_connect h tk address ret b0 =
     (let cfg = get_baseline_config b0;
          (start_ns, b1) = naive_ktime h b0
      in
      if ret \<noteq> 0 then (ret, b1)
      else
        let action =
              (case address of
                 None \<Rightarrow> MCP_GUARD_ACTION_ALLOW
               | Some a \<Rightarrow>
                   if sa_family a = MCP_GUARD_AF_INET
                   then fst (baseline_network_decide h b1 cfg (sin_addr a) (bswap16 (sin_port a)))
                   else MCP_GUARD_ACTION_ALLOW)
        in (naive_action_ret cfg action,
            record_metric h tk MCP_GUARD_HOOK_SOCKET_CONNECT action start_ns b1))"

section \<open>The baseline and the guard\<close>

text \<open>The state a program reads: everything but the metrics and the clock count.\<close>

definition same_rules :: "naive_state \<Rightarrow> naive_state \<Rightarrow> bool" where
  "same_rules b b' \<longleftrightarrow>
     nv_config b' = nv_config b \<and> nv_path b' = nv_path b \<and> nv_command b' = nv_command b \<and>
     nv_network b' = nv_network b \<and> nv_resource b' = nv_resource b"

lemma same_rules_updates [simp]:
  "same_rules b b" "same_rules b (snd (naive_ktime h b')) \<longleftrightarrow> same_rules b b'"
  "same_rules b (put_baseline_scratch tk path b') \<longleftrightarrow> same_rules b b'"
  "same_rules b (record_metric h tk hook action start b') \<longleftrightarrow> same_rules b b'"
  by (simp_all add: same_rules_def naive_ktime_def put_baseline_scratch_def record_metric_def
      Let_def split: option.split)

text \<open>\<open>mirrors b s\<close>: the baseline holds the rules and the configuration of the guard's maps \<open>s\<close>.\<close>

definition mirrors :: "naive_state \<Rightarrow> bpf_state \<Rightarrow> bool" where
  "mirrors b s \<longleftrightarrow>
     nv_path b = path_policy_trie s \<and> nv_command b = command_policy_trie s \<and>
     nv_network b = network_policy_trie s \<and> nv_resource b = resource_policy_hash s \<and>
     (\<exists>bc cfg. nv_config b 0 = Some bc \<and> mcp_config s = Some cfg \<and> cfg_rule_count cfg \<noteq> 0 \<and>
        mcp_guard_action_valid (cfg_default_action cfg) \<and>
        bc_default_action bc = cfg_default_action cfg \<and>
        (bc_enforce bc \<noteq> 0 \<longleftrightarrow> cfg_enforce cfg \<noteq> 0) \<and>
        bc_active_generation bc = cfg_active_generation cfg \<and> cfg_active_generation cfg \<noteq> 0)"

text \<open>
  Requests that both guards decide by the rules: the layered one has its own answer for an
  executable without a name and for the safe classes, the baseline for an inode number 0, for an
  access that neither reads nor writes, and for a missing address.
\<close>

fun comparable :: "bpf_state \<Rightarrow> request \<Rightarrow> bool" where
  "comparable s (Req_exec bprm) \<longleftrightarrow> exec_name bprm \<noteq> []"
| "comparable s (Req_open f) \<longleftrightarrow> file_safe f MCP_GUARD_HOOK_FILE_OPEN s = None"
| "comparable s (Req_permission ctx) \<longleftrightarrow>
     file_safe (fst ctx) (permission_hook (snd ctx)) s = None \<and>
     mcp_file_resource_id (fst ctx) \<noteq> 0 \<and>
     snd ctx AND (MCP_GUARD_MAY_WRITE OR MCP_GUARD_MAY_APPEND OR MCP_GUARD_MAY_READ) \<noteq> 0"
| "comparable s (Req_connect address) \<longleftrightarrow> address \<noteq> None"

fun run_naive :: "helpers \<Rightarrow> task \<Rightarrow> request \<Rightarrow> c_int \<Rightarrow> naive_state \<Rightarrow> c_int \<times> naive_state" where
  "run_naive h tk (Req_exec bprm) ret b = naive_bprm_check_security h tk bprm ret b"
| "run_naive h tk (Req_open f) ret b = naive_file_open h tk f ret b"
| "run_naive h tk (Req_permission ctx) ret b = naive_file_permission h tk ctx ret b"
| "run_naive h tk (Req_connect address) ret b = naive_socket_connect h tk address ret b"

lemma mirrors_config:
  assumes "mirrors b s" and "same_rules b b'"
  obtains bc cfg where "get_baseline_config b = Some bc" "rules_config s = Some cfg"
    "baseline_default_action (Some bc) = mcp_policy_default_action s"
    "baseline_generation (Some bc) = cfg_active_generation cfg"
    "nv_path b' = path_policy_trie s" "nv_command b' = command_policy_trie s"
    "nv_network b' = network_policy_trie s" "nv_resource b' = resource_policy_hash s"
    "mcp_policy_enforced s \<longleftrightarrow> bc_enforce bc \<noteq> 0"
  using assms
  by (auto simp: mirrors_def same_rules_def get_baseline_config_def rules_config_def
      baseline_default_action_def mcp_policy_default_action_def baseline_generation_def
      baseline_action_valid_def mcp_guard_action_valid_def mcp_policy_enforced_def)

lemma rule_verdict_baseline:
  "(if baseline_action_valid a then a else MCP_GUARD_ACTION_DENY) = rule_verdict a"
  by (simp add: rule_verdict_def baseline_action_valid_def mcp_guard_action_valid_def)

text \<open>Each decider of the baseline is the guard's: the rule its lookup finds, else the default.\<close>

lemma baseline_decides:
  assumes "mirrors b s" and "same_rules b b'"
  shows "fst (baseline_path_decide h b' (get_baseline_config b) hook_id path rid) =
      d_action (policy_decision (path_found h hook_id path s) s)"
    "fst (baseline_command_decide h b' (get_baseline_config b) path) =
      d_action (policy_decision (command_found h MCP_GUARD_HOOK_EXEC path s) s)"
    "rid \<noteq> 0 \<Longrightarrow> fst (baseline_resource_decide b' (get_baseline_config b) ty hook_id rid) =
      d_action (policy_decision (resource_found ty hook_id rid s) s)"
    "fst (baseline_network_decide h b' (get_baseline_config b) addr port) =
      d_action (policy_decision (network_found h addr port s) s)"
    "baseline_default_action (get_baseline_config b) = mcp_policy_default_action s"
proof -
  from assms obtain bc cfg where facts: "get_baseline_config b = Some bc"
    "rules_config s = Some cfg" "baseline_default_action (Some bc) = mcp_policy_default_action s"
    "baseline_generation (Some bc) = cfg_active_generation cfg"
    "nv_path b' = path_policy_trie s" "nv_command b' = command_policy_trie s"
    "nv_network b' = network_policy_trie s" "nv_resource b' = resource_policy_hash s"
    by (rule mirrors_config)
  show "fst (baseline_path_decide h b' (get_baseline_config b) hook_id path rid) =
      d_action (policy_decision (path_found h hook_id path s) s)"
    by (simp add: baseline_path_decide_def path_found_def path_query_def facts live_rule_def
        rule_verdict_baseline Let_def split: option.split)
  show "fst (baseline_command_decide h b' (get_baseline_config b) path) =
      d_action (policy_decision (command_found h MCP_GUARD_HOOK_EXEC path s) s)"
    by (simp add: baseline_command_decide_def command_found_def command_query_def facts
        live_rule_def indexed_rule_def rule_verdict_baseline Let_def split: option.split)
  show "fst (baseline_resource_decide b' (get_baseline_config b) ty hook_id rid) =
      d_action (policy_decision (resource_found ty hook_id rid s) s)" if "rid \<noteq> 0"
    using that by (simp add: baseline_resource_decide_def resource_found_def facts live_rule_def
        indexed_rule_def rule_verdict_baseline Let_def split: option.split)
  show "fst (baseline_network_decide h b' (get_baseline_config b) addr port) =
      d_action (policy_decision (network_found h addr port s) s)"
    by (simp add: baseline_network_decide_def network_found_def network_query_def network_rule_def
        facts live_rule_def indexed_rule_def rule_verdict_baseline Let_def split: option.split)
  show "baseline_default_action (get_baseline_config b) = mcp_policy_default_action s"
    by (simp add: facts)
qed

lemma baseline_ret:
  assumes "mirrors b s" and "mcp_guard_action_valid action"
  shows "naive_action_ret (get_baseline_config b) action = mcp_action_ret action s"
  using assms(1)
proof (rule mirrors_config [OF _ same_rules_updates(1)])
  fix bc assume "get_baseline_config b = Some bc" "mcp_policy_enforced s \<longleftrightarrow> bc_enforce bc \<noteq> 0"
  then show ?thesis
    using assms(2) by (auto simp: naive_action_ret_def mcp_action_ret_def mcp_should_block_def)
qed

lemma naive_reads:
  "naive_read_file_path h f b = mcp_read_file_path h f b"
  "naive_file_resource_id f = mcp_file_resource_id f"
  by (simp_all add: naive_read_file_path_def mcp_read_file_path_def naive_file_resource_id_def
      mcp_file_resource_id_def)

lemma naive_exec_agrees:
  assumes h: "strings_law h" and b: "mirrors b s"
    and path: "get_baseline_scratch tk b = Some path" "length path = MCP_GUARD_PATH_LEN"
    and name: "exec_name bprm \<noteq> []"
  shows "fst (naive_bprm_check_security h tk bprm 0 b) =
    mcp_action_ret (d_action (policy_verdict h (Req_exec bprm) s)) s"
proof -
  define path2 where "path2 = mcp_read_bprm_filename h bprm path"
  have p: "length path2 = 256" "cstr path2 = exec_name bprm"
    using read_bprm_name [OF h] path(2) by (simp_all add: path2_def)
  have found: "command_found h 1 (Some path2) s = command_rule h 1 (exec_name bprm) s"
    using found_cstr(2) [OF p(1)] p(2) exec_name_short by simp
  have start: "fst (naive_bprm_check_security h tk bprm 0 b) =
      naive_action_ret (get_baseline_config b)
        (fst (baseline_command_decide h (put_baseline_scratch tk path2 (snd (naive_ktime h b)))
           (get_baseline_config b) (Some path2)))"
    using path(1)
    by (simp add: naive_bprm_check_security_def path2_def mcp_read_bprm_filename_def Let_def
        case_prod_beta cong: option.case_cong)
  show ?thesis
    unfolding start
    by (subst baseline_decides(2) [OF b], simp,
        subst baseline_ret [OF b policy_decision_valid])
      (simp add: name found)
qed

lemma naive_open_agrees:
  assumes h: "strings_law h" and b: "mirrors b s"
    and path: "get_baseline_scratch tk b = Some path" "length path = MCP_GUARD_PATH_LEN"
    and safe: "file_safe f MCP_GUARD_HOOK_FILE_OPEN s = None"
  shows "fst (naive_file_open h tk f 0 b) =
    mcp_action_ret (d_action (policy_verdict h (Req_open f) s)) s"
proof -
  obtain err path1 where read: "mcp_read_file_path h f path = (err, path1)"
    by (cases "mcp_read_file_path h f path")
  have p: "length path1 = 256" "cstr path1 = file_name f"
    using read_file_path_name [OF h, of path f] path(2) read by simp_all
  have found: "path_found h 2 (Some path1) s = path_rule h 2 (file_name f) s"
    using found_cstr(1) [OF p(1)] p(2) file_name_short by simp
  have empty: "path_found h 2 (Some path1) s = None" if "err \<noteq> 0"
  proof -
    have "path1 ! 0 = NUL"
      using that read p(1)
      by (auto simp: mcp_read_file_path_def path(2) split: option.splits if_splits prod.splits)
    then show ?thesis by (simp add: path_found_def split: option.split)
  qed
  define action where "action = d_action (policy_decision (path_found h 2 (Some path1) s) s)"
  have "fst (naive_file_open h tk f 0 b) = naive_action_ret (get_baseline_config b) action"
  proof (cases "err = 0")
    case True
    then have "fst (naive_file_open h tk f 0 b) =
        naive_action_ret (get_baseline_config b)
          (fst (baseline_path_decide h (put_baseline_scratch tk path1 (snd (naive_ktime h b)))
             (get_baseline_config b) 2 (Some path1) (mcp_file_resource_id f)))"
      using path(1) by (simp add: naive_file_open_def naive_reads read Let_def case_prod_beta)
    also have "fst (baseline_path_decide h (put_baseline_scratch tk path1 (snd (naive_ktime h b)))
             (get_baseline_config b) 2 (Some path1) (mcp_file_resource_id f)) = action"
      unfolding action_def by (rule baseline_decides(1) [OF b]) simp
    finally show ?thesis .
  next
    case False
    then show ?thesis
      using path(1) baseline_decides(5) [OF b same_rules_updates(1)] empty
      by (simp add: naive_file_open_def naive_reads read Let_def case_prod_beta action_def)
  qed
  then show ?thesis
    using baseline_ret [OF b policy_decision_valid, of "path_found h 2 (Some path1) s"] safe
    by (simp add: action_def found del: policy_decision_simps)
qed

lemma naive_permission_agrees:
  assumes b: "mirrors b s" and req: "comparable s (Req_permission ctx)"
  shows "fst (naive_file_permission h tk ctx 0 b) =
    mcp_action_ret (d_action (policy_verdict h (Req_permission ctx) s)) s"
proof -
  obtain f acc where ctx: "ctx = (f, acc)" by (cases ctx)
  have "acc AND 14 = (acc AND 10) OR (acc AND 4)"
    using word_ao_dist2 [of acc 10 4] by simp
  then have reads: "\<not> (acc AND 10 = 0 \<and> acc AND 4 = 0)" using req by (auto simp: ctx)
  have "fst (naive_file_permission h tk ctx 0 b) =
      naive_action_ret (get_baseline_config b)
        (fst (baseline_resource_decide (snd (naive_ktime h b)) (get_baseline_config b) 1
          (permission_hook acc) (mcp_file_resource_id f)))"
    using reads
    by (cases "acc AND 10 = 0")
      (simp_all add: naive_file_permission_def ctx naive_reads Let_def case_prod_beta
        permission_hook_def)
  also have "fst (baseline_resource_decide (snd (naive_ktime h b)) (get_baseline_config b) 1
          (permission_hook acc) (mcp_file_resource_id f)) =
      d_action (policy_decision (resource_found 1 (permission_hook acc) (mcp_file_resource_id f) s) s)"
    using req by (intro baseline_decides(3) [OF b]) (simp_all add: ctx)
  finally show ?thesis
    using req baseline_ret [OF b policy_decision_valid]
    by (simp add: ctx del: policy_decision_simps)
qed

lemma naive_connect_agrees:
  assumes b: "mirrors b s"
  shows "fst (naive_socket_connect h tk (Some a) 0 b) =
    mcp_action_ret (d_action (policy_verdict h (Req_connect (Some a)) s)) s"
proof (cases "sa_family a = MCP_GUARD_AF_INET")
  case True
  have "fst (naive_socket_connect h tk (Some a) 0 b) =
      naive_action_ret (get_baseline_config b)
        (fst (baseline_network_decide h (snd (naive_ktime h b)) (get_baseline_config b)
          (sin_addr a) (bswap16 (sin_port a))))"
    by (simp add: naive_socket_connect_def True Let_def case_prod_beta)
  also have "fst (baseline_network_decide h (snd (naive_ktime h b)) (get_baseline_config b)
          (sin_addr a) (bswap16 (sin_port a))) =
      d_action (policy_decision (network_found h (sin_addr a) (bswap16 (sin_port a)) s) s)"
    by (intro baseline_decides(4) [OF b]) simp
  finally show ?thesis
    using baseline_ret [OF b policy_decision_valid] True
    by (simp add: socket_policy_def mcp_socket_resource_id_def socket_safe_def
        mcp_l2_socket_decide_def del: policy_decision_simps)
next
  case False
  have "naive_action_ret (get_baseline_config b) 0 = mcp_action_ret 0 s"
    by (rule baseline_ret [OF b]) (simp add: mcp_guard_action_valid_def)
  with False show ?thesis
    by (simp add: naive_socket_connect_def Let_def case_prod_beta socket_safe_def
        mcp_l2_socket_decide_def safe_decision_def)
qed

section \<open>Properties\<close>

text \<open>C31. The baseline is a fair one: with the same rules and configuration, on every request that
  both guards decide by the rules, the naive guard returns what the layered guard returns when its
  cache misses.\<close>

theorem naive_agrees:
  assumes "strings_law h" and "mirrors b s" and "comparable s req"
    and "get_baseline_scratch tk b = Some path" and "length path = MCP_GUARD_PATH_LEN"
  shows "fst (run_naive h tk req 0 b) = mcp_action_ret (d_action (policy_verdict h req s)) s"
proof (cases req)
  case (Req_exec bprm)
  then show ?thesis using naive_exec_agrees [OF assms(1,2,4,5)] assms(3) by simp
next
  case (Req_open f)
  then show ?thesis using naive_open_agrees [OF assms(1,2,4,5)] assms(3) by simp
next
  case (Req_permission ctx)
  then show ?thesis using naive_permission_agrees [OF assms(2)] assms(3) by simp
next
  case (Req_connect address)
  then show ?thesis using naive_connect_agrees [OF assms(2)] assms(3) by auto
qed

definition sample_policy :: mcp_policy_config where
  "sample_policy =
     zero_config\<lparr>cfg_default_action := MCP_GUARD_ACTION_DENY, cfg_enforce := 1,
       cfg_rule_count := 1, cfg_active_generation := 1\<rparr>"

definition sample_naive :: naive_state where
  "sample_naive =
     \<lparr>nv_config = [0 \<mapsto> \<lparr>bc_enforce = 1, bc_default_action = MCP_GUARD_ACTION_DENY,
        bc_active_generation = 1, bc_reserved = 0\<rparr>],
      nv_path = [], nv_command = [], nv_network = [], nv_resource = [],
      nv_metrics = (\<lambda>cpu. array_of MCP_GUARD_METRIC_SLOTS zero_metric),
      nv_scratch = (\<lambda>cpu. [0 \<mapsto> zeroed MCP_GUARD_PATH_LEN]), nv_ticks = 0\<rparr>"

theorem naive_agrees_witness:
  "fst (run_naive reference_helpers sample_task (Req_exec sample_bprm) 0 sample_naive) =
   mcp_action_ret (d_action (policy_verdict reference_helpers (Req_exec sample_bprm)
     (loaded_maps\<lparr>policy_config := [0 \<mapsto> sample_policy]\<rparr>)))
     (loaded_maps\<lparr>policy_config := [0 \<mapsto> sample_policy]\<rparr>)"
proof (rule naive_agrees [OF reference_strings_law])
  show "mirrors sample_naive (loaded_maps\<lparr>policy_config := [0 \<mapsto> sample_policy]\<rparr>)"
    by (simp add: mirrors_def sample_naive_def sample_policy_def zero_config_def loaded_maps_def
        created_maps_def mcp_config_def mcp_guard_action_valid_def)
  show "comparable (loaded_maps\<lparr>policy_config := [0 \<mapsto> sample_policy]\<rparr>) (Req_exec sample_bprm)"
    by (simp add: exec_name_def sample_bprm_def)
  show "get_baseline_scratch sample_task sample_naive = Some (zeroed 256)"
    by (simp add: get_baseline_scratch_def sample_naive_def)
qed simp

end
