(* ===== verification/Maps.thy ===== *)
theory Maps
  imports Common
begin

text \<open>
  The \<^verbatim>\<open>bpf(2)\<close> operations that user space performs on a hash map or trie, and the loops of
  \<^verbatim>\<open>loader/policy_loader.c\<close> over them, which the source writes out once per map: iterate and copy
  (\<^verbatim>\<open>snapshot_*\<close>), iterate and delete (\<^verbatim>\<open>clear_*\<close>), update one entry after the other
  (\<^verbatim>\<open>write_*\<close>, \<^verbatim>\<open>restore_*\<close>).

  The kernel is a parameter: a record of operations on a map, which is the list of its entries in
  the order \<^verbatim>\<open>get_next_key\<close> visits them.  All but lookup also take the number of updates and
  deletions made so far, so that any call may fail at any time.  \<open>map_law\<close> states what the loader relies on.  An iteration
  that would never end is the value \<open>None\<close>.
\<close>

record ('k, 'v) map_ops =
  mo_update :: "nat \<Rightarrow> ('k \<times> 'v) list \<Rightarrow> 'k \<Rightarrow> 'v \<Rightarrow> c_int \<times> ('k \<times> 'v) list"
  mo_delete :: "nat \<Rightarrow> ('k \<times> 'v) list \<Rightarrow> 'k \<Rightarrow> c_int \<times> ('k \<times> 'v) list"
  mo_next :: "nat \<Rightarrow> ('k \<times> 'v) list \<Rightarrow> 'k option \<Rightarrow> 'k option"
  mo_lookup :: "('k \<times> 'v) list \<Rightarrow> 'k \<Rightarrow> 'v option"

section \<open>The loops\<close>

text \<open>\<open>fd < 0\<close> makes every system call fail; 9 is \<^verbatim>\<open>EBADF\<close>.\<close>

definition sys_update ::
  "c_int \<Rightarrow> ('k, 'v) map_ops \<Rightarrow> nat \<Rightarrow> ('k \<times> 'v) list \<Rightarrow> 'k \<Rightarrow> 'v \<Rightarrow> c_int \<times> ('k \<times> 'v) list" where
  "sys_update fd ops n m k v = (if fd < 0 then (9, m) else mo_update ops n m k v)"

text \<open>\<^verbatim>\<open>clear_path_generation\<close> and its kin: delete the keys of one generation, from the start again
  after each deletion.\<close>

partial_function (option) clear_generation_loop ::
  "('k, 'v) map_ops \<Rightarrow> ('k \<Rightarrow> u32) \<Rightarrow> u32 \<Rightarrow> 'k option \<Rightarrow> nat \<Rightarrow> ('k \<times> 'v) list \<Rightarrow>
   (nat \<times> ('k \<times> 'v) list) option" where
  "clear_generation_loop ops gen generation key n m =
     (case mo_next ops n m key of
        None \<Rightarrow> Some (n, m)
      | Some next_key \<Rightarrow>
          if gen next_key = generation
          then clear_generation_loop ops gen generation None (Suc n) (snd (mo_delete ops n m next_key))
          else clear_generation_loop ops gen generation (Some next_key) n m)"

definition clear_generation ::
  "c_int \<Rightarrow> ('k, 'v) map_ops \<Rightarrow> ('k \<Rightarrow> u32) \<Rightarrow> u32 \<Rightarrow> nat \<Rightarrow> ('k \<times> 'v) list \<Rightarrow>
   (nat \<times> ('k \<times> 'v) list) option" where
  "clear_generation fd ops gen generation n m =
     (if fd < 0 then Some (n, m) else clear_generation_loop ops gen generation None n m)"

text \<open>\<^verbatim>\<open>clear_path_trie\<close>, \<^verbatim>\<open>clear_comm_scopes\<close>, \<^verbatim>\<open>clear_id_scopes\<close>: delete the first key while
  there is one.\<close>

partial_function (option) clear_all_loop ::
  "('k, 'v) map_ops \<Rightarrow> nat \<Rightarrow> ('k \<times> 'v) list \<Rightarrow> (nat \<times> ('k \<times> 'v) list) option" where
  "clear_all_loop ops n m =
     (case mo_next ops n m None of
        None \<Rightarrow> Some (n, m)
      | Some key \<Rightarrow> clear_all_loop ops (Suc n) (snd (mo_delete ops n m key)))"

definition clear_all ::
  "c_int \<Rightarrow> ('k, 'v) map_ops \<Rightarrow> nat \<Rightarrow> ('k \<times> 'v) list \<Rightarrow> (nat \<times> ('k \<times> 'v) list) option" where
  "clear_all fd ops n m = (if fd < 0 then Some (n, m) else clear_all_loop ops n m)"

text \<open>\<^verbatim>\<open>snapshot_path_trie\<close> and its kin: copy at most \<open>limit\<close> entries.\<close>

partial_function (option) snapshot_loop ::
  "('k, 'v) map_ops \<Rightarrow> nat \<Rightarrow> nat \<Rightarrow> 'k option \<Rightarrow> ('k \<times> 'v) list \<Rightarrow> ('k \<times> 'v) list \<Rightarrow>
   (c_int + ('k \<times> 'v) list) option" where
  "snapshot_loop ops limit n key entries m =
     (case mo_next ops n m key of
        None \<Rightarrow> Some (Inr entries)
      | Some next_key \<Rightarrow>
          if limit \<le> length entries then Some (Inl (- 28))
          else
            (case mo_lookup ops m next_key of
               None \<Rightarrow> Some (Inl (- 2))
             | Some v \<Rightarrow> snapshot_loop ops limit n (Some next_key) (entries @ [(next_key, v)]) m))"

text \<open>The loops compute.\<close>

declare clear_generation_loop.simps [code] clear_all_loop.simps [code] snapshot_loop.simps [code]

definition snapshot_map ::
  "c_int \<Rightarrow> ('k, 'v) map_ops \<Rightarrow> nat \<Rightarrow> nat \<Rightarrow> ('k \<times> 'v) list \<Rightarrow> (c_int + ('k \<times> 'v) list) option" where
  "snapshot_map fd ops limit n m =
     (if fd < 0 then Some (Inr []) else snapshot_loop ops limit n None [] m)"

text \<open>What the writer of an index makes of a rule.\<close>

datatype ('k, 'v) write_step = Skip | Fail c_int | Entry 'k 'v

fun write_loop ::
  "c_int \<Rightarrow> ('k, 'v) map_ops \<Rightarrow> ('r \<Rightarrow> ('k, 'v) write_step) \<Rightarrow> 'r list \<Rightarrow> nat \<Rightarrow>
   ('k \<times> 'v) list \<Rightarrow> c_int \<times> nat \<times> ('k \<times> 'v) list" where
  "write_loop fd ops entry [] n m = (0, n, m)"
| "write_loop fd ops entry (r # rs) n m =
     (case entry r of
        Skip \<Rightarrow> write_loop fd ops entry rs n m
      | Fail err \<Rightarrow> (err, n, m)
      | Entry k v \<Rightarrow>
          let (errno, m') = sys_update fd ops n m k v in
          if errno \<noteq> 0 then (- errno, Suc n, m') else write_loop fd ops entry rs (Suc n) m')"

text \<open>Restoring scope entries goes on after a failure and keeps the first error.\<close>

fun update_all ::
  "c_int \<Rightarrow> ('k, 'v) map_ops \<Rightarrow> ('k \<times> 'v) list \<Rightarrow> c_int \<Rightarrow> nat \<Rightarrow> ('k \<times> 'v) list \<Rightarrow>
   c_int \<times> nat \<times> ('k \<times> 'v) list" where
  "update_all fd ops [] first_err n m = (first_err, n, m)"
| "update_all fd ops ((k, v) # entries) first_err n m =
     (let (errno, m') = sys_update fd ops n m k v in
      update_all fd ops entries
        (if errno \<noteq> 0 \<and> first_err = 0 then - errno else first_err) (Suc n) m')"

section \<open>What the loader relies on\<close>

text \<open>
  \<open>same\<close> says when two keys name the same entry: equality in a hash map, the same prefix of the
  same length in a trie.  A map never holds two entries of the same name.
\<close>

definition entries_ok :: "('k \<Rightarrow> 'k \<Rightarrow> bool) \<Rightarrow> ('k \<times> 'v) list \<Rightarrow> bool" where
  "entries_ok same m \<longleftrightarrow>
     distinct m \<and>
     (\<forall>k v k' v'. (k, v) \<in> set m \<longrightarrow> (k', v') \<in> set m \<longrightarrow> same k k' \<longrightarrow> (k, v) = (k', v'))"

definition put :: "('k \<Rightarrow> 'k \<Rightarrow> bool) \<Rightarrow> 'k \<times> 'v \<Rightarrow> ('k \<times> 'v) set \<Rightarrow> ('k \<times> 'v) set" where
  "put same e S = insert e {f \<in> S. \<not> same (fst e) (fst f)}"

definition update_law :: "('k \<Rightarrow> 'k \<Rightarrow> bool) \<Rightarrow> ('k, 'v) map_ops \<Rightarrow> bool" where
  "update_law same ops \<longleftrightarrow>
     (\<forall>n m k v. entries_ok same m \<longrightarrow>
        (if fst (mo_update ops n m k v) = 0
         then entries_ok same (snd (mo_update ops n m k v)) \<and>
           set (snd (mo_update ops n m k v)) = put same (k, v) (set m)
         else snd (mo_update ops n m k v) = m))"

definition delete_law :: "('k \<Rightarrow> 'k \<Rightarrow> bool) \<Rightarrow> ('k, 'v) map_ops \<Rightarrow> bool" where
  "delete_law same ops \<longleftrightarrow>
     (\<forall>n m k v. entries_ok same m \<longrightarrow> (k, v) \<in> set m \<longrightarrow>
        entries_ok same (snd (mo_delete ops n m k)) \<and>
        set (snd (mo_delete ops n m k)) = set m - {(k, v)})"

definition next_law :: "('k \<Rightarrow> 'k \<Rightarrow> bool) \<Rightarrow> ('k, 'v) map_ops \<Rightarrow> bool" where
  "next_law same ops \<longleftrightarrow>
     (\<forall>n m. entries_ok same m \<longrightarrow>
        mo_next ops n m None = (if m = [] then None else Some (fst (m ! 0))) \<and>
        (\<forall>i < length m. mo_next ops n m (Some (fst (m ! i))) =
           (if Suc i < length m then Some (fst (m ! Suc i)) else None)))"

definition lookup_law :: "('k \<Rightarrow> 'k \<Rightarrow> bool) \<Rightarrow> ('k, 'v) map_ops \<Rightarrow> bool" where
  "lookup_law same ops \<longleftrightarrow>
     (\<forall>m k v. entries_ok same m \<longrightarrow> (k, v) \<in> set m \<longrightarrow> mo_lookup ops m k = Some v)"

definition map_law :: "('k \<Rightarrow> 'k \<Rightarrow> bool) \<Rightarrow> ('k, 'v) map_ops \<Rightarrow> bool" where
  "map_law same ops \<longleftrightarrow>
     update_law same ops \<and> delete_law same ops \<and> next_law same ops \<and> lookup_law same ops"

lemma map_law_update:
  assumes "map_law same ops" and "entries_ok same m" and "mo_update ops n m k v = (r, m')"
  shows "if r = 0 then entries_ok same m' \<and> set m' = put same (k, v) (set m) else m' = m"
proof -
  from assms(1) have "update_law same ops" by (simp add: map_law_def)
  from this [unfolded update_law_def, rule_format, OF assms(2), of n k v]
  show ?thesis by (simp add: assms(3) cong: if_cong)
qed

lemma map_law_delete:
  assumes "map_law same ops" and "entries_ok same m" and "(k, v) \<in> set m"
  shows "entries_ok same (snd (mo_delete ops n m k))"
    "set (snd (mo_delete ops n m k)) = set m - {(k, v)}"
proof -
  from assms(1) have "delete_law same ops" by (simp add: map_law_def)
  from this [unfolded delete_law_def, rule_format, OF assms(2,3), of n]
  show "entries_ok same (snd (mo_delete ops n m k))"
    "set (snd (mo_delete ops n m k)) = set m - {(k, v)}" by simp_all
qed

lemma map_law_next:
  assumes "map_law same ops" and "entries_ok same m"
  shows "mo_next ops n m None = (if m = [] then None else Some (fst (m ! 0)))"
    "i < length m \<Longrightarrow> mo_next ops n m (Some (fst (m ! i))) =
       (if Suc i < length m then Some (fst (m ! Suc i)) else None)"
proof -
  from assms(1) have "next_law same ops" by (simp add: map_law_def)
  note law = this [unfolded next_law_def, rule_format, OF assms(2)]
  show "mo_next ops n m None = (if m = [] then None else Some (fst (m ! 0)))"
    using law by blast
  show "i < length m \<Longrightarrow> mo_next ops n m (Some (fst (m ! i))) =
       (if Suc i < length m then Some (fst (m ! Suc i)) else None)"
    using law by blast
qed

lemma map_law_lookup:
  "map_law same ops \<Longrightarrow> entries_ok same m \<Longrightarrow> (k, v) \<in> set m \<Longrightarrow> mo_lookup ops m k = Some v"
  by (simp add: map_law_def lookup_law_def)

lemma map_law_shorter:
  assumes "map_law same ops" and "entries_ok same m" and "(k, v) \<in> set m"
  shows "length (snd (mo_delete ops n m k)) < length m"
proof -
  have "distinct m" "distinct (snd (mo_delete ops n m k))"
    using assms(2) map_law_delete(1) [OF assms] by (auto simp: entries_ok_def)
  then have "length (snd (mo_delete ops n m k)) = card (set m - {(k, v)})"
    "length m = card (set m)"
    using map_law_delete(2) [OF assms, of n] by (simp_all add: distinct_card [symmetric])
  then show ?thesis using card_Diff1_less [OF _ assms(3)] by simp
qed

section \<open>The loops end, and what they leave\<close>

text \<open>The position an iteration has reached: the number of entries behind the current key.\<close>

definition at_position :: "('k \<times> 'v) list \<Rightarrow> 'k option \<Rightarrow> nat \<Rightarrow> bool" where
  "at_position m key i \<longleftrightarrow>
     i \<le> length m \<and> key = (if i = 0 then None else Some (fst (m ! (i - 1))))"

lemma at_position_next:
  assumes "map_law same ops" and "entries_ok same m" and "at_position m key i"
  shows "mo_next ops n m key = (if i < length m then Some (fst (m ! i)) else None)"
  using assms(3) map_law_next [OF assms(1,2)]
  by (cases i) (auto simp: at_position_def)

lemma at_position_step:
  "at_position m key i \<Longrightarrow> i < length m \<Longrightarrow> at_position m (Some (fst (m ! i))) (Suc i)"
  by (simp add: at_position_def)

lemma clear_generation_loop_ends:
  assumes law: "map_law same ops" and "entries_ok same m" and "at_position m key i"
    and "\<forall>j < i. gen (fst (m ! j)) \<noteq> generation"
  shows "\<exists>n' m'. clear_generation_loop ops gen generation key n m = Some (n', m') \<and> n \<le> n' \<and>
    entries_ok same m' \<and> set m' = {e \<in> set m. gen (fst e) \<noteq> generation}"
  using assms(2-)
proof (induction "length m" arbitrary: m i n key rule: less_induct)
  case less
  show ?case
    using less.prems(2,3)
  proof (induction "length m - i" arbitrary: i key)
    case 0
    then have i: "i = length m" by (simp add: at_position_def)
    then have "mo_next ops n m key = None"
      using at_position_next [OF law less.prems(1) 0(2)] by simp
    moreover have "gen (fst e) \<noteq> generation" if "e \<in> set m" for e
      using that 0(3) i by (metis in_set_conv_nth)
    ultimately show ?case
      using less.prems(1) by (auto simp: clear_generation_loop.simps [of ops gen generation key n m])
  next
    case (Suc d)
    then have i: "i < length m" by simp
    then have nxt: "mo_next ops n m key = Some (fst (m ! i))"
      using at_position_next [OF law less.prems(1) Suc.prems(1)] by simp
    let ?k = "fst (m ! i)"
    have mem: "(?k, snd (m ! i)) \<in> set m" using i by simp
    show ?case
    proof (cases "gen ?k = generation")
      case True
      let ?m' = "snd (mo_delete ops n m ?k)"
      note del = map_law_delete [OF law less.prems(1) mem, of n]
      have "at_position ?m' None 0" by (simp add: at_position_def)
      from less.hyps [OF map_law_shorter [OF law less.prems(1) mem] del(1) this, of "Suc n"]
      show ?thesis
        using True del(2)
        by (auto simp: clear_generation_loop.simps [of ops gen generation key n m] nxt)
    next
      case False
      have "at_position m (Some ?k) (Suc i)" by (rule at_position_step [OF Suc.prems(1) i])
      from Suc.hyps(1) [OF _ this] Suc.hyps(2) Suc.prems(2) False show ?thesis
        by (simp add: clear_generation_loop.simps [of ops gen generation key n m] nxt less_Suc_eq)
    qed
  qed
qed

lemma clear_generation_ends:
  assumes "map_law same ops" and "entries_ok same m" and "0 \<le> fd"
  obtains n' m' where "clear_generation fd ops gen generation n m = Some (n', m')" "n \<le> n'"
    "entries_ok same m'" "set m' = {e \<in> set m. gen (fst e) \<noteq> generation}"
  using clear_generation_loop_ends [OF assms(1,2), of None 0 gen generation n] assms(3)
  by (auto simp: clear_generation_def at_position_def)

lemma clear_all_ends:
  assumes law: "map_law same ops" and "entries_ok same m" and fd: "0 \<le> fd"
  shows "\<exists>n'. clear_all fd ops n m = Some (n', []) \<and> n \<le> n'"
proof -
  have "\<exists>n'. clear_all_loop ops n m = Some (n', []) \<and> n \<le> n'"
    using assms(2)
  proof (induction "length m" arbitrary: m n rule: less_induct)
    case less
    note nxt = map_law_next(1) [OF law less.prems]
    show ?case
    proof (cases m)
      case Nil
      then show ?thesis using nxt by (auto simp: clear_all_loop.simps [of ops n "[]"])
    next
      case (Cons e es)
      then have mem: "(fst e, snd e) \<in> set m" by simp
      from less.hyps [OF map_law_shorter [OF law less.prems mem, of n]
          map_law_delete(1) [OF law less.prems mem, of n], of "Suc n"]
      show ?thesis using nxt Cons by (auto simp: clear_all_loop.simps [of ops n "e # es"])
    qed
  qed
  then show ?thesis using fd by (simp add: clear_all_def)
qed

lemma snapshot_loop_ends:
  assumes law: "map_law same ops" and ok: "entries_ok same m" and "at_position m key i"
  shows "snapshot_loop ops limit n key (take i m) m =
    Some (if length m \<le> limit \<or> limit < i \<and> i = length m then Inr m else Inl (- 28))"
  using assms(3)
proof (induction "length m - i" arbitrary: i key)
  case 0
  then have i: "i = length m" by (simp add: at_position_def)
  then have "mo_next ops n m key = None"
    using at_position_next [OF law ok 0(2)] by simp
  then show ?case using i by (auto simp: snapshot_loop.simps [of ops limit n key])
next
  case (Suc d)
  then have i: "i < length m" by simp
  have nxt: "mo_next ops n m key = Some (fst (m ! i))"
    using at_position_next [OF law ok Suc.prems] i by simp
  have mem: "(fst (m ! i), snd (m ! i)) \<in> set m" using i by simp
  have "at_position m (Some (fst (m ! i))) (Suc i)" by (rule at_position_step [OF Suc.prems i])
  from Suc.hyps(1) [OF _ this] Suc.hyps(2)
  have "snapshot_loop ops limit n (Some (fst (m ! i))) (take i m @ [m ! i]) m =
      Some (if length m \<le> limit \<or> limit < Suc i \<and> Suc i = length m then Inr m else Inl (- 28))"
    using i by (simp add: take_Suc_conv_app_nth)
  then show ?case
    using i map_law_lookup [OF law ok mem]
    by (auto simp: snapshot_loop.simps [of ops limit n key] nxt)
qed

lemma snapshot_map_ends:
  assumes "map_law same ops" and "entries_ok same m" and "0 \<le> fd"
  shows "snapshot_map fd ops limit n m = Some (if length m \<le> limit then Inr m else Inl (- 28))"
  using snapshot_loop_ends [OF assms(1,2), of None 0 limit n] assms(3)
  by (auto simp: snapshot_map_def at_position_def)

lemma entries_ok_Nil [simp]: "entries_ok same []"
  by (simp add: entries_ok_def)

text \<open>The entries that a list of rules stands for.\<close>

definition entries_of :: "('r \<Rightarrow> ('k, 'v) write_step) \<Rightarrow> 'r list \<Rightarrow> ('k \<times> 'v) list" where
  "entries_of entry rs =
     concat (map (\<lambda>r. case entry r of Entry k v \<Rightarrow> [(k, v)] | _ \<Rightarrow> []) rs)"

lemma entries_of_simps [simp]:
  "entries_of entry [] = []"
  "entries_of entry (r # rs) =
     (case entry r of Entry k v \<Rightarrow> [(k, v)] | _ \<Rightarrow> []) @ entries_of entry rs"
  by (simp_all add: entries_of_def)

text \<open>
  A successful write leaves the old entries overwritten by the new ones in order; a failed write
  leaves them overwritten by some of the new ones.
\<close>

lemma write_loop_ok:
  assumes law: "map_law same ops" and fails: "\<forall>r e. entry r = Fail e \<longrightarrow> e \<noteq> 0"
    and "entries_ok same m" and "write_loop fd ops entry rs n m = (err, n', m')"
  shows "entries_ok same m' \<and>
    (\<exists>i \<le> length (entries_of entry rs).
       set m' = fold (put same) (take i (entries_of entry rs)) (set m) \<and>
       (err = 0 \<longrightarrow> i = length (entries_of entry rs)))"
  using assms(3,4)
proof (induction rs arbitrary: n m)
  case Nil
  then show ?case by simp
next
  case (Cons r rs)
  show ?case
  proof (cases "entry r")
    case Skip
    then show ?thesis using Cons by simp
  next
    case (Fail e)
    then show ?thesis using Cons.prems fails Fail by auto
  next
    case (Entry k v)
    obtain errno m1 where up: "sys_update fd ops n m k v = (errno, m1)"
      by (cases "sys_update fd ops n m k v")
    show ?thesis
    proof (cases "errno = 0")
      case True
      then have "mo_update ops n m k v = (0, m1)"
        using up by (auto simp: sys_update_def split: if_splits)
      from map_law_update [OF law Cons.prems(1) this] have m1: "entries_ok same m1"
        "set m1 = put same (k, v) (set m)" by simp_all
      have "write_loop fd ops entry rs (Suc n) m1 = (err, n', m')"
        using Cons.prems(2) Entry up True by simp
      from Cons.IH [OF m1(1) this] obtain i where "entries_ok same m'"
        "i \<le> length (entries_of entry rs)"
        "set m' = fold (put same) (take i (entries_of entry rs)) (set m1)"
        "err = 0 \<longrightarrow> i = length (entries_of entry rs)" by blast
      then show ?thesis using m1(2) Entry by (intro conjI exI [of _ "Suc i"]) simp_all
    next
      case False
      then have "m1 = m" "err \<noteq> 0" "m' = m1"
        using up map_law_update [OF law Cons.prems(1), of n k v errno m1] Cons.prems(2) Entry
        by (auto simp: sys_update_def split: if_splits)
      then show ?thesis using Cons.prems(1) by (intro conjI exI [of _ 0]) simp_all
    qed
  qed
qed

text \<open>A write that succeeds met no rule it refuses.\<close>

lemma write_loop_no_fail:
  assumes "\<forall>r e. entry r = Fail e \<longrightarrow> e \<noteq> 0"
    and "write_loop fd ops entry rs n m = (0, n', m')" and "r \<in> set rs"
  shows "entry r \<noteq> Fail e"
  using assms(2,3)
proof (induction rs arbitrary: n m)
  case Nil
  then show ?case by simp
next
  case (Cons r' rs)
  then show ?case
    using assms(1) by (auto split: write_step.splits prod.splits if_splits)
qed

text \<open>An entry stays until one of the same name is put.\<close>

lemma fold_put_keeps:
  "e \<in> S \<Longrightarrow> \<forall>f \<in> set es. \<not> same (fst f) (fst e) \<Longrightarrow> e \<in> fold (put same) es S"
  by (induction es arbitrary: S) (auto simp: put_def)

lemma fold_put_last:
  assumes "\<forall>f \<in> set ys. \<not> same (fst f) (fst e)"
  shows "e \<in> fold (put same) (xs @ e # ys) S"
proof -
  have "e \<in> put same e (fold (put same) xs S)" by (simp add: put_def)
  then show ?thesis by (simp add: fold_put_keeps assms)
qed

lemma fold_put_subset: "fold (put same) es S \<subseteq> S \<union> set es"
  by (induction es arbitrary: S) (auto simp: put_def)

section \<open>Room and faults\<close>

text \<open>
  A kernel with room for \<open>limit\<close> entries in the map and at most one fault: an update fails only
  when the map would grow beyond the limit, or when it is call number \<open>fault\<close>.
\<close>

definition room_law ::
  "nat \<Rightarrow> nat \<Rightarrow> ('k \<Rightarrow> 'k \<Rightarrow> bool) \<Rightarrow> ('k, 'v) map_ops \<Rightarrow> bool" where
  "room_law limit fault same ops \<longleftrightarrow>
     (\<forall>n m k v. n \<noteq> fault \<longrightarrow> entries_ok same m \<longrightarrow> card (put same (k, v) (set m)) \<le> limit \<longrightarrow>
        fst (mo_update ops n m k v) = 0)"

lemma put_subset: "put same e S \<subseteq> insert e S"
  by (auto simp: put_def)

lemma sys_update_room:
  assumes law: "map_law same ops" and room: "room_law limit fault same ops" and fd: "0 \<le> fd"
    and ok: "entries_ok same m" and card: "card (insert (k, v) (set m)) \<le> limit"
    and up: "sys_update fd ops n m k v = (errno, m1)"
  shows "(errno \<noteq> 0 \<longrightarrow> n = fault) \<and> entries_ok same m1 \<and> set m1 \<subseteq> insert (k, v) (set m) \<and>
    (errno = 0 \<longrightarrow> set m1 = put same (k, v) (set m))"
proof -
  have up': "mo_update ops n m k v = (errno, m1)" using up fd by (simp add: sys_update_def)
  have "card (put same (k, v) (set m)) \<le> limit"
    using card_mono [OF _ put_subset [of same "(k, v)" "set m"]] card by (simp add: le_trans)
  then have "errno \<noteq> 0 \<longrightarrow> n = fault"
    using room [unfolded room_law_def, rule_format, OF _ ok] up' by (metis fst_conv)
  then show ?thesis
    using map_law_update [OF law ok up'] ok put_subset [of same "(k, v)" "set m"]
    by (auto split: if_splits)
qed

lemma write_loop_room:
  assumes law: "map_law same ops" and room: "room_law limit fault same ops" and fd: "0 \<le> fd"
    and "entries_ok same m" and "\<forall>r \<in> set rs. \<forall>e. entry r \<noteq> Fail e"
    and "card (set m \<union> set (entries_of entry rs)) \<le> limit"
  shows "\<exists>err n' m'. write_loop fd ops entry rs n m = (err, n', m') \<and> n \<le> n' \<and>
    (err \<noteq> 0 \<longrightarrow> n \<le> fault \<and> fault < n')"
  using assms(4-6)
proof (induction rs arbitrary: n m)
  case Nil
  then show ?case by simp
next
  case (Cons r rs)
  show ?case
  proof (cases "entry r")
    case Skip
    then show ?thesis using Cons by simp
  next
    case (Fail e)
    then show ?thesis using Cons.prems(2) by simp
  next
    case (Entry k v)
    obtain errno m1 where up: "sys_update fd ops n m k v = (errno, m1)"
      by (cases "sys_update fd ops n m k v")
    have "card (insert (k, v) (set m)) \<le> limit"
      by (rule order.trans [OF card_mono Cons.prems(3)]) (auto simp: Entry)
    note m1 = sys_update_room [OF law room fd Cons.prems(1) this up]
    show ?thesis
    proof (cases "errno = 0")
      case True
      have "card (set m1 \<union> set (entries_of entry rs)) \<le> limit"
        using m1 by (intro order.trans [OF card_mono Cons.prems(3)]) (auto simp: Entry)
      from Cons.IH [OF _ _ this, of "Suc n"] m1 Cons.prems(2)
      obtain err n' m' where "write_loop fd ops entry rs (Suc n) m1 = (err, n', m')"
        "Suc n \<le> n'" "err \<noteq> 0 \<longrightarrow> Suc n \<le> fault \<and> fault < n'" by auto
      then show ?thesis using Entry up True by auto
    next
      case False
      then show ?thesis using Entry up m1 by simp
    qed
  qed
qed

text \<open>Restoring once the fault is behind.\<close>

lemma update_all_ok:
  assumes law: "map_law same ops" and room: "room_law limit fault same ops" and fd: "0 \<le> fd"
    and "entries_ok same m" and "fault < n" and "card (set m \<union> set es) \<le> limit"
  shows "\<exists>n' m'. n \<le> n' \<and> update_all fd ops es err n m = (err, n', m') \<and> entries_ok same m' \<and>
    set m' = fold (put same) es (set m)"
  using assms(4-6)
proof (induction es arbitrary: n m)
  case Nil
  then show ?case by simp
next
  case (Cons e es)
  obtain k v where e: "e = (k, v)" by (cases e)
  obtain errno m1 where up: "sys_update fd ops n m k v = (errno, m1)"
    by (cases "sys_update fd ops n m k v")
  have "card (insert (k, v) (set m)) \<le> limit"
    by (rule order.trans [OF card_mono Cons.prems(3)]) (auto simp: e)
  note m1 = sys_update_room [OF law room fd Cons.prems(1) this up]
  then have ok: "errno = 0" using Cons.prems(2) by auto
  have "card (set m1 \<union> set es) \<le> limit"
    using m1 by (intro order.trans [OF card_mono Cons.prems(3)]) (auto simp: e)
  from Cons.IH [OF _ _ this, of "Suc n"] m1 Cons.prems(2)
  obtain n' m' where "Suc n \<le> n'" "update_all fd ops es err (Suc n) m1 = (err, n', m')"
    "entries_ok same m'" "set m' = fold (put same) es (set m1)" by auto
  then show ?case using ok up m1 e by auto
qed

text \<open>Writing entries that do not overwrite one another.\<close>

lemma fold_put_distinct:
  "entries_ok same es \<Longrightarrow>
   fold (put same) es S = set es \<union> {f \<in> S. \<forall>e \<in> set es. \<not> same (fst e) (fst f)}"
proof (induction es arbitrary: S)
  case Nil
  then show ?case by simp
next
  case (Cons e es)
  then have "entries_ok same es" by (simp add: entries_ok_def)
  moreover have "\<not> same (fst f) (fst e)" if "f \<in> set es" for f
  proof
    assume same: "same (fst f) (fst e)"
    have "(fst f, snd f) \<in> set (e # es)" "(fst e, snd e) \<in> set (e # es)" using that by simp_all
    then have "f = e" using Cons.prems same unfolding entries_ok_def by (metis prod.collapse)
    then show False using Cons.prems that by (simp add: entries_ok_def)
  qed
  ultimately show ?case using Cons.IH [of "put same e S"] by (auto simp: put_def)
qed

end
