(* ===== verification/Json.thy ===== *)
theory Json
  imports Common
begin

text \<open>
  The text functions of \<^verbatim>\<open>loader/policy_loader.c\<close>: the string functions of the C library it
  calls, the field scanner \<^verbatim>\<open>json_field\<close> and the readers built on it.

  A \<^verbatim>\<open>char *\<close> into a NUL-terminated text is the list of the bytes from there to the
  terminator; the end of the list is the NUL.  A reader that fills a buffer returns the error
  code and the new contents of the buffer.
\<close>

section \<open>The C library\<close>

definition c_isspace :: "char \<Rightarrow> bool" where
  "c_isspace c \<longleftrightarrow> c \<in> {CHR '' '', CHR 0x09, CHR 0x0A, CHR 0x0B, CHR 0x0C, CHR 0x0D}"

fun is_prefix :: "string \<Rightarrow> string \<Rightarrow> bool" where
  "is_prefix [] s = True"
| "is_prefix (p # ps) [] = False"
| "is_prefix (p # ps) (c # cs) \<longleftrightarrow> p = c \<and> is_prefix ps cs"

fun strstr :: "string \<Rightarrow> string \<Rightarrow> string option" where
  "strstr [] pat = (if pat = [] then Some [] else None)"
| "strstr (c # cs) pat = (if is_prefix pat (c # cs) then Some (c # cs) else strstr cs pat)"

fun strchr :: "string \<Rightarrow> char \<Rightarrow> string option" where
  "strchr [] x = None"
| "strchr (c # cs) x = (if c = x then Some (c # cs) else strchr cs x)"

text \<open>The value of a digit of any base up to 36.\<close>

definition digit_value :: "char \<Rightarrow> nat option" where
  "digit_value c =
     (let n = (of_char c :: nat) in
      if 48 \<le> n \<and> n \<le> 57 then Some (n - 48)
      else if 97 \<le> n \<and> n \<le> 122 then Some (n - 87)
      else if 65 \<le> n \<and> n \<le> 90 then Some (n - 55)
      else None)"

definition is_digit :: "nat \<Rightarrow> char \<Rightarrow> bool" where
  "is_digit base c = (case digit_value c of None \<Rightarrow> False | Some d \<Rightarrow> d < base)"

definition digits_value :: "nat \<Rightarrow> string \<Rightarrow> nat" where
  "digits_value base ds = foldl (\<lambda>acc c. acc * base + the (digit_value c)) 0 ds"

definition skip_sign :: "string \<Rightarrow> bool \<times> string" where
  "skip_sign s =
     (case s of
        [] \<Rightarrow> (False, [])
      | c # cs \<Rightarrow>
          if c = CHR ''-'' then (True, cs) else if c = CHR ''+'' then (False, cs) else (False, s))"

text \<open>The base and the first digit when \<^verbatim>\<open>strtoul\<close> is called with base 0.\<close>

definition detect_base :: "string \<Rightarrow> nat \<times> string" where
  "detect_base s =
     (case s of
        z # x # d # rest \<Rightarrow>
          if z = CHR ''0'' \<and> (x = CHR ''x'' \<or> x = CHR ''X'') \<and> is_digit 16 d then (16, d # rest)
          else if z = CHR ''0'' then (8, s) else (10, s)
      | z # rest \<Rightarrow> if z = CHR ''0'' then (8, s) else (10, s)
      | [] \<Rightarrow> (10, s))"

text \<open>
  \<^verbatim>\<open>strtoul(s, &end, base)\<close> with a 64-bit \<^verbatim>\<open>unsigned long\<close>: \<open>errno\<close>, the value and \<open>end\<close>.
  A minus sign negates in the unsigned type; no digits leave \<open>end\<close> at \<open>s\<close>.
\<close>

definition strtoul :: "nat \<Rightarrow> string \<Rightarrow> c_int \<times> nat \<times> string" where
  "strtoul base s =
     (let (negative, s1) = skip_sign (dropWhile c_isspace s);
          (b, s2) = (if base = 0 then detect_base s1 else (base, s1));
          ds = takeWhile (is_digit b) s2;
          v = digits_value b ds
      in
      if ds = [] then (0, 0, s)
      else if 2 ^ 64 \<le> v then (34, 2 ^ 64 - 1, drop (length ds) s2)
      else (0, if negative then (2 ^ 64 - v) mod 2 ^ 64 else v, drop (length ds) s2))"

text \<open>\<^verbatim>\<open>atoi\<close>: \<^verbatim>\<open>strtol\<close> in base 10, clamped to 64 bits and cut to 32.\<close>

definition c_atoi :: "string \<Rightarrow> c_int" where
  "c_atoi s =
     (let (negative, s1) = skip_sign (dropWhile c_isspace s);
          v = int (digits_value 10 (takeWhile (is_digit 10) s1));
          w = (if negative then max (- (2 ^ 63)) (- v) else min (2 ^ 63 - 1) v)
      in signed_take_bit 31 w)"

text \<open>
  \<^verbatim>\<open>inet_pton(AF_INET, s)\<close>: four decimal numbers below 256 without leading zeros, separated by
  single dots; the result is \<^verbatim>\<open>s_addr\<close>, first octet in the lowest byte.
\<close>

definition octet_value :: "string \<Rightarrow> u32 option" where
  "octet_value s =
     (if s = [] \<or> \<not> list_all (is_digit 10) s then None
      else if hd s = CHR ''0'' \<and> 1 < length s then None
      else if 255 < digits_value 10 s then None
      else Some (of_nat (digits_value 10 s)))"

fun split_on :: "char \<Rightarrow> string \<Rightarrow> string list" where
  "split_on x [] = [[]]"
| "split_on x (c # cs) =
     (if c = x then [] # split_on x cs
      else (case split_on x cs of [] \<Rightarrow> [[c]] | w # ws \<Rightarrow> (c # w) # ws))"

definition inet_pton :: "string \<Rightarrow> u32 option" where
  "inet_pton s =
     (case map octet_value (split_on (CHR ''.'') s) of
        [Some a, Some b, Some c, Some d] \<Rightarrow>
          Some (a OR push_bit 8 b OR push_bit 16 c OR push_bit 24 d)
      | _ \<Rightarrow> None)"

section \<open>Reading fields\<close>

definition json_field :: "string \<Rightarrow> string \<Rightarrow> string option" where
  "json_field obj key =
     (let pattern = take 63 (CHR 0x22 # key @ [CHR 0x22]) in
      case strstr obj pattern of
        None \<Rightarrow> None
      | Some p \<Rightarrow>
          (case strchr (drop (length pattern) p) (CHR '':'') of
             None \<Rightarrow> None
           | Some q \<Rightarrow> Some (dropWhile c_isspace (tl q))))"

text \<open>
  The loop that copies a quoted string: at most \<open>n\<close> characters, a backslash taking the next
  character as it is.  The results are what was copied and what is left.
\<close>

fun quoted_loop :: "nat \<Rightarrow> string \<Rightarrow> string \<times> string" where
  "quoted_loop 0 p = ([], p)"
| "quoted_loop (Suc n) [] = ([], [])"
| "quoted_loop (Suc n) (c # p) =
     (if c = CHR 0x22 then ([], c # p)
      else if c = CHR 0x5C \<and> p \<noteq> [] then
        (let (out, rest) = quoted_loop n (tl p) in (hd p # out, rest))
      else (let (out, rest) = quoted_loop n p in (c # out, rest)))"

definition json_get_string :: "string \<Rightarrow> string \<Rightarrow> buffer \<Rightarrow> nat \<Rightarrow> c_int \<times> buffer" where
  "json_get_string obj key out out_len =
     (case json_field obj key of
        None \<Rightarrow> (- 2, out)
      | Some p \<Rightarrow>
          if p = [] \<or> hd p \<noteq> CHR 0x22 then (- 2, out)
          else
            let copied = fst (quoted_loop (out_len - 1) (tl p));
                out' = copied @ NUL # drop (Suc (length copied)) out
            in (if copied \<noteq> [] then 0 else - 2, out'))"

definition json_get_u32 :: "string \<Rightarrow> string \<Rightarrow> u32 \<Rightarrow> c_int \<times> u32" where
  "json_get_u32 obj key out =
     (case json_field obj key of
        None \<Rightarrow> (- 2, out)
      | Some p \<Rightarrow>
          let (errno, v, endp) = strtoul 0 p in
          if errno \<noteq> 0 \<or> endp = p \<or> v > 2 ^ 32 - 1 then (- 22, out)
          else (0, of_nat v))"

definition skip_separators :: "string \<Rightarrow> string" where
  "skip_separators = dropWhile (\<lambda>c. c_isspace c \<or> c = CHR '','')"

definition strtoul_end :: "string \<Rightarrow> string" where
  "strtoul_end s = snd (snd (strtoul 0 s))"

lemma skip_sign_length: "length (snd (skip_sign s)) \<le> length s"
  by (simp add: skip_sign_def split: list.split)

lemma detect_base_length: "length (snd (detect_base s)) \<le> length s"
  by (simp add: detect_base_def split: list.split)

lemma strtoul_end_shorter:
  assumes "strtoul_end s \<noteq> s"
  shows "length (strtoul_end s) < length s"
proof -
  let ?s1 = "snd (skip_sign (dropWhile c_isspace s))"
  let ?s2 = "snd (detect_base ?s1)" and ?b = "fst (detect_base ?s1)"
  let ?ds = "takeWhile (is_digit ?b) ?s2"
  have "length ?s2 \<le> length s"
    using detect_base_length [of ?s1] skip_sign_length [of "dropWhile c_isspace s"]
      length_dropWhile_le [of c_isspace s] by linarith
  moreover have ds: "?ds \<noteq> []" "strtoul_end s = drop (length ?ds) ?s2"
    using assms by (auto simp: strtoul_end_def strtoul_def Let_def case_prod_beta split: if_splits)
  moreover have "length ?ds \<le> length ?s2" by (rule length_takeWhile_le)
  moreover have "0 < length ?ds" using ds(1) by blast
  moreover have "length (strtoul_end s) = length ?s2 - length ?ds" unfolding ds(2) by simp
  ultimately show ?thesis by linarith
qed

text \<open>
  The array readers return the values read; the caller gives up when they fail, so what they
  have written until then is dead.
\<close>

function u32_array_loop :: "nat \<Rightarrow> u32 list \<Rightarrow> string \<Rightarrow> c_int + u32 list" where
  "u32_array_loop max_count acc p =
     (if p = [] then Inl (- 22)
      else
        let q = skip_separators p in
        if q \<noteq> [] \<and> hd q = CHR '']'' then Inr acc
        else if length acc \<ge> max_count then Inl (- 28)
        else if fst (strtoul 0 q) \<noteq> 0 \<or> strtoul_end q = q \<or>
                fst (snd (strtoul 0 q)) > 2 ^ 32 - 1 then Inl (- 22)
        else u32_array_loop max_count (acc @ [of_nat (fst (snd (strtoul 0 q)))]) (strtoul_end q))"
  by pat_completeness auto
termination
proof (relation "measure (\<lambda>(n, acc, p). length p)", simp, goal_cases)
  case (1 max_count acc p q)
  then have "length (strtoul_end q) < length q"
    by (intro strtoul_end_shorter) simp
  moreover have "length q \<le> length p"
    using 1 by (simp add: skip_separators_def length_dropWhile_le)
  ultimately show ?case by simp
qed

definition json_get_u32_array :: "string \<Rightarrow> string \<Rightarrow> nat \<Rightarrow> c_int + u32 list" where
  "json_get_u32_array obj key max_count =
     (case json_field obj key of
        None \<Rightarrow> Inr []
      | Some p \<Rightarrow>
          if p = [] \<or> hd p \<noteq> CHR ''['' then Inl (- 22) else u32_array_loop max_count [] (tl p))"

lemma quoted_loop_rest: "length (snd (quoted_loop n p)) \<le> length p"
proof (induction n p rule: quoted_loop.induct)
  case (3 n c p)
  then show ?case by (cases p) (auto simp: case_prod_beta)
qed auto

lemma consumed:
  "length r \<le> length (tl q) \<Longrightarrow> length q \<le> length p \<Longrightarrow> r \<noteq> [] \<Longrightarrow> length (tl r) < length p"
  by (cases q; cases r) auto

function string_array_loop ::
  "nat \<Rightarrow> mcp_comm_scope_key list \<Rightarrow> string \<Rightarrow> c_int + mcp_comm_scope_key list" where
  "string_array_loop max_count acc p =
     (if p = [] then Inl (- 22)
      else
        let q = skip_separators p in
        if q \<noteq> [] \<and> hd q = CHR '']'' then Inr acc
        else if q = [] \<or> hd q \<noteq> CHR 0x22 \<or> length acc \<ge> max_count then Inl (- 22)
        else
          let copied = fst (quoted_loop (MCP_GUARD_COMM_LEN - 1) (tl q));
              rest = snd (quoted_loop (MCP_GUARD_COMM_LEN - 1) (tl q))
          in
          if rest = [] \<or> hd rest \<noteq> CHR 0x22 then Inl (- 22)
          else string_array_loop max_count
                 (acc @ [\<lparr>csk_comm = padded MCP_GUARD_COMM_LEN copied\<rparr>]) (tl rest))"
  by pat_completeness auto
termination
proof (relation "measure (\<lambda>(n, acc, p). length p)", simp, goal_cases)
  case (1 max_count acc p q copied rest)
  then have "length rest \<le> length (tl q)" and "rest \<noteq> []"
    using quoted_loop_rest by blast+
  moreover have "length q \<le> length p"
    using 1 by (simp add: skip_separators_def length_dropWhile_le)
  ultimately show ?case by (simp add: consumed del: length_tl)
qed

definition json_get_string_array ::
  "string \<Rightarrow> string \<Rightarrow> nat \<Rightarrow> c_int + mcp_comm_scope_key list" where
  "json_get_string_array obj key max_count =
     (case json_field obj key of
        None \<Rightarrow> Inr []
      | Some p \<Rightarrow>
          if p = [] \<or> hd p \<noteq> CHR ''['' then Inl (- 22)
          else string_array_loop max_count [] (tl p))"

definition json_get_bool :: "string \<Rightarrow> string \<Rightarrow> u32 \<Rightarrow> c_int \<times> u32" where
  "json_get_bool obj key out =
     (case json_field obj key of
        None \<Rightarrow> (- 2, out)
      | Some p \<Rightarrow>
          if is_prefix ''true'' p then (0, 1)
          else if is_prefix ''false'' p then (0, 0)
          else (- 22, out))"

definition json_update_flag :: "string \<Rightarrow> string \<Rightarrow> u32 \<Rightarrow> u32 \<Rightarrow> u32" where
  "json_update_flag obj key flag flags =
     (case json_get_bool obj key 0 of
        (err, enabled) \<Rightarrow>
          if err \<noteq> 0 then flags
          else if enabled \<noteq> 0 then flags OR flag else flags AND NOT flag)"

type_synonym flag_spec = "string \<times> u32"

definition config_flag_specs :: "flag_spec list" where
  "config_flag_specs =
     [(''skip_dir_read'', MCP_GUARD_POLICY_F_SKIP_DIR_READ),
      (''cache_file_followups'', MCP_GUARD_POLICY_F_CACHE_FILE_FOLLOWUPS),
      (''deny_tailcall_fail'', MCP_GUARD_POLICY_F_DENY_TAILCALL_FAIL),
      (''skip_l2_safe'', MCP_GUARD_POLICY_F_SKIP_L2_SAFE)]"

definition rule_flag_specs :: "flag_spec list" where
  "rule_flag_specs = [(''skip_l2_safe'', MCP_GUARD_RULE_F_SKIP_L2_SAFE)]"

text \<open>\<open>None\<close> stands for \<^verbatim>\<open>-ENOENT\<close>.\<close>

fun flag_value_by_name :: "flag_spec list \<Rightarrow> string \<Rightarrow> u32 option" where
  "flag_value_by_name [] name = None"
| "flag_value_by_name ((n, v) # specs) name =
     (if n = name then Some v else flag_value_by_name specs name)"

function flag_array_loop :: "flag_spec list \<Rightarrow> u32 \<Rightarrow> string \<Rightarrow> c_int \<times> u32" where
  "flag_array_loop specs flags p =
     (if p = [] then (- 22, flags)
      else
        let q = skip_separators p in
        if q \<noteq> [] \<and> hd q = CHR '']'' then (0, flags)
        else if q = [] \<or> hd q \<noteq> CHR 0x22 then (- 22, flags)
        else
          let name = fst (quoted_loop 63 (tl q)); rest = snd (quoted_loop 63 (tl q)) in
          if rest = [] \<or> hd rest \<noteq> CHR 0x22 then (- 22, flags)
          else
            case flag_value_by_name specs name of
              None \<Rightarrow> (- 22, flags)
            | Some flag \<Rightarrow> flag_array_loop specs (flags OR flag) (tl rest))"
  by pat_completeness auto
termination
proof (relation "measure (\<lambda>(specs, flags, p). length p)", simp, goal_cases)
  case (1 specs flags p q name rest flag)
  then have "length rest \<le> length (tl q)" and "rest \<noteq> []"
    using quoted_loop_rest by blast+
  moreover have "length q \<le> length p"
    using 1 by (simp add: skip_separators_def length_dropWhile_le)
  ultimately show ?case by (simp add: consumed del: length_tl)
qed

definition json_apply_flag_array :: "string \<Rightarrow> flag_spec list \<Rightarrow> u32 \<Rightarrow> c_int \<times> u32" where
  "json_apply_flag_array obj specs flags =
     (case json_field obj ''flags'' of
        None \<Rightarrow> (0, flags)
      | Some p \<Rightarrow>
          if p = [] \<or> hd p \<noteq> CHR ''['' then (- 22, flags) else flag_array_loop specs flags (tl p))"

declare u32_array_loop.simps [simp del]
declare string_array_loop.simps [simp del]
declare flag_array_loop.simps [simp del]

section \<open>Decimal numbers\<close>

lemma digit_char:
  assumes "d < 10"
  shows "digit_value (char_of (48 + d)) = Some d"
proof -
  have "of_char (char_of (48 + d) :: char) = 48 + d"
    using assms by (simp only: of_char_of) simp
  then show ?thesis using assms by (simp add: digit_value_def)
qed

lemma decimal_digits: "list_all (is_digit 10) (decimal n)"
proof (induction n rule: decimal.induct)
  case (1 n)
  have "is_digit 10 (char_of (48 + d))" if "d < 10" for d :: nat
    using that by (simp add: is_digit_def digit_char)
  then show ?case using 1 by (subst decimal.simps) simp
qed

lemma decimal_nonempty: "decimal n \<noteq> []"
  by (subst decimal.simps) simp

lemma digits_value_snoc:
  "digits_value base (ds @ [c]) = digits_value base ds * base + the (digit_value c)"
  by (simp add: digits_value_def)

lemma decimal_value: "digits_value 10 (decimal n) = n"
proof (induction n rule: decimal.induct)
  case (1 n)
  show ?case
  proof (cases "n < 10")
    case True
    then show ?thesis by (subst decimal.simps) (simp add: digits_value_def digit_char)
  next
    case False
    then show ?thesis using 1
      by (subst decimal.simps) (simp add: digits_value_snoc digit_char)
  qed
qed

text \<open>\<^verbatim>\<open>strtoul\<close> reads back what \<^verbatim>\<open>%u\<close> prints, up to the first character that is no digit.\<close>

lemma digit_start:
  assumes "is_digit 10 c"
  shows "\<not> c_isspace c" "c \<noteq> CHR ''-''" "c \<noteq> CHR ''+''"
  using assms by (auto simp: is_digit_def digit_value_def c_isspace_def)

lemma strtoul_decimal:
  assumes "n < 2 ^ 64" and "rest = [] \<or> \<not> is_digit 10 (hd rest)"
  shows "strtoul 10 (decimal n @ rest) = (0, n, rest)"
proof -
  obtain c cs where c: "decimal n = c # cs" using decimal_nonempty [of n] by (cases "decimal n") auto
  have all: "\<And>x. x \<in> set (decimal n) \<Longrightarrow> is_digit 10 x"
    using decimal_digits [of n] by (simp add: list_all_iff)
  then have "is_digit 10 c" by (simp add: c)
  note start = digit_start [OF this]
  have "takeWhile (is_digit 10) (decimal n @ rest) = decimal n"
    using assms(2) all by (cases rest) (simp_all add: takeWhile_append2)
  moreover have "skip_sign (dropWhile c_isspace (decimal n @ rest)) = (False, decimal n @ rest)"
    using start by (simp add: c skip_sign_def)
  ultimately show ?thesis
    using assms(1) decimal_nonempty [of n] by (simp add: strtoul_def decimal_value)
qed

lemma decimal_head: "0 < n \<Longrightarrow> hd (decimal n) \<noteq> CHR ''0''"
proof (induction n rule: decimal.induct)
  case (1 n)
  show ?case
  proof (cases "n < 10")
    case True
    have "digit_value (hd (decimal n)) = Some n"
      using True by (subst decimal.simps) (simp add: digit_char)
    then show ?thesis using 1(2) by (auto simp: digit_value_def)
  next
    case False
    then have "hd (decimal n) = hd (decimal (n div 10))"
      using decimal_nonempty [of "n div 10"] by (subst decimal.simps) simp
    then show ?thesis using 1(1) [OF False] False by simp
  qed
qed

lemma octet_value_decimal:
  assumes "n < 256"
  shows "octet_value (decimal n) = Some (of_nat n)"
proof -
  have "\<not> (hd (decimal n) = CHR ''0'' \<and> 1 < length (decimal n))"
    using decimal_head [of n] by (cases "n = 0") (auto simp: decimal.simps)
  then show ?thesis
    using assms decimal_nonempty decimal_digits decimal_value by (simp add: octet_value_def)
qed

lemma split_on_word:
  "x \<notin> set w \<Longrightarrow> split_on x (w @ x # rest) = w # split_on x rest"
  "x \<notin> set w \<Longrightarrow> split_on x w = [w]"
  by (induction w) auto

end
