(* ===== verification/Rule_Files.thy ===== *)
theory Rule_Files
  imports Json Boot
begin

text \<open>
  The policy files of \<^verbatim>\<open>loader/policy_loader.c\<close>: parsing of actions, CIDR blocks and paths,
  \<open>load_rule_file\<close>, \<open>load_config_file\<close> and \<open>load_profile_file\<close> with the state they fill, and
  \<open>validate_policy_state\<close>.

  The file system is a parameter (\<open>file_system\<close>): what the calls of the C library answer for the
  file of a path, and the inode number \<^verbatim>\<open>stat\<close> finds.
\<close>

section \<open>Files\<close>

text \<open>
  The outcomes of \<^verbatim>\<open>fopen\<close>, \<^verbatim>\<open>fseek\<close> (an \<open>errno\<close> of 0 is success), \<^verbatim>\<open>ftell\<close> and \<^verbatim>\<open>calloc\<close>, the bytes
  that \<^verbatim>\<open>fread\<close> finds, and the error, if any, that it sets.
\<close>

record stdio_file =
  io_open :: c_int
  io_seek :: c_int
  io_tell :: "c_int + nat"
  io_calloc :: bool
  io_bytes :: string
  io_error :: "c_int option"

record file_system =
  fs_file :: "string \<Rightarrow> stdio_file"
  fs_stat :: "string \<Rightarrow> u64 option"

definition read_text_file :: "file_system \<Rightarrow> string \<Rightarrow> c_int + string" where
  "read_text_file fs path =
     (let file = fs_file fs path in
      if io_open file \<noteq> 0 then Inl (- io_open file)
      else if io_seek file \<noteq> 0 then Inl (- io_seek file)
      else
        case io_tell file of
          Inl errno \<Rightarrow> Inl (- errno)
        | Inr len \<Rightarrow>
            let bytes = take len (io_bytes file) in
            if \<not> io_calloc file then Inl (- 12)
            else if 0 < len \<and> length bytes \<noteq> len
            then Inl (case io_error file of Some errno \<Rightarrow> - errno | None \<Rightarrow> - 5)
            else Inr bytes)"

text \<open>A file that shrinks between \<^verbatim>\<open>ftell\<close> and \<^verbatim>\<open>fread\<close> is refused, never read in part.\<close>

lemma read_text_file_whole:
  assumes "read_text_file fs path = Inr bytes"
  shows "io_tell (fs_file fs path) = Inr (length bytes)"
    "bytes = take (length bytes) (io_bytes (fs_file fs path))"
  using assms by (auto simp: read_text_file_def Let_def split: if_splits sum.splits)

definition regular_file :: "string \<Rightarrow> stdio_file" where
  "regular_file bytes =
     \<lparr>io_open = 0, io_seek = 0, io_tell = Inr (length bytes), io_calloc = True, io_bytes = bytes,
      io_error = None\<rparr>"

definition missing_file :: stdio_file where
  "missing_file = (regular_file [])\<lparr>io_open := 2\<rparr>"

section \<open>Values of rules\<close>

definition parse_action :: "buffer \<Rightarrow> u32" where
  "parse_action v =
     (if cstr v = ''deny'' then MCP_GUARD_ACTION_DENY
      else if cstr v = ''audit'' then MCP_GUARD_ACTION_AUDIT
      else MCP_GUARD_ACTION_ALLOW)"

definition default_hook_mask :: "u32 \<Rightarrow> u32" where
  "default_hook_mask rule_type =
     (if rule_type = MCP_GUARD_RULE_COMMAND_PREFIX then mcp_guard_hook_mask MCP_GUARD_HOOK_EXEC
      else if rule_type = MCP_GUARD_RULE_IPV4_CONNECT then
        mcp_guard_hook_mask MCP_GUARD_HOOK_SOCKET_CONNECT
      else
        mcp_guard_hook_mask MCP_GUARD_HOOK_FILE_OPEN OR
        mcp_guard_hook_mask MCP_GUARD_HOOK_FILE_READ OR
        mcp_guard_hook_mask MCP_GUARD_HOOK_FILE_WRITE)"

text \<open>The result is the address and the mask, both in network order.\<close>

definition parse_ipv4_cidr :: "buffer \<Rightarrow> c_int + u32 \<times> u32" where
  "parse_ipv4_cidr v =
     (let copy = take 63 (cstr v);
          (addr_text, prefix) =
            (case strchr copy (CHR ''/'') of
               None \<Rightarrow> (copy, 32)
             | Some slash \<Rightarrow> (take (length copy - length slash) copy, c_atoi (tl slash)))
      in
      if prefix < 0 \<or> 32 < prefix then Inl (- 22)
      else
        case inet_pton addr_text of
          None \<Rightarrow> Inl (- 22)
        | Some parsed \<Rightarrow>
            let host_mask =
                  (if prefix = 0 then 0 else push_bit (nat (32 - prefix)) (0xffffffff :: u32))
            in Inr (parsed, bswap32 host_mask))"

definition path_resource_id :: "file_system \<Rightarrow> buffer \<Rightarrow> u64" where
  "path_resource_id fs v = (case fs_stat fs (cstr v) of None \<Rightarrow> 0 | Some ino \<Rightarrow> ino)"

text \<open>The loop that cuts trailing slashes off the first \<open>len\<close> bytes.\<close>

fun strip_slashes :: "nat \<Rightarrow> buffer \<Rightarrow> buffer" where
  "strip_slashes 0 v = v"
| "strip_slashes (Suc n) v =
     (if n \<noteq> 0 \<and> v ! n = CHR ''/'' then strip_slashes n (v[n := NUL]) else v)"

definition normalize_path_value :: "buffer \<Rightarrow> c_int \<times> buffer" where
  "normalize_path_value v =
     (let len = c_strnlen v MCP_GUARD_RULE_VALUE_LEN in
      if len = 0 then (- 22, v)
      else if MCP_GUARD_RULE_VALUE_LEN - 1 \<le> len then (- 36, v)
      else if v ! 0 \<noteq> CHR ''/'' then (- 22, v)
      else (0, strip_slashes len v))"

section \<open>Loading rules\<close>

record policy_load_state =
  pls_rules :: "mcp_policy_rule list"
  pls_next_index :: u32

definition zero_load_state :: policy_load_state where
  "zero_load_state =
     \<lparr>pls_rules = replicate MCP_GUARD_MAX_RULES zero_rule, pls_next_index = 0\<rparr>"

definition add_rule :: "policy_load_state \<Rightarrow> mcp_policy_rule \<Rightarrow> c_int \<times> policy_load_state" where
  "add_rule state rule =
     (if of_nat MCP_GUARD_MAX_RULES \<le> pls_next_index state then (- 28, state)
      else
        let index = pls_next_index state;
            rule' = rule\<lparr>rule_enabled := 1, rule_rule_id := index + 1\<rparr>
        in (0, state\<lparr>pls_rules := (pls_rules state)[unat index := rule'],
                     pls_next_index := index + 1\<rparr>))"

text \<open>
  What one object \<^verbatim>\<open>{ ... }\<close> of a rule file stands for: it is skipped, it makes the file fail,
  or it is a rule.  The text is cut at the closing brace while it is read.
\<close>

datatype parsed_rule = Skipped | Refused c_int | Parsed mcp_policy_rule

text \<open>The value of the object: \<^verbatim>\<open>"value"\<close>, or else \<^verbatim>\<open>"cidr"\<close>.\<close>

definition rule_value_text :: "string \<Rightarrow> buffer option" where
  "rule_value_text obj =
     (let (err, v) = json_get_string obj ''value'' (zeroed MCP_GUARD_RULE_VALUE_LEN)
                       MCP_GUARD_RULE_VALUE_LEN
      in
      if err = 0 then Some v
      else
        let (err, v) = json_get_string obj ''cidr'' v MCP_GUARD_RULE_VALUE_LEN
        in if err = 0 then Some v else None)"

definition initial_action :: buffer where
  "initial_action = ''deny'' @ zeroed 28"

definition parse_rule :: "file_system \<Rightarrow> u32 \<Rightarrow> string \<Rightarrow> parsed_rule" where
  "parse_rule fs forced_type obj =
     (case rule_value_text obj of
        None \<Rightarrow> Skipped
      | Some v0 \<Rightarrow>
          let name = snd (json_get_string obj ''name'' (zeroed MCP_GUARD_RULE_NAME_LEN)
                            MCP_GUARD_RULE_NAME_LEN);
              action = snd (json_get_string obj ''action'' initial_action 32);
              (err, fl) = json_apply_flag_array obj rule_flag_specs 0
          in
          if err \<noteq> 0 then Refused err
          else
            let flags = json_update_flag obj ''skip_l2_safe'' MCP_GUARD_RULE_F_SKIP_L2_SAFE fl;
                (err, v) =
                  (if forced_type = MCP_GUARD_RULE_PATH_PREFIX then normalize_path_value v0
                   else (0, v0))
            in
            if err \<noteq> 0 then Refused err
            else
              let rule =
                    zero_rule
                      \<lparr>rule_flags := flags, rule_rule_type := forced_type,
                       rule_action := parse_action action,
                       rule_hook_mask := default_hook_mask forced_type,
                       rule_value_len := of_nat (c_strnlen v MCP_GUARD_RULE_VALUE_LEN),
                       rule_value := snprintf_s (zeroed MCP_GUARD_RULE_VALUE_LEN)
                         MCP_GUARD_RULE_VALUE_LEN v,
                       rule_name := snprintf_s (zeroed MCP_GUARD_RULE_NAME_LEN)
                         MCP_GUARD_RULE_NAME_LEN (if name ! 0 \<noteq> NUL then name else v),
                       rule_resource_id :=
                         (if forced_type = MCP_GUARD_RULE_PATH_PREFIX then path_resource_id fs v
                          else 0)\<rparr>
              in
              if forced_type = MCP_GUARD_RULE_IPV4_CONNECT then
                (case parse_ipv4_cidr v of
                   Inl e \<Rightarrow> Skipped
                 | Inr (addr, netmask) \<Rightarrow>
                     Parsed (rule\<lparr>rule_ipv4_addr := addr, rule_ipv4_mask := netmask,
                       rule_port :=
                         (case json_get_u32 obj ''port'' 0 of
                            (err, port) \<Rightarrow> if err = 0 then port else 0)\<rparr>))
              else Parsed rule)"

lemma strchr_drop: "strchr s c = Some t \<Longrightarrow> t \<noteq> [] \<and> length t \<le> length s \<and> hd t = c"
  by (induction s c rule: strchr.induct) (auto split: if_splits)

function load_rules_loop ::
  "file_system \<Rightarrow> u32 \<Rightarrow> string \<Rightarrow> policy_load_state \<Rightarrow> c_int \<times> policy_load_state" where
  "load_rules_loop fs forced_type cursor state =
     (case strchr cursor (CHR 0x7B) of
        None \<Rightarrow> (0, state)
      | Some obj \<Rightarrow>
          (case strchr obj (CHR 0x7D) of
             None \<Rightarrow> (0, state)
           | Some end_brace \<Rightarrow>
               (case parse_rule fs forced_type (takeWhile (\<lambda>c. c \<noteq> CHR 0x7D) obj) of
                  Skipped \<Rightarrow> load_rules_loop fs forced_type (tl end_brace) state
                | Refused err \<Rightarrow> (err, state)
                | Parsed rule \<Rightarrow>
                    if fst (add_rule state rule) \<noteq> 0 then add_rule state rule
                    else load_rules_loop fs forced_type (tl end_brace)
                           (snd (add_rule state rule)))))"
  by pat_completeness auto
termination
proof (relation "measure (\<lambda>(fs, t, cursor, st). length cursor)", goal_cases)
  case (2 fs forced_type cursor state obj end_brace)
  then show ?case
    using strchr_drop [of cursor "CHR 0x7B" obj] strchr_drop [of obj "CHR 0x7D" end_brace]
    by (cases end_brace) auto
next
  case (3 fs forced_type cursor state obj end_brace rule)
  then show ?case
    using strchr_drop [of cursor "CHR 0x7B" obj] strchr_drop [of obj "CHR 0x7D" end_brace]
    by (cases end_brace) auto
qed simp

declare load_rules_loop.simps [simp del]

definition load_rule_file ::
  "file_system \<Rightarrow> string \<Rightarrow> u32 \<Rightarrow> policy_load_state \<Rightarrow> c_int \<times> policy_load_state" where
  "load_rule_file fs path forced_type state =
     (case read_text_file fs path of
        Inl err \<Rightarrow> (if err = - 2 then 0 else err, state)
      | Inr buf \<Rightarrow> load_rules_loop fs forced_type (cstr buf) state)"

section \<open>Configuration and profile\<close>

definition load_config_file ::
  "file_system \<Rightarrow> string \<Rightarrow> mcp_policy_config \<Rightarrow> c_int \<times> mcp_policy_config" where
  "load_config_file fs path config0 =
     (case read_text_file fs path of
        Inl err \<Rightarrow> (if err = - 2 then 0 else err, config0)
      | Inr bytes \<Rightarrow>
          let buf = cstr bytes;
              (action_err, action) = json_get_string buf ''default_action'' (zeroed 32) 32;
              config1 =
                (if action_err = 0 then config0\<lparr>cfg_default_action := parse_action action\<rparr>
                 else config0);
              config2 = config1\<lparr>cfg_enforce :=
                snd (json_get_bool buf ''enforce'' (cfg_enforce config1))\<rparr>;
              config3 = config2\<lparr>cfg_audit_allowed :=
                snd (json_get_bool buf ''audit_allowed'' (cfg_audit_allowed config2))\<rparr>;
              (err, flags) = json_apply_flag_array buf config_flag_specs (cfg_flags config3)
          in
          if err \<noteq> 0 then (err, config3\<lparr>cfg_flags := flags\<rparr>)
          else
            let flags1 = json_update_flag buf ''skip_dir_read''
                  MCP_GUARD_POLICY_F_SKIP_DIR_READ flags;
                flags2 = json_update_flag buf ''cache_file_followups''
                  MCP_GUARD_POLICY_F_CACHE_FILE_FOLLOWUPS flags1;
                flags3 = json_update_flag buf ''deny_tailcall_fail''
                  MCP_GUARD_POLICY_F_DENY_TAILCALL_FAIL flags2;
                flags4 = json_update_flag buf ''skip_l2_safe''
                  MCP_GUARD_POLICY_F_SKIP_L2_SAFE flags3
            in (0, config3\<lparr>cfg_flags := flags4\<rparr>))"

text \<open>The selector arrays, up to their counts.\<close>

record scope_load_state =
  sls_comm_keys :: "mcp_comm_scope_key list"
  sls_pid_keys :: "u32 list"
  sls_tgid_keys :: "u32 list"

definition add_comm_scope :: "mcp_comm_scope_key list \<Rightarrow> buffer \<Rightarrow> c_int + mcp_comm_scope_key list" where
  "add_comm_scope keys comm =
     (if cstr comm = [] then Inl (- 22)
      else if MCP_GUARD_MAX_SCOPES \<le> length keys then Inl (- 28)
      else Inr (keys @ [\<lparr>csk_comm = snprintf_s (zeroed MCP_GUARD_COMM_LEN) MCP_GUARD_COMM_LEN comm\<rparr>]))"

definition add_id_scope :: "u32 list \<Rightarrow> u32 \<Rightarrow> c_int + u32 list" where
  "add_id_scope keys ident =
     (if ident = 0 then Inl (- 22)
      else if MCP_GUARD_MAX_SCOPES \<le> length keys then Inl (- 28)
      else Inr (keys @ [ident]))"

text \<open>A single id under \<open>key\<close> and then the array under \<open>keys\<close>, as for pids and tgids.\<close>

definition load_ids :: "string \<Rightarrow> string \<Rightarrow> string \<Rightarrow> u32 list \<Rightarrow> c_int + u32 list" where
  "load_ids buf key array ids0 =
     (case (case json_get_u32 buf key 0 of
              (err, v) \<Rightarrow> if err = 0 then add_id_scope ids0 v else Inr ids0) of
        Inl err \<Rightarrow> Inl err
      | Inr ids \<Rightarrow>
          (case json_get_u32_array buf array (MCP_GUARD_MAX_SCOPES - length ids) of
             Inl err \<Rightarrow> Inl err
           | Inr added \<Rightarrow> Inr (ids @ added)))"

definition load_comms ::
  "string \<Rightarrow> mcp_comm_scope_key list \<Rightarrow> c_int + mcp_comm_scope_key list" where
  "load_comms buf keys0 =
     (case (case json_get_string buf ''comm'' (zeroed MCP_GUARD_COMM_LEN) MCP_GUARD_COMM_LEN of
              (err, comm) \<Rightarrow> if err = 0 then add_comm_scope keys0 comm else Inr keys0) of
        Inl err \<Rightarrow> Inl err
      | Inr keys \<Rightarrow>
          (case json_get_string_array buf ''comms'' (MCP_GUARD_MAX_SCOPES - length keys) of
             Inl err \<Rightarrow> Inl err
           | Inr added \<Rightarrow> Inr (keys @ added)))"

text \<open>The scope mode: \<open>None\<close> for an unknown name.\<close>

definition load_mode :: "string \<Rightarrow> u32 \<Rightarrow> u32 option" where
  "load_mode buf mode0 =
     (case json_get_string buf ''mode'' (zeroed 32) 32 of
        (err, mode) \<Rightarrow>
          if err \<noteq> 0 then Some mode0
          else if cstr mode = ''system-wide'' \<or> cstr mode = ''system_wide''
          then Some MCP_GUARD_SCOPE_SYSTEM_WIDE
          else if cstr mode = ''scoped'' \<or> cstr mode = ''scope'' then Some MCP_GUARD_SCOPE_SCOPED
          else None)"

text \<open>The name and the ids of the profile.\<close>

definition profile_fields :: "string \<Rightarrow> mcp_policy_config \<Rightarrow> mcp_policy_config" where
  "profile_fields buf config0 =
     (let (profile_err, profile) =
            json_get_string buf ''profile'' (zeroed MCP_GUARD_PROFILE_NAME_LEN)
              MCP_GUARD_PROFILE_NAME_LEN;
          config1 =
            (if profile_err = 0
             then config0\<lparr>cfg_profile_name := snprintf_s (cfg_profile_name config0)
                    MCP_GUARD_PROFILE_NAME_LEN profile\<rparr>
             else config0);
          config2 = config1\<lparr>cfg_profile_id :=
            snd (json_get_u32 buf ''profile_id'' (cfg_profile_id config1))\<rparr>
      in config2\<lparr>cfg_agent_id := snd (json_get_u32 buf ''agent_id'' (cfg_agent_id config2))\<rparr>)"

definition load_profile_file ::
  "file_system \<Rightarrow> string \<Rightarrow> mcp_policy_config \<Rightarrow> scope_load_state \<Rightarrow>
   c_int + mcp_policy_config \<times> scope_load_state" where
  "load_profile_file fs path config0 scope0 =
     (case read_text_file fs path of
        Inl err \<Rightarrow> if err = - 2 then Inr (config0, scope0) else Inl err
      | Inr bytes \<Rightarrow>
          let buf = cstr bytes; config = profile_fields buf config0 in
          (case load_mode buf (cfg_scope_mode config) of
             None \<Rightarrow> Inl (- 22)
           | Some mode \<Rightarrow>
               (case load_comms buf (sls_comm_keys scope0) of
                  Inl err \<Rightarrow> Inl err
                | Inr comms \<Rightarrow>
                    (case load_ids buf ''pid'' ''pids'' (sls_pid_keys scope0) of
                       Inl err \<Rightarrow> Inl err
                     | Inr pids \<Rightarrow>
                         (case load_ids buf ''tgid'' ''tgids'' (sls_tgid_keys scope0) of
                            Inl err \<Rightarrow> Inl err
                          | Inr tgids \<Rightarrow>
                              let count = length comms + length pids + length tgids in
                              if mode = MCP_GUARD_SCOPE_SCOPED \<and> count = 0 then Inl (- 22)
                              else
                                Inr (config\<lparr>cfg_scope_mode := mode,
                                            cfg_scope_count := of_nat count\<rparr>,
                                     \<lparr>sls_comm_keys = comms, sls_pid_keys = pids,
                                      sls_tgid_keys = tgids\<rparr>))))))"

section \<open>Validation\<close>

definition rule_acceptable :: "mcp_policy_rule \<Rightarrow> bool" where
  "rule_acceptable rule \<longleftrightarrow>
     rule_enabled rule \<noteq> 0 \<and>
     rule_rule_id rule \<noteq> 0 \<and> rule_rule_id rule \<le> of_nat MCP_GUARD_MAX_RULES \<and>
     (rule_action rule = MCP_GUARD_ACTION_ALLOW \<or> rule_action rule = MCP_GUARD_ACTION_DENY \<or>
      rule_action rule = MCP_GUARD_ACTION_AUDIT) \<and>
     rule_hook_mask rule \<noteq> 0 \<and>
     rule_value_len rule \<noteq> 0 \<and> rule_value_len rule < of_nat MCP_GUARD_RULE_VALUE_LEN \<and>
     (rule_rule_type rule = MCP_GUARD_RULE_PATH_PREFIX \<longrightarrow> rule_value rule ! 0 = CHR ''/'')"

definition loaded_rules :: "policy_load_state \<Rightarrow> mcp_policy_rule list" where
  "loaded_rules state = take (unat (pls_next_index state)) (pls_rules state)"

definition validate_policy_state :: "policy_load_state \<Rightarrow> mcp_policy_config \<Rightarrow> c_int" where
  "validate_policy_state state config =
     (if of_nat MCP_GUARD_MAX_RULES < pls_next_index state then - 22
      else if cfg_rule_count config \<noteq> pls_next_index state then - 22
      else if cfg_profile_id config = 0 \<or> cfg_agent_id config = 0 then - 22
      else if cfg_scope_mode config = MCP_GUARD_SCOPE_SCOPED \<and> cfg_scope_count config = 0 then - 22
      else if cfg_scope_mode config \<noteq> MCP_GUARD_SCOPE_SYSTEM_WIDE \<and>
              cfg_scope_mode config \<noteq> MCP_GUARD_SCOPE_SCOPED then - 22
      else if \<not> list_all rule_acceptable (loaded_rules state) then - 22
      else 0)"

definition join_policy_path :: "string \<Rightarrow> string \<Rightarrow> c_int + string" where
  "join_policy_path dir fname =
     (let joined = dir @ CHR ''/'' # fname
      in if 4096 \<le> length joined then Inl (- 36) else Inr joined)"

section \<open>A policy directory\<close>

definition default_config :: mcp_policy_config where
  "default_config =
     \<lparr>cfg_default_action = MCP_GUARD_ACTION_ALLOW, cfg_enforce = 1, cfg_audit_allowed = 0,
      cfg_rule_count = 0,
      cfg_flags = MCP_GUARD_POLICY_F_SKIP_DIR_READ OR MCP_GUARD_POLICY_F_CACHE_FILE_FOLLOWUPS OR
        MCP_GUARD_POLICY_F_DENY_TAILCALL_FAIL,
      cfg_active_generation = 0, cfg_profile_id = 1, cfg_agent_id = 1,
      cfg_scope_mode = MCP_GUARD_SCOPE_SYSTEM_WIDE, cfg_scope_count = 0,
      cfg_profile_name = padded MCP_GUARD_PROFILE_NAME_LEN ''default-mcp-agent''\<rparr>"

definition empty_scope :: scope_load_state where
  "empty_scope = \<lparr>sls_comm_keys = [], sls_pid_keys = [], sls_tgid_keys = []\<rparr>"

definition load_rules_of ::
  "file_system \<Rightarrow> string \<Rightarrow> string \<Rightarrow> u32 \<Rightarrow> policy_load_state \<Rightarrow> c_int + policy_load_state" where
  "load_rules_of fs policy_dir fname rule_type state =
     (case join_policy_path policy_dir fname of
        Inl err \<Rightarrow> Inl err
      | Inr path \<Rightarrow>
          (case load_rule_file fs path rule_type state of
             (err, state') \<Rightarrow> if err \<noteq> 0 then Inl err else Inr state'))"

text \<open>
  The first half of \<open>mcp_policy_load_dir\<close>, which reads the five files and touches no map.  The
  result has the rule count of the rules read; the generation is still open.
\<close>

definition read_policy_dir ::
  "file_system \<Rightarrow> string \<Rightarrow> c_int + mcp_policy_config \<times> scope_load_state \<times> policy_load_state" where
  "read_policy_dir fs policy_dir =
     (case join_policy_path policy_dir ''default_policy.json'' of
        Inl err \<Rightarrow> Inl err
      | Inr config_path \<Rightarrow>
     (case load_config_file fs config_path default_config of
        (config_err, config0) \<Rightarrow>
     if config_err \<noteq> 0 then Inl config_err
     else
     (case join_policy_path policy_dir ''mcp_agent_profile.json'' of
        Inl err \<Rightarrow> Inl err
      | Inr profile_path \<Rightarrow>
     (case load_profile_file fs profile_path config0 empty_scope of
        Inl err \<Rightarrow> Inl err
      | Inr (config, scope) \<Rightarrow>
     (case load_rules_of fs policy_dir ''dangerous_paths.json'' MCP_GUARD_RULE_PATH_PREFIX
             zero_load_state of
        Inl err \<Rightarrow> Inl err
      | Inr state1 \<Rightarrow>
     (case load_rules_of fs policy_dir ''dangerous_commands.json'' MCP_GUARD_RULE_COMMAND_PREFIX
             state1 of
        Inl err \<Rightarrow> Inl err
      | Inr state2 \<Rightarrow>
     (case load_rules_of fs policy_dir ''dangerous_network.json'' MCP_GUARD_RULE_IPV4_CONNECT
             state2 of
        Inl err \<Rightarrow> Inl err
      | Inr state3 \<Rightarrow>
          Inr (config\<lparr>cfg_rule_count := pls_next_index state3\<rparr>, scope, state3))))))))"

end
