(* ===== verification/Indexes.thy ===== *)
theory Indexes
  imports Maps Rule_Files
begin

text \<open>
  The four policy indexes that \<^verbatim>\<open>loader/policy_loader.c\<close> builds from the rules of a directory:
  the path trie, the command trie, the network trie and the resource hash.  Each is written
  under a new generation while the old one stays in force; the locale \<open>generation_index\<close> states
  what they share and is interpreted for all four.  The locale \<open>prefix_trie\<close> relates the two
  tries over strings to the plain reading of their rules: the longest prefix wins, and of two
  equal prefixes the later rule.
\<close>

section \<open>Keys and values\<close>

definition path_prefix_bits :: "buffer \<Rightarrow> u32" where
  "path_prefix_bits path = 32 + of_nat (c_strnlen path MCP_GUARD_PATH_LPM_LEN) * 8"

definition command_prefix_bits :: "buffer \<Rightarrow> u32" where
  "command_prefix_bits command = 32 + of_nat (c_strnlen command MCP_GUARD_RULE_VALUE_LEN) * 8"

text \<open>The loop over the mask's bits from the top, stopping at the first zero.\<close>

fun leading_ones :: "u32 \<Rightarrow> nat \<Rightarrow> nat \<Rightarrow> nat" where
  "leading_ones host_mask 0 i = 0"
| "leading_ones host_mask (Suc n) i =
     (if \<not> bit host_mask (31 - i) then 0 else Suc (leading_ones host_mask n (Suc i)))"

definition ipv4_prefix_bits :: "u32 \<Rightarrow> u32" where
  "ipv4_prefix_bits netmask = 32 + 32 + of_nat (leading_ones (bswap32 netmask) 32 0)"

definition indexed_value_from_rule :: "mcp_policy_rule \<Rightarrow> mcp_indexed_policy_value" where
  "indexed_value_from_rule rule =
     \<lparr>ipv_enabled = rule_enabled rule, ipv_rule_id = rule_rule_id rule,
      ipv_action = rule_action rule, ipv_hook_mask = rule_hook_mask rule,
      ipv_flags = rule_flags rule, ipv_value_len = rule_value_len rule,
      ipv_port = rule_port rule, ipv_ipv4_addr = rule_ipv4_addr rule,
      ipv_ipv4_mask = rule_ipv4_mask rule, ipv_resource_id = rule_resource_id rule,
      ipv_name = snprintf_s (zeroed MCP_GUARD_RULE_NAME_LEN) MCP_GUARD_RULE_NAME_LEN
        (rule_name rule)\<rparr>"

definition path_value_from_rule :: "mcp_policy_rule \<Rightarrow> mcp_path_policy_value" where
  "path_value_from_rule rule =
     \<lparr>ppv_enabled = rule_enabled rule, ppv_rule_id = rule_rule_id rule,
      ppv_action = rule_action rule, ppv_hook_mask = rule_hook_mask rule,
      ppv_flags = rule_flags rule, ppv_value_len = rule_value_len rule,
      ppv_resource_id = rule_resource_id rule,
      ppv_name = snprintf_s (zeroed MCP_GUARD_RULE_NAME_LEN) MCP_GUARD_RULE_NAME_LEN
        (rule_name rule)\<rparr>"

text \<open>The loop bodies of \<open>write_path_trie\<close>, \<open>write_command_trie\<close>, \<open>write_network_trie\<close> and
  \<open>write_resource_hash\<close>.\<close>

definition path_entry ::
  "u32 \<Rightarrow> mcp_policy_rule \<Rightarrow> (mcp_path_lpm_key, mcp_path_policy_value) write_step" where
  "path_entry generation rule =
     (if rule_rule_type rule \<noteq> MCP_GUARD_RULE_PATH_PREFIX then Skip
      else if rule_value rule ! 0 = NUL \<or> rule_value rule ! 0 \<noteq> CHR ''/'' then Fail (- 22)
      else Entry
             \<lparr>plk_prefixlen = path_prefix_bits (rule_value rule), plk_generation = generation,
              plk_path = padded MCP_GUARD_PATH_LPM_LEN (cstr (rule_value rule))\<rparr>
             (path_value_from_rule rule))"

definition command_entry ::
  "u32 \<Rightarrow> mcp_policy_rule \<Rightarrow> (mcp_command_lpm_key, mcp_indexed_policy_value) write_step" where
  "command_entry generation rule =
     (if rule_rule_type rule \<noteq> MCP_GUARD_RULE_COMMAND_PREFIX then Skip
      else if rule_value rule ! 0 = NUL then Fail (- 22)
      else Entry
             \<lparr>clk_prefixlen = command_prefix_bits (rule_value rule), clk_generation = generation,
              clk_command = snprintf_s (zeroed MCP_GUARD_RULE_VALUE_LEN) MCP_GUARD_RULE_VALUE_LEN
                (rule_value rule)\<rparr>
             (indexed_value_from_rule rule))"

definition network_entry ::
  "u32 \<Rightarrow> mcp_policy_rule \<Rightarrow> (mcp_network_lpm_key, mcp_indexed_policy_value) write_step" where
  "network_entry generation rule =
     (if rule_rule_type rule \<noteq> MCP_GUARD_RULE_IPV4_CONNECT then Skip
      else Entry
             \<lparr>nlk_prefixlen = ipv4_prefix_bits (rule_ipv4_mask rule), nlk_generation = generation,
              nlk_port = rule_port rule, nlk_ipv4_addr = rule_ipv4_addr rule\<rparr>
             (indexed_value_from_rule rule))"

definition resource_entry ::
  "u32 \<Rightarrow> mcp_policy_rule \<Rightarrow> (mcp_resource_policy_key, mcp_indexed_policy_value) write_step" where
  "resource_entry generation rule =
     (if rule_resource_id rule = 0 then Skip
      else Entry
             \<lparr>rpk_generation = generation, rpk_rule_type = rule_rule_type rule,
              rpk_resource_id = rule_resource_id rule\<rparr>
             (indexed_value_from_rule rule))"

section \<open>One generation at a time\<close>

definition visible :: "('k \<Rightarrow> u32) \<Rightarrow> u32 \<Rightarrow> ('k \<times> 'v) set \<Rightarrow> ('k \<times> 'v) set" where
  "visible gen generation S = {e \<in> S. gen (fst e) = generation}"

locale generation_index =
  fixes same :: "'k \<Rightarrow> 'k \<Rightarrow> bool" and gen :: "'k \<Rightarrow> u32" and wf_key :: "'k \<Rightarrow> bool"
    and entry :: "u32 \<Rightarrow> mcp_policy_rule \<Rightarrow> ('k, 'v) write_step"
  assumes same_gen: "wf_key k \<Longrightarrow> same k k' \<Longrightarrow> gen k = gen k'"
    and entry_key: "entry g r = Entry k v \<Longrightarrow> gen k = g \<and> wf_key k"
    and entry_fail: "entry g r = Fail e \<Longrightarrow> e \<noteq> 0"

context generation_index
begin

lemma entries_of_key: "(k, v) \<in> set (entries_of (entry g) rs) \<Longrightarrow> gen k = g \<and> wf_key k"
  by (induction rs) (auto split: write_step.splits dest: entry_key [OF sym] entry_key)

lemma visible_put:
  assumes "wf_key k" and "gen k = g"
  shows "visible gen g' (put same (k, v) S) =
    (if g' = g then put same (k, v) (visible gen g' S) else visible gen g' S)"
  using assms same_gen [of k] by (auto simp: visible_def put_def)

lemma visible_fold_put:
  assumes "\<forall>(k, v) \<in> set es. wf_key k \<and> gen k = g"
  shows "visible gen g' (fold (put same) es S) =
    (if g' = g then fold (put same) es (visible gen g' S) else visible gen g' S)"
  using assms
proof (induction es arbitrary: S)
  case Nil
  then show ?case by simp
next
  case (Cons e es)
  then show ?case
    using visible_put [of "fst e" g g' "snd e" S] by (auto simp: case_prod_beta)
qed

text \<open>Clearing a generation and writing it anew: the other generations stay as they were, and the
  written one holds the rules, later ones overwriting earlier ones of the same key.\<close>

lemma rebuild:
  assumes law: "map_law same ops" and ok: "entries_ok same m" and fd: "0 \<le> fd"
    and clear: "clear_generation fd ops gen g n m = Some (n1, m1)"
    and written: "write_loop fd ops (entry g) rs n1 m1 = (err, n2, m2)"
    and wf: "\<forall>e \<in> set m. wf_key (fst e)"
  shows "entries_ok same m2 \<and> (\<forall>e \<in> set m2. wf_key (fst e)) \<and>
    (\<forall>g'. g' \<noteq> g \<longrightarrow> visible gen g' (set m2) = visible gen g' (set m)) \<and>
    (err = 0 \<longrightarrow> visible gen g (set m2) = fold (put same) (entries_of (entry g) rs) {})"
proof -
  have m1: "entries_ok same m1" "set m1 = {e \<in> set m. gen (fst e) \<noteq> g}"
    by (rule clear_generation_ends [OF law ok fd, of gen g n]; use clear in simp)+
  have fails: "\<forall>r e. entry g r = Fail e \<longrightarrow> e \<noteq> 0" using entry_fail by blast
  obtain i where i: "entries_ok same m2"
    "set m2 = fold (put same) (take i (entries_of (entry g) rs)) (set m1)"
    "err = 0 \<longrightarrow> i = length (entries_of (entry g) rs)"
    using write_loop_ok [OF law fails m1(1) written] by blast
  have keys: "\<forall>(k, v) \<in> set (take i (entries_of (entry g) rs)). wf_key k \<and> gen k = g"
    using entries_of_key by (auto dest!: in_set_takeD)
  have none: "visible gen g (set m1) = {}" "g' \<noteq> g \<Longrightarrow> visible gen g' (set m1) = visible gen g' (set m)"
    for g'
    by (auto simp: visible_def m1(2))
  have "wf_key (fst e)" if "e \<in> set m2" for e
  proof -
    have "e \<in> set m1 \<union> set (take i (entries_of (entry g) rs))"
      using that fold_put_subset i(2) by blast
    then show ?thesis using keys wf m1(2) by (cases e) auto
  qed
  then show ?thesis
    using i none visible_fold_put [OF keys, of _ "set m1"] by auto
qed

end

section \<open>The four indexes\<close>

definition same_lpm :: "('k \<Rightarrow> u32) \<Rightarrow> ('k \<Rightarrow> bool list) \<Rightarrow> 'k \<Rightarrow> 'k \<Rightarrow> bool" where
  "same_lpm plen kbits k k' \<longleftrightarrow>
     plen k = plen k' \<and> take (unat (plen k)) (kbits k) = take (unat (plen k)) (kbits k')"

lemma entries_ok_lpm: "entries_ok (same_lpm plen kbits) t \<Longrightarrow> lpm_distinct plen kbits t"
  by (simp add: entries_ok_def lpm_distinct_def same_lpm_def)

lemma length_bits_of_bytes [simp]: "length (bits_of_bytes bs) = 8 * length bs"
  by (induction bs) (simp_all add: bits_of_bytes_def)

lemma bits_of_bytes_Cons: "bits_of_bytes (b # bs) = byte_bits b @ bits_of_bytes bs"
  by (simp add: bits_of_bytes_def)

lemma bits_of_bytes_append: "bits_of_bytes (as @ bs) = bits_of_bytes as @ bits_of_bytes bs"
  by (simp add: bits_of_bytes_def)

lemma take_bits_of_bytes: "take (8 * n) (bits_of_bytes bs) = bits_of_bytes (take n bs)"
proof (induction bs arbitrary: n)
  case Nil
  then show ?case by (simp add: bits_of_bytes_def)
next
  case (Cons b bs)
  then show ?case by (cases n) (simp_all add: bits_of_bytes_Cons bits_of_bytes_def)
qed

lemma bits_of_bytes_inject:
  "length as = length bs \<Longrightarrow> bits_of_bytes as = bits_of_bytes bs \<longleftrightarrow> as = bs"
  by (induction as bs rule: list_induct2) (simp_all add: bits_of_bytes_Cons)

lemma le_bytes32_inject [simp]: "le_bytes32 a = le_bytes32 b \<longleftrightarrow> a = b"
proof
  assume "le_bytes32 a = le_bytes32 b"
  then have eq: "(ucast (drop_bit (8 * j) a) :: u8) = ucast (drop_bit (8 * j) b)" if "j < 4" for j
    using that by (auto simp: le_bytes32_def less_Suc_eq numeral_eq_Suc)
  show "a = b"
  proof (rule bit_word_eqI)
    fix n assume "n < LENGTH(32)"
    then have "n div 8 < 4" by simp
    from eq [OF this] have "bit (ucast (drop_bit (8 * (n div 8)) a) :: u8) (n mod 8) =
        bit (ucast (drop_bit (8 * (n div 8)) b) :: u8) (n mod 8)" by simp
    then show "bit a n = bit b n" by (simp add: bit_simps)
  qed
qed simp

lemma length_le_bytes32 [simp]: "length (le_bytes32 w) = 4"
  by (simp add: le_bytes32_def)

lemma take_key_bits:
  assumes "length as = length bs" and "n \<le> length as"
  shows "take (32 + 8 * n) (bits_of_bytes (le_bytes32 a @ as)) =
      take (32 + 8 * n) (bits_of_bytes (le_bytes32 b @ bs)) \<longleftrightarrow>
    a = b \<and> take n as = take n bs"
proof -
  have "take (32 + 8 * n) (bits_of_bytes (le_bytes32 c @ cs)) =
      bits_of_bytes (le_bytes32 c @ take n cs)" for c cs
    using take_bits_of_bytes [of "4 + n" "le_bytes32 c @ cs"] by (simp add: algebra_simps)
  then show ?thesis using assms by (simp add: bits_of_bytes_inject)
qed

lemma same_generation:
  assumes "32 \<le> n" and "take n (bits_of_bytes (le_bytes32 a @ as)) =
    take n (bits_of_bytes (le_bytes32 b @ bs))"
  shows "a = b"
proof -
  have "take 32 (bits_of_bytes (le_bytes32 a @ as)) = take 32 (bits_of_bytes (le_bytes32 b @ bs))"
    using assms by (metis min.absorb1 take_take)
  then show ?thesis
    using take_bits_of_bytes [of 4] by (simp add: bits_of_bytes_inject)
qed

text \<open>The contract of the three tries: keys whose memory image starts with the generation, and
  prefixes that cover it.\<close>

locale lpm_index =
  fixes plen :: "'k \<Rightarrow> u32" and gen :: "'k \<Rightarrow> u32" and kbits :: "'k \<Rightarrow> bool list"
    and rest :: "'k \<Rightarrow> u8 list" and entry :: "u32 \<Rightarrow> mcp_policy_rule \<Rightarrow> ('k, 'v) write_step"
  assumes key_bits: "kbits k = bits_of_bytes (le_bytes32 (gen k) @ rest k)"
    and key_entry: "entry g r = Entry k v \<Longrightarrow> gen k = g \<and> 32 \<le> unat (plen k)"
    and key_fail: "entry g r = Fail e \<Longrightarrow> e \<noteq> 0"

sublocale lpm_index \<subseteq> index: generation_index "same_lpm plen kbits" gen
  "\<lambda>k. 32 \<le> unat (plen k)" entry
proof
  show "gen k = gen k'" if "32 \<le> unat (plen k)" "same_lpm plen kbits k k'" for k k'
    using that same_generation [OF that(1)] by (auto simp: same_lpm_def key_bits)
qed (use key_entry key_fail in auto)

context lpm_index
begin

lemma matching_generation:
  assumes "32 \<le> unat (plen k)" and "lpm_matches plen kbits k q"
  shows "gen k = gen q"
  using same_generation [OF assms(1)] assms(2) by (auto simp: lpm_matches_def key_bits)

text \<open>A lookup sees its own generation only.\<close>

lemma lookup_visible:
  fixes lookup :: "('k \<times> 'v) list \<Rightarrow> 'k \<Rightarrow> 'v option"
  assumes law: "lpm_law plen kbits lookup" and ok: "entries_ok (same_lpm plen kbits) t'"
    and wf: "\<forall>e \<in> set t. 32 \<le> unat (plen (fst e))" "\<forall>e \<in> set t'. 32 \<le> unat (plen (fst e))"
    and vis: "visible gen (gen q) (set t) = visible gen (gen q) (set t')"
  shows "lookup t q = lookup t' q"
proof (rule lpm_lookup_cong [OF law entries_ok_lpm [OF ok]])
  fix k and v :: 'v assume match: "lpm_matches plen kbits k q"
  have "(k, v) \<in> visible gen (gen q) (set m) \<longleftrightarrow> (k, v) \<in> set m"
    if "\<forall>e \<in> set m. 32 \<le> unat (plen (fst e))" for m  :: "('k \<times> 'v) list"
    using that matching_generation [OF _ match] by (auto simp: visible_def)
  then show "(k, v) \<in> set t \<longleftrightarrow> (k, v) \<in> set t'" using wf vis by blast
qed

end

lemma strnlen_bits: "n \<le> 192 \<Longrightarrow> unat (32 + of_nat n * 8 :: u32) = 32 + 8 * n"
  by (simp add: unat_word_ariths unat_of_nat)

section \<open>The best rule\<close>

text \<open>
  The reading of a list of rules that a trie implements: of the rules that cover a request the
  one of the greatest weight, and of equal weights the last.
\<close>

fun best_rule ::
  "(mcp_policy_rule \<Rightarrow> bool) \<Rightarrow> (mcp_policy_rule \<Rightarrow> nat) \<Rightarrow> mcp_policy_rule list \<Rightarrow>
   mcp_policy_rule option" where
  "best_rule covers weight [] = None"
| "best_rule covers weight (r # rs) =
     (case best_rule covers weight rs of
        None \<Rightarrow> if covers r then Some r else None
      | Some best \<Rightarrow> if covers r \<and> weight best < weight r then Some r else Some best)"

lemma best_rule_None: "best_rule covers weight rs = None \<longleftrightarrow> (\<forall>r \<in> set rs. \<not> covers r)"
  by (induction rs) (auto split: option.splits)

lemma best_rule_max:
  "best_rule covers weight rs = Some r \<Longrightarrow> covers r \<and>
     (\<forall>r' \<in> set rs. covers r' \<longrightarrow> weight r' \<le> weight r)"
proof (induction rs arbitrary: r)
  case Nil
  then show ?case by simp
next
  case (Cons r0 rs)
  then show ?case
    by (auto simp: best_rule_None split: option.splits if_splits
        dest: order.strict_implies_order intro: order.trans)
qed

lemma best_rule_last:
  assumes "best_rule covers weight rs = Some r"
  obtains pre post where "rs = pre @ r # post"
    "\<forall>r' \<in> set post. covers r' \<longrightarrow> weight r' < weight r"
proof -
  have "\<exists>pre post. rs = pre @ r # post \<and> (\<forall>r' \<in> set post. covers r' \<longrightarrow> weight r' < weight r)"
    using assms
  proof (induction rs)
    case Nil
    then show ?case by simp
  next
    case (Cons r0 rs)
    show ?case
    proof (cases "best_rule covers weight rs = Some r")
      case True
      with Cons.IH obtain pre post where "rs = pre @ r # post"
        "\<forall>r' \<in> set post. covers r' \<longrightarrow> weight r' < weight r"
        by blast
      then show ?thesis by (intro exI [of _ "r0 # pre"] exI [of _ post]) simp
    next
      case False
      then have "r0 = r" using Cons.prems by (auto split: option.splits if_splits)
      moreover have "\<forall>r' \<in> set rs. covers r' \<longrightarrow> weight r' < weight r"
        using Cons.prems False best_rule_max [of covers weight rs] order.strict_trans1
        by (auto simp: best_rule_None split: option.splits if_splits)
      ultimately show ?thesis by (intro exI [of _ "[]"] exI [of _ rs]) simp
    qed
  qed
  then show thesis using that by blast
qed

text \<open>
  The contract of a trie of rules: an entry's prefix grows with the weight of its rule, and it
  matches the key of a query exactly when the rule covers the query.  Rules that do not \<open>fit\<close>
  their key are exempt; no loaded rule is of that kind.
\<close>

locale rule_trie = lpm_index plen gen kbits rest entry
  for plen :: "'k \<Rightarrow> u32" and gen :: "'k \<Rightarrow> u32" and kbits :: "'k \<Rightarrow> bool list"
    and rest :: "'k \<Rightarrow> u8 list" and entry :: "u32 \<Rightarrow> mcp_policy_rule \<Rightarrow> ('k, 'v) write_step" +
  fixes fit :: "mcp_policy_rule \<Rightarrow> bool" and covers :: "'q \<Rightarrow> mcp_policy_rule \<Rightarrow> bool"
    and weight :: "mcp_policy_rule \<Rightarrow> nat" and base :: nat
    and asks :: "u32 \<Rightarrow> 'q \<Rightarrow> 'k \<Rightarrow> bool" and val :: "mcp_policy_rule \<Rightarrow> 'v"
  assumes covers_written: "covers q r \<Longrightarrow> entry g r \<noteq> Skip"
    and entry_weight: "entry g r = Entry k v \<Longrightarrow> fit r \<Longrightarrow>
      v = val r \<and> unat (plen k) = base + weight r"
    and entry_matches: "entry g r = Entry k v \<Longrightarrow> fit r \<Longrightarrow> asks g q key \<Longrightarrow>
      lpm_matches plen kbits k key \<longleftrightarrow> covers q r"
    and asks_gen: "asks g q key \<Longrightarrow> gen key = g"

context rule_trie
begin

text \<open>What a lookup in the trie finds: the best rule of its generation.\<close>

lemma entries_of_rule:
  assumes "e \<in> set (entries_of (entry g) rs)"
  obtains r where "r \<in> set rs" "entry g r = Entry (fst e) (snd e)"
proof -
  have "\<exists>r \<in> set rs. entry g r = Entry (fst e) (snd e)"
    using assms by (induction rs) (auto split: write_step.splits)
  then show thesis using that by blast
qed

lemma same_matches: "same_lpm plen kbits k k' \<Longrightarrow>
    lpm_matches plen kbits k q \<longleftrightarrow> lpm_matches plen kbits k' q"
  by (auto simp: same_lpm_def lpm_matches_def)

definition holds_rules :: "u32 \<Rightarrow> mcp_policy_rule list \<Rightarrow> ('k \<times> 'v) list \<Rightarrow> bool" where
  "holds_rules g rs m \<longleftrightarrow>
     entries_ok (same_lpm plen kbits) m \<and> (\<forall>e \<in> set m. 32 \<le> unat (plen (fst e))) \<and>
     (\<forall>r \<in> set rs. fit r \<and> (\<forall>e. entry g r \<noteq> Fail e)) \<and>
     visible gen g (set m) = fold (put (same_lpm plen kbits)) (entries_of (entry g) rs) {}"

lemma matching_entry:
  assumes m: "holds_rules g rs m" and q: "asks g q key"
    and e: "(k, v) \<in> set m" "lpm_matches plen kbits k key"
  obtains r where "r \<in> set rs" "entry g r = Entry k v" "covers q r"
proof -
  have "gen k = gen key"
    using matching_generation [OF _ e(2)] m e(1) by (auto simp: holds_rules_def)
  then have "(k, v) \<in> fold (put (same_lpm plen kbits)) (entries_of (entry g) rs) {}"
    using m asks_gen [OF q] e(1) by (auto simp: holds_rules_def visible_def)
  then obtain r where r: "r \<in> set rs" "entry g r = Entry k v"
    using fold_put_subset [of "same_lpm plen kbits" "entries_of (entry g) rs" "{}"]
      entries_of_rule [of "(k, v)" g rs] by auto
  then have "fit r" using m by (simp add: holds_rules_def)
  then show thesis using that [OF r] entry_matches [OF r(2) _ q] e(2) by simp
qed

lemma lookup_best:
  assumes law: "lpm_law plen kbits lookup" and m: "holds_rules g rs m" and q: "asks g q key"
  shows "lookup m key = map_option val (best_rule (covers q) weight rs)"
proof (cases "best_rule (covers q) weight rs")
  case None
  then have no: "\<not> covers q r" if "r \<in> set rs" for r
    using that best_rule_None by blast
  show ?thesis
  proof (cases "lookup m key")
    case None
    then show ?thesis using \<open>best_rule (covers q) weight rs = None\<close> by simp
  next
    case (Some v)
    from law Some obtain k where "(k, v) \<in> set m" "lpm_matches plen kbits k key"
      by (rule lpm_lookup_Some)
    then show ?thesis using matching_entry [OF m q] no by metis
  qed
next
  case (Some r)
  note best = best_rule_max [OF Some]
  from Some obtain pre post where rs: "rs = pre @ r # post"
    and later: "\<forall>r' \<in> set post. covers q r' \<longrightarrow> weight r' < weight r"
    by (rule best_rule_last)
  have r: "fit r" "\<forall>e. entry g r \<noteq> Fail e" "entry g r \<noteq> Skip"
    using m rs best covers_written by (auto simp: holds_rules_def)
  then obtain k v where kv: "entry g r = Entry k v" by (cases "entry g r") auto
  note key = entry_weight [OF kv r(1)]
  have match: "lpm_matches plen kbits k key"
    using entry_matches [OF kv r(1) q] best by simp
  have shorter: "unat (plen (fst f)) < unat (plen k)"
    if "f \<in> set (entries_of (entry g) post)" "lpm_matches plen kbits (fst f) key" for f
  proof -
    from that(1) obtain r' where r': "r' \<in> set post" "entry g r' = Entry (fst f) (snd f)"
      by (rule entries_of_rule)
    then have t: "fit r'" using m rs by (simp add: holds_rules_def)
    then show ?thesis
      using later r'(1) entry_matches [OF r'(2) t q] entry_weight [OF r'(2) t] that(2) key by auto
  qed
  have "\<not> same_lpm plen kbits (fst f) k" if "f \<in> set (entries_of (entry g) post)" for f
    using shorter [OF that] same_matches [of "fst f" k key] match by (auto simp: same_lpm_def)
  then have "(k, v) \<in> fold (put (same_lpm plen kbits)) (entries_of (entry g) rs) {}"
    using fold_put_last [of "entries_of (entry g) post" "same_lpm plen kbits" "(k, v)"
        "entries_of (entry g) pre" "{}"]
    by (simp add: rs kv entries_of_def)
  then have mem: "(k, v) \<in> set m" using m by (auto simp: holds_rules_def visible_def)
  have "lookup m key = Some v"
  proof (rule lpm_lookup_unique [OF law entries_ok_lpm mem match])
    show "entries_ok (same_lpm plen kbits) m" using m by (simp add: holds_rules_def)
    show "plen k' \<le> plen k" if "(k', v') \<in> set m" "lpm_matches plen kbits k' key" for k' v'
    proof -
      from m q that obtain r'
        where r': "r' \<in> set rs" "entry g r' = Entry k' v'" "covers q r'"
        by (rule matching_entry)
      then have "fit r'" using m by (simp add: holds_rules_def)
      from entry_weight [OF r'(2) this] show ?thesis
        using best r' key by (simp add: word_le_nat_alt)
    qed
  qed
  then show ?thesis using Some key by simp
qed

end

section \<open>A trie of string prefixes\<close>

abbreviation rule_text :: "mcp_policy_rule \<Rightarrow> string" where
  "rule_text rule \<equiv> cstr (rule_value rule)"

definition rule_covers :: "u32 \<Rightarrow> string \<Rightarrow> mcp_policy_rule \<Rightarrow> bool" where
  "rule_covers rule_type s rule \<longleftrightarrow>
     rule_rule_type rule = rule_type \<and> is_prefix (rule_text rule) s"

text \<open>The longest prefix wins.\<close>

definition longest_prefix_rule ::
  "u32 \<Rightarrow> mcp_policy_rule list \<Rightarrow> string \<Rightarrow> mcp_policy_rule option" where
  "longest_prefix_rule rule_type rs s =
     best_rule (rule_covers rule_type s) (\<lambda>r. length (rule_text r)) rs"

lemma is_prefix_take: "is_prefix t s \<longleftrightarrow> take (length t) s = t"
  by (induction t s rule: is_prefix.induct) auto

lemma is_prefix_length: "is_prefix t s \<Longrightarrow> length t \<le> length s"
  by (induction t s rule: is_prefix.induct) auto

text \<open>
  The contract of the two tries whose keys hold a text: one key per rule of the type, with the
  text in a zeroed buffer and a prefix length that covers just the text; \<open>val\<close> is the stored
  value.  A rule whose text fills its buffer to the end has no such key.
\<close>

definition terminated_rule :: "mcp_policy_rule \<Rightarrow> bool" where
  "terminated_rule rule \<longleftrightarrow> length (rule_text rule) < MCP_GUARD_RULE_VALUE_LEN"

locale prefix_trie =
  fixes plen :: "'k \<Rightarrow> u32" and gen :: "'k \<Rightarrow> u32" and chars :: "'k \<Rightarrow> buffer"
    and kbits :: "'k \<Rightarrow> bool list" and rule_type :: u32
    and entry :: "u32 \<Rightarrow> mcp_policy_rule \<Rightarrow> ('k, 'v) write_step"
    and val :: "mcp_policy_rule \<Rightarrow> 'v"
  assumes kbits: "kbits k = bits_of_bytes (le_bytes32 (gen k) @ map char_byte (chars k))"
    and entry_other: "rule_rule_type r \<noteq> rule_type \<Longrightarrow> entry g r = Skip"
    and entry_same: "rule_rule_type r = rule_type \<Longrightarrow> entry g r \<noteq> Skip"
    and entry_refused: "entry g r = Fail e \<Longrightarrow> e = - 22"
    and entry_written: "entry g r = Entry k v \<Longrightarrow> gen k = g \<and> v = val r \<and>
      plen k = 32 + of_nat (min MCP_GUARD_RULE_VALUE_LEN (length (rule_text r))) * 8 \<and>
      (terminated_rule r \<longrightarrow> chars k = padded MCP_GUARD_RULE_VALUE_LEN (rule_text r))"

sublocale prefix_trie \<subseteq> lpm_index plen gen kbits "\<lambda>k. map char_byte (chars k)" entry
proof
  show "kbits k = bits_of_bytes (le_bytes32 (gen k) @ map char_byte (chars k))" for k
    by (rule kbits)
  show "gen k = g \<and> 32 \<le> unat (plen k)" if "entry g r = Entry k v" for g r k v
    using entry_written [OF that] by (simp add: strnlen_bits)
  show "e \<noteq> 0" if "entry g r = Fail e" for g r e
    using entry_refused [OF that] by simp
qed

context prefix_trie
begin

lemma rule_key:
  assumes "entry g r = Entry k v" and "terminated_rule r"
  shows "rule_rule_type r = rule_type" "gen k = g" "v = val r"
    "unat (plen k) = 32 + 8 * length (rule_text r)"
    "chars k = padded MCP_GUARD_RULE_VALUE_LEN (rule_text r)"
proof -
  note w = entry_written [OF assms(1)]
  show "rule_rule_type r = rule_type" using entry_other [of r g] assms(1) by fastforce
  show "gen k = g" "v = val r" using w by simp_all
  show "chars k = padded MCP_GUARD_RULE_VALUE_LEN (rule_text r)" using w assms(2) by simp
  show "unat (plen k) = 32 + 8 * length (rule_text r)"
    using w assms(2) strnlen_bits [of "length (rule_text r)"]
    by (simp add: terminated_rule_def min_def)
qed

text \<open>A searched key of a generation: the whole string in a zeroed buffer.\<close>

definition query_key :: "u32 \<Rightarrow> string \<Rightarrow> 'k \<Rightarrow> bool" where
  "query_key g s q \<longleftrightarrow> gen q = g \<and> plen q = 32 + of_nat MCP_GUARD_RULE_VALUE_LEN * 8 \<and>
     chars q = padded MCP_GUARD_RULE_VALUE_LEN s"

lemma text_starts:
  "length t \<le> n \<Longrightarrow> NUL \<notin> set t \<Longrightarrow>
   take (length t) (padded n s) = t \<longleftrightarrow> is_prefix t s"
proof -
  assume t: "length t \<le> n" "NUL \<notin> set t"
  have "take (length t) (padded n s) = take (length t) (s @ zeroed n)"
    using t(1) by (simp add: padded_def min_def)
  also have "\<dots> = take (length t) s @ replicate (length t - length s) NUL"
    using t(1) by (simp add: zeroed_def min_absorb1)
  finally have eq: "take (length t) (padded n s) =
      take (length t) s @ replicate (length t - length s) NUL" .
  show ?thesis
  proof (cases "length t \<le> length s")
    case True
    then show ?thesis by (simp add: eq is_prefix_take)
  next
    case False
    then have "NUL \<in> set (take (length t) s @ replicate (length t - length s) NUL)" by simp
    then have "take (length t) (padded n s) \<noteq> t" using eq t(2) by metis
    then show ?thesis using False is_prefix_length by blast
  qed
qed

lemma rule_matches:
  assumes "entry g r = Entry k v" and "terminated_rule r" and q: "query_key g s q"
  shows "lpm_matches plen kbits k q \<longleftrightarrow> is_prefix (rule_text r) s"
proof -
  note key = rule_key [OF assms(1,2)]
  have len: "length (rule_text r) < 192" using assms(2) by (simp add: terminated_rule_def)
  have q_len: "unat (plen q) = 32 + 8 * 192" using q by (simp add: query_key_def)
  have "plen k \<le> plen q" unfolding word_le_nat_alt key(4) q_len using len by simp
  moreover have "take (unat (plen k)) (kbits k) = take (unat (plen k)) (kbits q) \<longleftrightarrow>
      take (length (rule_text r)) (map char_byte (chars k)) =
      take (length (rule_text r)) (map char_byte (chars q))"
    unfolding key(4) kbits using q key(2,5) len
    by (subst take_key_bits) (auto simp: query_key_def)
  moreover have "\<dots> \<longleftrightarrow> take (length (rule_text r)) (chars q) = rule_text r"
  proof -
    have "take (length (rule_text r)) (chars k) = rule_text r"
      using key(5) len by (simp add: padded_def min_def)
    moreover have "inj char_byte" by (simp add: inj_def)
    ultimately show ?thesis by (auto simp: take_map inj_map_eq_map)
  qed
  ultimately show ?thesis
    using q text_starts [of "rule_text r" 192 s] len by (simp add: lpm_matches_def query_key_def)
qed

end

sublocale prefix_trie \<subseteq> trie: rule_trie plen gen kbits "\<lambda>k. map char_byte (chars k)" entry
  terminated_rule "rule_covers rule_type" "\<lambda>r. 8 * length (rule_text r)" 32 query_key val
proof
  show "entry g r \<noteq> Skip" if "rule_covers rule_type q r" for q g r
    using that entry_same by (simp add: rule_covers_def)
  show "v = val r \<and> unat (plen k) = 32 + 8 * length (rule_text r)"
    if "entry g r = Entry k v" "terminated_rule r" for g r k v
    using rule_key [OF that] by simp
  show "lpm_matches plen kbits k key \<longleftrightarrow> rule_covers rule_type q r"
    if "entry g r = Entry k v" "terminated_rule r" "query_key g q key" for g r k v q key
    using rule_matches [OF that] rule_key(1) [OF that(1,2)] by (simp add: rule_covers_def)
  show "gen key = g" if "query_key g q key" for g q key
    using that by (simp add: query_key_def)
qed

lemma best_rule_scale:
  "0 < c \<Longrightarrow> best_rule covers (\<lambda>r. c * weight r) rs = best_rule covers weight rs"
  for c :: nat
  by (induction rs) (simp_all cong: option.case_cong)

section \<open>Network rules\<close>

text \<open>A block of addresses: the mask counts to its first zero bit.\<close>

lemma leading_ones_le: "leading_ones w n i \<le> n"
  by (induction w n i rule: leading_ones.induct) auto

definition mask_length :: "mcp_policy_rule \<Rightarrow> nat" where
  "mask_length rule = leading_ones (bswap32 (rule_ipv4_mask rule)) 32 0"

lemma network_prefix_bits: "unat (ipv4_prefix_bits (rule_ipv4_mask r)) = 64 + mask_length r"
  using leading_ones_le [of "bswap32 (rule_ipv4_mask r)" 32 0]
  by (simp add: ipv4_prefix_bits_def mask_length_def unat_word_ariths unat_of_nat)

text \<open>Two addresses agree on their first bits, read from the most significant one.\<close>

definition same_block :: "nat \<Rightarrow> u32 \<Rightarrow> u32 \<Rightarrow> bool" where
  "same_block n a b \<longleftrightarrow> drop_bit (32 - n) (bswap32 a) = drop_bit (32 - n) (bswap32 b)"

definition network_covers :: "u32 \<times> u32 \<Rightarrow> mcp_policy_rule \<Rightarrow> bool" where
  "network_covers target rule \<longleftrightarrow>
     rule_rule_type rule = MCP_GUARD_RULE_IPV4_CONNECT \<and> rule_port rule = fst target \<and>
     same_block (mask_length rule) (rule_ipv4_addr rule) (snd target)"

lemma address_bits:
  "bits_of_bytes (le_bytes32 a) = map (\<lambda>i. bit (bswap32 a) (31 - i)) [0..<32]"
  by (simp add: bits_of_bytes_def le_bytes32_def byte_bits_def upt_conv_Cons bit_bswap32 bit_simps)

lemma take_address:
  assumes "n \<le> 32"
  shows "take n (bits_of_bytes (le_bytes32 a)) = take n (bits_of_bytes (le_bytes32 b)) \<longleftrightarrow>
    same_block n a b"
proof -
  have "take n (bits_of_bytes (le_bytes32 a)) = take n (bits_of_bytes (le_bytes32 b)) \<longleftrightarrow>
      (\<forall>i < n. bit (bswap32 a) (31 - i) = bit (bswap32 b) (31 - i))"
    using assms by (auto simp: address_bits take_map)
  also have "\<dots> \<longleftrightarrow> (\<forall>j. 32 - n \<le> j \<and> j < 32 \<longrightarrow> bit (bswap32 a) j = bit (bswap32 b) j)"
    (is "?top \<longleftrightarrow> ?high")
  proof
    assume ?top
    show ?high
    proof (intro allI impI)
      fix j assume "32 - n \<le> j \<and> j < 32"
      then have "31 - j < n" "31 - (31 - j) = j" using assms by auto
      then show "bit (bswap32 a) j = bit (bswap32 b) j" using \<open>?top\<close> by metis
    qed
  next
    assume ?high
    show ?top
    proof (intro allI impI)
      fix i assume "i < n"
      then have "32 - n \<le> 31 - i \<and> 31 - i < 32" using assms by auto
      then show "bit (bswap32 a) (31 - i) = bit (bswap32 b) (31 - i)" using \<open>?high\<close> by blast
    qed
  qed
  also have "\<dots> \<longleftrightarrow> same_block n a b"
  proof
    assume high: "\<forall>j. 32 - n \<le> j \<and> j < 32 \<longrightarrow> bit (bswap32 a) j = bit (bswap32 b) j"
    show "same_block n a b"
      unfolding same_block_def
    proof (rule bit_word_eqI)
      fix j assume "j < LENGTH(32)"
      then show "bit (drop_bit (32 - n) (bswap32 a)) j = bit (drop_bit (32 - n) (bswap32 b)) j"
        using high by (cases "32 - n + j < 32") (auto simp: bit_simps dest: bit_imp_le_length)
    qed
  next
    assume "same_block n a b"
    then have "bit (drop_bit (32 - n) (bswap32 a)) j = bit (drop_bit (32 - n) (bswap32 b)) j" for j
      by (simp add: same_block_def)
    then have all: "bit (bswap32 a) (32 - n + j) = bit (bswap32 b) (32 - n + j)" for j
      by (simp add: bit_drop_bit_eq)
    show "\<forall>j. 32 - n \<le> j \<and> j < 32 \<longrightarrow> bit (bswap32 a) j = bit (bswap32 b) j"
      using all [of "j - (32 - n)" for j] by (metis le_add_diff_inverse)
  qed
  finally show ?thesis .
qed

lemma take_network_bits:
  assumes "n \<le> 32"
  shows "take (64 + n) (bits_of_bytes (le_bytes32 g @ le_bytes32 p @ le_bytes32 a)) =
      take (64 + n) (bits_of_bytes (le_bytes32 g' @ le_bytes32 p' @ le_bytes32 a')) \<longleftrightarrow>
    g = g' \<and> p = p' \<and> same_block n a a'"
  using take_address [OF assms, of a a']
  by (simp add: bits_of_bytes_append bits_of_bytes_inject)

definition network_query_key :: "u32 \<Rightarrow> u32 \<times> u32 \<Rightarrow> mcp_network_lpm_key \<Rightarrow> bool" where
  "network_query_key g target key \<longleftrightarrow>
     key = \<lparr>nlk_prefixlen = 96, nlk_generation = g, nlk_port = fst target,
            nlk_ipv4_addr = snd target\<rparr>"

section \<open>The interpretations\<close>

lemma padded_snprintf:
  "length (cstr v) < n \<Longrightarrow> snprintf_s (zeroed n) n v = padded n (cstr v)"
  by (simp add: snprintf_s_def padded_def zeroed_def Let_def min_def flip: replicate_Suc)

interpretation path_index: prefix_trie plk_prefixlen plk_generation plk_path path_key_bits
  MCP_GUARD_RULE_PATH_PREFIX path_entry path_value_from_rule
  by unfold_locales
    (auto simp: path_key_bits_def path_entry_def path_prefix_bits_def c_strnlen_eq
      terminated_rule_def split: if_splits)

interpretation command_index: prefix_trie clk_prefixlen clk_generation clk_command
  command_key_bits MCP_GUARD_RULE_COMMAND_PREFIX command_entry indexed_value_from_rule
  by unfold_locales
    (auto simp: command_key_bits_def command_entry_def command_prefix_bits_def c_strnlen_eq
      terminated_rule_def padded_snprintf split: if_splits)

interpretation network_index: lpm_index nlk_prefixlen nlk_generation network_key_bits
  "\<lambda>k. le_bytes32 (nlk_port k) @ le_bytes32 (nlk_ipv4_addr k)" network_entry
proof
  show "network_key_bits k = bits_of_bytes
      (le_bytes32 (nlk_generation k) @ le_bytes32 (nlk_port k) @ le_bytes32 (nlk_ipv4_addr k))" for k
    by (simp add: network_key_bits_def)
  show "nlk_generation k = g \<and> 32 \<le> unat (nlk_prefixlen k)"
    if "network_entry g r = Entry k v" for g r k v
    using that network_prefix_bits [of r] by (auto simp: network_entry_def split: if_splits)
  show "e \<noteq> 0" if "network_entry g r = Fail e" for g r e
    using that by (simp add: network_entry_def split: if_splits)
qed

interpretation network_index: rule_trie nlk_prefixlen nlk_generation network_key_bits
  "\<lambda>k. le_bytes32 (nlk_port k) @ le_bytes32 (nlk_ipv4_addr k)" network_entry
  "\<lambda>r. True" network_covers mask_length 64 network_query_key indexed_value_from_rule
proof
  show "network_entry g r \<noteq> Skip" if "network_covers q r" for q g r
    using that by (simp add: network_covers_def network_entry_def)
  show "v = indexed_value_from_rule r \<and> unat (nlk_prefixlen k) = 64 + mask_length r"
    if "network_entry g r = Entry k v" for g r k v
    using that network_prefix_bits [of r] by (auto simp: network_entry_def split: if_splits)
  show "nlk_generation key = g" if "network_query_key g q key" for g q key
    using that by (simp add: network_query_key_def)
  show "lpm_matches nlk_prefixlen network_key_bits k key \<longleftrightarrow> network_covers q r"
    if "network_entry g r = Entry k v" "network_query_key g q key" for g r k v q key
  proof -
    have ty: "rule_rule_type r = MCP_GUARD_RULE_IPV4_CONNECT"
      and k: "k = \<lparr>nlk_prefixlen = ipv4_prefix_bits (rule_ipv4_mask r), nlk_generation = g,
        nlk_port = rule_port r, nlk_ipv4_addr = rule_ipv4_addr r\<rparr>"
      using that(1) by (simp_all add: network_entry_def split: if_splits)
    have len: "mask_length r \<le> 32" using leading_ones_le by (simp add: mask_length_def)
    then have "ipv4_prefix_bits (rule_ipv4_mask r) \<le> 96"
      using network_prefix_bits [of r] by (simp add: word_le_nat_alt)
    moreover have key: "key = \<lparr>nlk_prefixlen = 96, nlk_generation = g, nlk_port = fst q,
        nlk_ipv4_addr = snd q\<rparr>"
      using that(2) by (simp only: network_query_key_def)
    ultimately have "lpm_matches nlk_prefixlen network_key_bits k key \<longleftrightarrow>
        rule_port r = fst q \<and> same_block (mask_length r) (rule_ipv4_addr r) (snd q)"
      unfolding lpm_matches_def network_key_bits_def k key
      by (simp only: mcp_network_lpm_key.simps network_prefix_bits take_network_bits [OF len]
          simp_thms)
    then show ?thesis using ty by (simp only: network_covers_def simp_thms)
  qed
qed

interpretation resource_index: generation_index "(=)" rpk_generation "\<lambda>k. True" resource_entry
  by unfold_locales (auto simp: resource_entry_def split: if_splits)

end
