(* ===== verification/Policy_Load.thy ===== *)
theory Policy_Load
  imports Indexes
begin

text \<open>
  \<open>mcp_policy_load_dir\<close> of \<^verbatim>\<open>loader/policy_loader.c\<close> and the functions it calls on the maps:
  snapshot, clearing and writing of the four indexes, the rule array, the scope maps, the
  configuration and the epoch, and the roll-back.  The files are read by \<open>read_policy_dir\<close>
  of \<^verbatim>\<open>Rule_Files\<close>.

  A step takes the number of system calls made so far and the maps, and returns the error code
  with the new ones; \<open>None\<close> stands for a loop that does not end.
\<close>

section \<open>System calls and steps\<close>

text \<open>The kernel's operations on each map; \<open>k_array\<close> gives the \<open>errno\<close> of the n-th call when it
  updates an array map.\<close>

record policy_kernel =
  k_path :: "(mcp_path_lpm_key, mcp_path_policy_value) map_ops"
  k_command :: "(mcp_command_lpm_key, mcp_indexed_policy_value) map_ops"
  k_network :: "(mcp_network_lpm_key, mcp_indexed_policy_value) map_ops"
  k_resource :: "(mcp_resource_policy_key, mcp_indexed_policy_value) map_ops"
  k_comm :: "(mcp_comm_scope_key, mcp_scope_value) map_ops"
  k_pid :: "(u32, mcp_scope_value) map_ops"
  k_tgid :: "(u32, mcp_scope_value) map_ops"
  k_array :: "nat \<Rightarrow> c_int"

record policy_fds =
  fd_rules :: c_int
  fd_path :: c_int
  fd_command :: c_int
  fd_network :: c_int
  fd_resource :: c_int
  fd_comm :: c_int
  fd_pid :: c_int
  fd_tgid :: c_int
  fd_config :: c_int
  fd_epoch :: c_int

type_synonym loader = "nat \<times> bpf_state"
type_synonym step = "loader \<Rightarrow> (c_int \<times> loader) option"

definition array_update ::
  "policy_kernel \<Rightarrow> c_int \<Rightarrow> nat \<Rightarrow> (u32 \<rightharpoonup> 'v) \<Rightarrow> u32 \<Rightarrow> 'v \<Rightarrow> c_int \<times> (u32 \<rightharpoonup> 'v)" where
  "array_update kern fd n a key v =
     (if fd < 0 then (9, a)
      else if a key = None then (7, a)
      else if k_array kern n \<noteq> 0 then (k_array kern n, a)
      else (0, a(key \<mapsto> v)))"

text \<open>A loop on one of the maps as a step.\<close>

definition on_map ::
  "(bpf_state \<Rightarrow> 'm) \<Rightarrow> (('m \<Rightarrow> 'm) \<Rightarrow> bpf_state \<Rightarrow> bpf_state) \<Rightarrow>
   (nat \<Rightarrow> 'm \<Rightarrow> (c_int \<times> nat \<times> 'm) option) \<Rightarrow> step" where
  "on_map sel upd f x =
     map_option (\<lambda>(err, n, m). (err, n, upd (\<lambda>_. m) (snd x))) (f (fst x) (sel (snd x)))"

text \<open>
  Three ways the source strings steps together: \<open>attempt\<close> undoes after an error and returns it,
  \<open>regardless\<close> ignores the first result, \<open>keep_first\<close> goes on and returns the first error.
\<close>

definition attempt :: "step \<Rightarrow> step \<Rightarrow> step \<Rightarrow> step" where
  "attempt a undo next_step x =
     (case a x of
        None \<Rightarrow> None
      | Some (err, y) \<Rightarrow>
          if err \<noteq> 0 then map_option (\<lambda>(_, z). (err, z)) (undo y) else next_step y)"

definition regardless :: "step \<Rightarrow> step \<Rightarrow> step" where
  "regardless a b x = (case a x of None \<Rightarrow> None | Some (_, y) \<Rightarrow> b y)"

definition keep_first :: "step \<Rightarrow> step \<Rightarrow> step" where
  "keep_first a b x =
     (case a x of
        None \<Rightarrow> None
      | Some (err, y) \<Rightarrow> map_option (\<lambda>(err', z). (if err \<noteq> 0 then err else err', z)) (b y))"

definition skip_step :: step where
  "skip_step x = Some (0, x)"

text \<open>\<^verbatim>\<open>if (err) return err;\<close>\<close>

abbreviation and_then :: "step \<Rightarrow> step \<Rightarrow> step" where
  "and_then a b \<equiv> attempt a skip_step b"

section \<open>Snapshot\<close>

record policy_map_snapshot =
  snap_rules :: "mcp_policy_rule list"
  snap_config :: mcp_policy_config
  snap_path :: path_trie
  snap_command :: command_trie
  snap_network :: network_trie
  snap_resource :: resource_hash
  snap_comm :: "(mcp_comm_scope_key \<times> mcp_scope_value) list"
  snap_pid :: "(u32 \<times> mcp_scope_value) list"
  snap_tgid :: "(u32 \<times> mcp_scope_value) list"
  snap_have_config :: bool

definition snapshot_rules :: "c_int \<Rightarrow> bpf_state \<Rightarrow> c_int + mcp_policy_rule list" where
  "snapshot_rules fd s =
     (if fd < 0 then Inl (- 22)
      else Inr (map (\<lambda>i. case policy_rules s (of_nat i) of None \<Rightarrow> zero_rule | Some r \<Rightarrow> r)
                 [0..<MCP_GUARD_MAX_RULES]))"

text \<open>The configuration and whether there is one.\<close>

definition snapshot_config :: "c_int \<Rightarrow> bpf_state \<Rightarrow> c_int + mcp_policy_config \<times> bool" where
  "snapshot_config fd s =
     (if fd < 0 then Inl (- 22)
      else
        Inr (case policy_config s MCP_GUARD_CONFIG_KEY of
               None \<Rightarrow> (zero_config, False)
             | Some cfg \<Rightarrow> (cfg, True)))"

definition snapshot_path_trie ::
  "policy_kernel \<Rightarrow> c_int \<Rightarrow> nat \<Rightarrow> bpf_state \<Rightarrow> (c_int + path_trie) option" where
  "snapshot_path_trie kern fd n s =
     snapshot_map fd (k_path kern) MCP_GUARD_MAX_RULES n (path_policy_trie s)"

definition snapshot_command_trie ::
  "policy_kernel \<Rightarrow> c_int \<Rightarrow> nat \<Rightarrow> bpf_state \<Rightarrow> (c_int + command_trie) option" where
  "snapshot_command_trie kern fd n s =
     snapshot_map fd (k_command kern) MCP_GUARD_MAX_RULES n (command_policy_trie s)"

definition snapshot_network_trie ::
  "policy_kernel \<Rightarrow> c_int \<Rightarrow> nat \<Rightarrow> bpf_state \<Rightarrow> (c_int + network_trie) option" where
  "snapshot_network_trie kern fd n s =
     snapshot_map fd (k_network kern) MCP_GUARD_MAX_RULES n (network_policy_trie s)"

definition snapshot_resource_hash ::
  "policy_kernel \<Rightarrow> c_int \<Rightarrow> nat \<Rightarrow> bpf_state \<Rightarrow> (c_int + resource_hash) option" where
  "snapshot_resource_hash kern fd n s =
     snapshot_map fd (k_resource kern) MCP_GUARD_MAX_RULES n (resource_policy_hash s)"

definition snapshot_comm_scopes ::
  "policy_kernel \<Rightarrow> c_int \<Rightarrow> nat \<Rightarrow> bpf_state \<Rightarrow>
   (c_int + (mcp_comm_scope_key \<times> mcp_scope_value) list) option" where
  "snapshot_comm_scopes kern fd n s =
     snapshot_map fd (k_comm kern) MCP_GUARD_MAX_SCOPES n (scope_comm s)"

definition snapshot_id_scopes ::
  "(u32, mcp_scope_value) map_ops \<Rightarrow> c_int \<Rightarrow> nat \<Rightarrow> (u32 \<times> mcp_scope_value) list \<Rightarrow>
   (c_int + (u32 \<times> mcp_scope_value) list) option" where
  "snapshot_id_scopes ops fd n m = snapshot_map fd ops MCP_GUARD_MAX_SCOPES n m"

text \<open>A result of a snapshot function, or its error for the caller.\<close>

definition bind_result :: "('e + 'a) option \<Rightarrow> ('a \<Rightarrow> ('e + 'b) option) \<Rightarrow> ('e + 'b) option" where
  "bind_result r f =
     (case r of None \<Rightarrow> None | Some (Inl e) \<Rightarrow> Some (Inl e) | Some (Inr v) \<Rightarrow> f v)"

definition snapshot_policy_maps ::
  "policy_kernel \<Rightarrow> policy_fds \<Rightarrow> nat \<Rightarrow> bpf_state \<Rightarrow> (c_int + policy_map_snapshot) option" where
  "snapshot_policy_maps kern fds n s =
     bind_result (Some (snapshot_rules (fd_rules fds) s)) (\<lambda>rules.
     bind_result (Some (snapshot_config (fd_config fds) s)) (\<lambda>config.
     bind_result (snapshot_path_trie kern (fd_path fds) n s) (\<lambda>path.
     bind_result (snapshot_command_trie kern (fd_command fds) n s) (\<lambda>command.
     bind_result (snapshot_network_trie kern (fd_network fds) n s) (\<lambda>network.
     bind_result (snapshot_resource_hash kern (fd_resource fds) n s) (\<lambda>resource.
     bind_result (snapshot_comm_scopes kern (fd_comm fds) n s) (\<lambda>comm.
     bind_result (snapshot_id_scopes (k_pid kern) (fd_pid fds) n (scope_pid s)) (\<lambda>pid.
     bind_result (snapshot_id_scopes (k_tgid kern) (fd_tgid fds) n (scope_tgid s)) (\<lambda>tgid.
     Some (Inr \<lparr>snap_rules = rules, snap_config = fst config, snap_path = path,
       snap_command = command, snap_network = network, snap_resource = resource,
       snap_comm = comm, snap_pid = pid, snap_tgid = tgid,
       snap_have_config = snd config\<rparr>))))))))))"

section \<open>The indexes\<close>

abbreviation on_path where "on_path \<equiv> on_map path_policy_trie path_policy_trie_update"
abbreviation on_command where
  "on_command \<equiv> on_map command_policy_trie command_policy_trie_update"
abbreviation on_network where
  "on_network \<equiv> on_map network_policy_trie network_policy_trie_update"
abbreviation on_resource where
  "on_resource \<equiv> on_map resource_policy_hash resource_policy_hash_update"

definition clear_path_trie :: "policy_kernel \<Rightarrow> c_int \<Rightarrow> step" where
  "clear_path_trie kern fd = on_path (\<lambda>n m. map_option (Pair 0) (clear_all fd (k_path kern) n m))"

definition clear_path_generation :: "policy_kernel \<Rightarrow> c_int \<Rightarrow> u32 \<Rightarrow> step" where
  "clear_path_generation kern fd g =
     on_path (\<lambda>n m. map_option (Pair 0) (clear_generation fd (k_path kern) plk_generation g n m))"

definition clear_command_generation :: "policy_kernel \<Rightarrow> c_int \<Rightarrow> u32 \<Rightarrow> step" where
  "clear_command_generation kern fd g =
     on_command
       (\<lambda>n m. map_option (Pair 0) (clear_generation fd (k_command kern) clk_generation g n m))"

definition clear_network_generation :: "policy_kernel \<Rightarrow> c_int \<Rightarrow> u32 \<Rightarrow> step" where
  "clear_network_generation kern fd g =
     on_network
       (\<lambda>n m. map_option (Pair 0) (clear_generation fd (k_network kern) nlk_generation g n m))"

definition clear_resource_generation :: "policy_kernel \<Rightarrow> c_int \<Rightarrow> u32 \<Rightarrow> step" where
  "clear_resource_generation kern fd g =
     on_resource
       (\<lambda>n m. map_option (Pair 0) (clear_generation fd (k_resource kern) rpk_generation g n m))"

text \<open>The writers run over the rules up to \<open>next_index\<close>.\<close>

definition write_path_trie :: "policy_kernel \<Rightarrow> c_int \<Rightarrow> policy_load_state \<Rightarrow> u32 \<Rightarrow> step" where
  "write_path_trie kern fd state g =
     on_path (\<lambda>n m. Some
       (if fd < 0 then (0, n, m)
        else write_loop fd (k_path kern) (path_entry g) (loaded_rules state) n m))"

definition write_command_trie :: "policy_kernel \<Rightarrow> c_int \<Rightarrow> policy_load_state \<Rightarrow> u32 \<Rightarrow> step" where
  "write_command_trie kern fd state g =
     on_command (\<lambda>n m. Some
       (if fd < 0 then (0, n, m)
        else write_loop fd (k_command kern) (command_entry g) (loaded_rules state) n m))"

definition write_network_trie :: "policy_kernel \<Rightarrow> c_int \<Rightarrow> policy_load_state \<Rightarrow> u32 \<Rightarrow> step" where
  "write_network_trie kern fd state g =
     on_network (\<lambda>n m. Some
       (if fd < 0 then (0, n, m)
        else write_loop fd (k_network kern) (network_entry g) (loaded_rules state) n m))"

definition write_resource_hash :: "policy_kernel \<Rightarrow> c_int \<Rightarrow> policy_load_state \<Rightarrow> u32 \<Rightarrow> step" where
  "write_resource_hash kern fd state g =
     on_resource (\<lambda>n m. Some
       (if fd < 0 then (0, n, m)
        else write_loop fd (k_resource kern) (resource_entry g) (loaded_rules state) n m))"

text \<open>Putting the entries of a snapshot back, one after the other, up to the first error.\<close>

definition copy_entry :: "'k \<times> 'v \<Rightarrow> ('k, 'v) write_step" where
  "copy_entry e = Entry (fst e) (snd e)"

definition restore_path_trie :: "policy_kernel \<Rightarrow> c_int \<Rightarrow> policy_map_snapshot \<Rightarrow> step" where
  "restore_path_trie kern fd snap =
     (if fd < 0 then skip_step
      else
        and_then (clear_path_trie kern fd)
          (on_path (\<lambda>n m. Some (write_loop fd (k_path kern) copy_entry (snap_path snap) n m))))"

definition restore_command_trie :: "policy_kernel \<Rightarrow> c_int \<Rightarrow> policy_map_snapshot \<Rightarrow> step" where
  "restore_command_trie kern fd snap =
     (if fd < 0 then skip_step
      else
        and_then (clear_command_generation kern fd (cfg_active_generation (snap_config snap)))
          (on_command
            (\<lambda>n m. Some (write_loop fd (k_command kern) copy_entry (snap_command snap) n m))))"

definition restore_network_trie :: "policy_kernel \<Rightarrow> c_int \<Rightarrow> policy_map_snapshot \<Rightarrow> step" where
  "restore_network_trie kern fd snap =
     (if fd < 0 then skip_step
      else
        and_then (clear_network_generation kern fd (cfg_active_generation (snap_config snap)))
          (on_network
            (\<lambda>n m. Some (write_loop fd (k_network kern) copy_entry (snap_network snap) n m))))"

definition restore_resource_hash :: "policy_kernel \<Rightarrow> c_int \<Rightarrow> policy_map_snapshot \<Rightarrow> step" where
  "restore_resource_hash kern fd snap =
     (if fd < 0 then skip_step
      else
        and_then (clear_resource_generation kern fd (cfg_active_generation (snap_config snap)))
          (on_resource
            (\<lambda>n m. Some (write_loop fd (k_resource kern) copy_entry (snap_resource snap) n m))))"

section \<open>Rules, scopes, configuration, epoch\<close>

text \<open>The loop over the indexes \<open>is\<close> of the rule array.\<close>

fun write_rules_loop ::
  "policy_kernel \<Rightarrow> c_int \<Rightarrow> policy_load_state \<Rightarrow> nat list \<Rightarrow> nat \<Rightarrow> (u32 \<rightharpoonup> mcp_policy_rule) \<Rightarrow>
   c_int \<times> nat \<times> (u32 \<rightharpoonup> mcp_policy_rule)" where
  "write_rules_loop kern fd state [] n a = (0, n, a)"
| "write_rules_loop kern fd state (i # is) n a =
     (let rule = (if i < unat (pls_next_index state) then pls_rules state ! i else zero_rule);
          (errno, a') = array_update kern fd n a (of_nat i) rule
      in
      if errno \<noteq> 0 then (- errno, Suc n, a') else write_rules_loop kern fd state is (Suc n) a')"

definition write_rules :: "policy_kernel \<Rightarrow> c_int \<Rightarrow> policy_load_state \<Rightarrow> step" where
  "write_rules kern fd state =
     on_map policy_rules policy_rules_update
       (\<lambda>n a. Some (write_rules_loop kern fd state [0..<MCP_GUARD_MAX_RULES] n a))"

fun restore_rules_loop ::
  "policy_kernel \<Rightarrow> c_int \<Rightarrow> mcp_policy_rule list \<Rightarrow> nat list \<Rightarrow> c_int \<Rightarrow> nat \<Rightarrow>
   (u32 \<rightharpoonup> mcp_policy_rule) \<Rightarrow> c_int \<times> nat \<times> (u32 \<rightharpoonup> mcp_policy_rule)" where
  "restore_rules_loop kern fd rules [] first_err n a = (first_err, n, a)"
| "restore_rules_loop kern fd rules (i # is) first_err n a =
     (let (errno, a') = array_update kern fd n a (of_nat i) (rules ! i) in
      restore_rules_loop kern fd rules is
        (if errno \<noteq> 0 \<and> first_err = 0 then - errno else first_err) (Suc n) a')"

definition clear_comm_scopes :: "policy_kernel \<Rightarrow> c_int \<Rightarrow> step" where
  "clear_comm_scopes kern fd =
     on_map scope_comm scope_comm_update
       (\<lambda>n m. map_option (Pair 0) (clear_all fd (k_comm kern) n m))"

text \<open>The C function is called for the pid and for the tgid map.\<close>

definition clear_id_scopes ::
  "(u32, mcp_scope_value) map_ops \<Rightarrow> c_int \<Rightarrow> nat \<Rightarrow> (u32 \<times> mcp_scope_value) list \<Rightarrow>
   (c_int \<times> nat \<times> (u32 \<times> mcp_scope_value) list) option" where
  "clear_id_scopes ops fd n m = map_option (Pair 0) (clear_all fd ops n m)"

definition scope_value :: "mcp_policy_config \<Rightarrow> u32 \<Rightarrow> mcp_scope_value" where
  "scope_value config selector =
     \<lparr>sv_profile_id = cfg_profile_id config, sv_agent_id = cfg_agent_id config,
      sv_selector_type = selector\<rparr>"

abbreviation on_comm where "on_comm \<equiv> on_map scope_comm scope_comm_update"
abbreviation on_pid where "on_pid \<equiv> on_map scope_pid scope_pid_update"
abbreviation on_tgid where "on_tgid \<equiv> on_map scope_tgid scope_tgid_update"

definition write_scope_maps ::
  "policy_kernel \<Rightarrow> policy_fds \<Rightarrow> scope_load_state \<Rightarrow> mcp_policy_config \<Rightarrow> step" where
  "write_scope_maps kern fds scope config =
     and_then (clear_comm_scopes kern (fd_comm fds))
    (and_then (on_pid (clear_id_scopes (k_pid kern) (fd_pid fds)))
    (and_then (on_tgid (clear_id_scopes (k_tgid kern) (fd_tgid fds)))
    (and_then (on_comm (\<lambda>n m. Some (write_loop (fd_comm fds) (k_comm kern)
        (\<lambda>key. Entry key (scope_value config MCP_GUARD_SCOPE_SELECTOR_COMM))
        (sls_comm_keys scope) n m)))
    (and_then (on_pid (\<lambda>n m. Some (write_loop (fd_pid fds) (k_pid kern)
        (\<lambda>key. Entry key (scope_value config MCP_GUARD_SCOPE_SELECTOR_PID))
        (sls_pid_keys scope) n m)))
      (on_tgid (\<lambda>n m. Some (write_loop (fd_tgid fds) (k_tgid kern)
        (\<lambda>key. Entry key (scope_value config MCP_GUARD_SCOPE_SELECTOR_TGID))
        (sls_tgid_keys scope) n m)))))))"

definition write_config :: "policy_kernel \<Rightarrow> c_int \<Rightarrow> mcp_policy_config \<Rightarrow> step" where
  "write_config kern fd config =
     on_map policy_config policy_config_update
       (\<lambda>n a. Some (case array_update kern fd n a MCP_GUARD_CONFIG_KEY config of
          (errno, a') \<Rightarrow> (- errno, Suc n, a')))"

definition bump_epoch :: "policy_kernel \<Rightarrow> c_int \<Rightarrow> step" where
  "bump_epoch kern fd =
     on_map global_epoch global_epoch_update
       (\<lambda>n a. Some (
          let epoch = (case a MCP_GUARD_EPOCH_KEY of None \<Rightarrow> 0 | Some e \<Rightarrow> e) + 1;
              epoch' = (if epoch = 0 then 1 else epoch);
              (errno, a') = array_update kern fd n a MCP_GUARD_EPOCH_KEY epoch'
          in (- errno, Suc n, a')))"

section \<open>Roll-back\<close>

definition restore_policy_maps ::
  "policy_kernel \<Rightarrow> policy_fds \<Rightarrow> policy_map_snapshot \<Rightarrow> step" where
  "restore_policy_maps kern fds snap =
     keep_first (on_map policy_rules policy_rules_update (\<lambda>n a. Some
       (restore_rules_loop kern (fd_rules fds) (snap_rules snap) [0..<MCP_GUARD_MAX_RULES] 0 n a)))
    (keep_first (restore_path_trie kern (fd_path fds) snap)
    (keep_first (restore_command_trie kern (fd_command fds) snap)
    (keep_first (restore_network_trie kern (fd_network fds) snap)
    (keep_first (restore_resource_hash kern (fd_resource fds) snap)
    (keep_first (clear_comm_scopes kern (fd_comm fds))
    (keep_first (on_comm (\<lambda>n m. Some
       (update_all (fd_comm fds) (k_comm kern) (snap_comm snap) 0 n m)))
    (keep_first (on_pid (clear_id_scopes (k_pid kern) (fd_pid fds)))
    (keep_first (on_pid (\<lambda>n m. Some
       (update_all (fd_pid fds) (k_pid kern) (snap_pid snap) 0 n m)))
    (keep_first (on_tgid (clear_id_scopes (k_tgid kern) (fd_tgid fds)))
    (keep_first (on_tgid (\<lambda>n m. Some
       (update_all (fd_tgid fds) (k_tgid kern) (snap_tgid snap) 0 n m)))
      (if snap_have_config snap then write_config kern (fd_config fds) (snap_config snap)
       else skip_step)))))))))))"

section \<open>Loading a policy directory\<close>

record mcp_policy_load_result =
  plr_rule_count :: u32
  plr_flags :: u32
  plr_active_generation :: u32
  plr_profile_id :: u32
  plr_agent_id :: u32
  plr_scope_mode :: u32
  plr_scope_count :: u32
  plr_epoch :: u64
  plr_profile_name :: buffer

text \<open>The generation to write: the one after the active generation, never 0.\<close>

definition next_generation :: "policy_map_snapshot \<Rightarrow> u32" where
  "next_generation snap =
     (let g = (if snap_have_config snap then cfg_active_generation (snap_config snap) + 1 else 1)
      in if g = 0 then 1 else g)"

definition clear_generations :: "policy_kernel \<Rightarrow> policy_fds \<Rightarrow> u32 \<Rightarrow> step" where
  "clear_generations kern fds g =
     regardless (clear_path_generation kern (fd_path fds) g)
    (regardless (clear_command_generation kern (fd_command fds) g)
    (regardless (clear_network_generation kern (fd_network fds) g)
      (regardless (clear_resource_generation kern (fd_resource fds) g) skip_step)))"

text \<open>
  The writing part of \<open>mcp_policy_load_dir\<close>: every step with its own way back.  The old
  generation is retired once the new one is in force.
\<close>

definition retire_generation ::
  "policy_kernel \<Rightarrow> policy_fds \<Rightarrow> policy_map_snapshot \<Rightarrow> mcp_policy_config \<Rightarrow> step" where
  "retire_generation kern fds snap config =
     (if snap_have_config snap \<and>
         cfg_active_generation (snap_config snap) \<noteq> cfg_active_generation config
      then clear_generations kern fds (cfg_active_generation (snap_config snap))
      else skip_step)"

definition publish_policy ::
  "policy_kernel \<Rightarrow> policy_fds \<Rightarrow> policy_map_snapshot \<Rightarrow> policy_load_state \<Rightarrow> scope_load_state \<Rightarrow>
   mcp_policy_config \<Rightarrow> step" where
  "publish_policy kern fds snap state scope config =
     (let g = cfg_active_generation config;
          restore = restore_policy_maps kern fds snap;
          undo = regardless (clear_generations kern fds g) restore
      in
      attempt (write_rules kern (fd_rules fds) state) undo
     (attempt (write_scope_maps kern fds scope config) undo
     (attempt (write_config kern (fd_config fds) config) undo
     (attempt (bump_epoch kern (fd_epoch fds)) restore
       (retire_generation kern fds snap config)))))"

definition write_policy ::
  "policy_kernel \<Rightarrow> policy_fds \<Rightarrow> policy_map_snapshot \<Rightarrow> policy_load_state \<Rightarrow> scope_load_state \<Rightarrow>
   mcp_policy_config \<Rightarrow> step" where
  "write_policy kern fds snap state scope config =
     (let g = cfg_active_generation config;
          restore = restore_policy_maps kern fds snap;
          undo_path = regardless (clear_path_generation kern (fd_path fds) g);
          undo_command = regardless (clear_command_generation kern (fd_command fds) g);
          undo_network = regardless (clear_network_generation kern (fd_network fds) g);
          undo_resource = regardless (clear_resource_generation kern (fd_resource fds) g)
      in
      attempt (clear_path_generation kern (fd_path fds) g) restore
     (attempt (clear_command_generation kern (fd_command fds) g) restore
     (attempt (clear_network_generation kern (fd_network fds) g) restore
     (attempt (clear_resource_generation kern (fd_resource fds) g) restore
     (attempt (write_path_trie kern (fd_path fds) state g) (undo_path restore)
     (attempt (write_command_trie kern (fd_command fds) state g) (undo_path (undo_command restore))
     (attempt (write_network_trie kern (fd_network fds) state g)
        (undo_path (undo_command (undo_network restore)))
     (attempt (write_resource_hash kern (fd_resource fds) state g)
        (undo_path (undo_command (undo_network (undo_resource restore))))
       (publish_policy kern fds snap state scope config)))))))))"

definition load_result :: "mcp_policy_config \<Rightarrow> u64 \<Rightarrow> mcp_policy_load_result" where
  "load_result config epoch =
     \<lparr>plr_rule_count = cfg_rule_count config, plr_flags = cfg_flags config,
      plr_active_generation = cfg_active_generation config,
      plr_profile_id = cfg_profile_id config, plr_agent_id = cfg_agent_id config,
      plr_scope_mode = cfg_scope_mode config, plr_scope_count = cfg_scope_count config,
      plr_epoch = epoch,
      plr_profile_name = snprintf_s (zeroed MCP_GUARD_PROFILE_NAME_LEN)
        MCP_GUARD_PROFILE_NAME_LEN (cfg_profile_name config)\<rparr>"

text \<open>
  The result is the error or what \<open>*result\<close> receives, with the maps.  The epoch reported is the
  one the bump has stored.
\<close>

definition mcp_policy_load_dir ::
  "policy_kernel \<Rightarrow> policy_fds \<Rightarrow> file_system \<Rightarrow> string \<Rightarrow> loader \<Rightarrow>
   ((c_int + mcp_policy_load_result) \<times> loader) option" where
  "mcp_policy_load_dir kern fds fs policy_dir x =
     (if fd_rules fds < 0 \<or> fd_config fds < 0 \<or> fd_epoch fds < 0 then Some (Inl (- 22), x)
      else
        case read_policy_dir fs policy_dir of
          Inl err \<Rightarrow> Some (Inl err, x)
        | Inr (config0, scope, state) \<Rightarrow>
            (case snapshot_policy_maps kern fds (fst x) (snd x) of
               None \<Rightarrow> None
             | Some (Inl err) \<Rightarrow> Some (Inl err, x)
             | Some (Inr snap) \<Rightarrow>
                 let config = config0\<lparr>cfg_active_generation := next_generation snap\<rparr> in
                 if validate_policy_state state config \<noteq> 0
                 then Some (Inl (validate_policy_state state config), x)
                 else
                   map_option
                     (\<lambda>(err, y).
                        (if err \<noteq> 0 then Inl err
                         else Inr (load_result config (mcp_current_epoch (snd y))), y))
                     (write_policy kern fds snap state scope config x)))"

end
