(* ===== verification/Staging.thy ===== *)
theory Staging
  imports Policy_Load
begin

text \<open>
  How an index moves through a reload: total-correctness triples for the steps of the loader, and
  what clearing, writing, restoring and retiring a generation do to an index, for any index that
  meets the contract \<open>generation_index\<close>.
\<close>

section \<open>Triples\<close>

text \<open>\<open>achieves P a Q\<close>: from a state with \<open>P\<close> the step \<open>a\<close> ends, with an error code and a state
  that satisfy \<open>Q\<close>.\<close>

definition achieves :: "(loader \<Rightarrow> bool) \<Rightarrow> step \<Rightarrow> (c_int \<Rightarrow> loader \<Rightarrow> bool) \<Rightarrow> bool" where
  "achieves P a Q \<longleftrightarrow> (\<forall>x. P x \<longrightarrow> (\<exists>err y. a x = Some (err, y) \<and> Q err y))"

lemma achievesD:
  assumes "achieves P a Q" and "P x"
  obtains err y where "a x = Some (err, y)" "Q err y"
  using assms unfolding achieves_def by blast

lemma achieves_attempt:
  assumes "achieves P a R"
    and "\<And>err. err \<noteq> 0 \<Longrightarrow> achieves (R err) undo (\<lambda>_. Q err)"
    and "achieves (R 0) b Q"
  shows "achieves P (attempt a undo b) Q"
  unfolding achieves_def
proof (intro allI impI)
  fix x assume "P x"
  with assms(1) obtain err y where a: "a x = Some (err, y)" "R err y" by (rule achievesD)
  show "\<exists>err y. attempt a undo b x = Some (err, y) \<and> Q err y"
  proof (cases "err = 0")
    case True
    with a(2) have "R 0 y" by simp
    with assms(3) obtain err' z where "b y = Some (err', z)" "Q err' z" by (rule achievesD)
    then show ?thesis using a True by (simp add: attempt_def)
  next
    case False
    from assms(2) [OF False] a(2) obtain err' z where "undo y = Some (err', z)" "Q err z"
      by (rule achievesD)
    then show ?thesis using a False by (simp add: attempt_def)
  qed
qed

lemma achieves_skip: "(\<And>x. P x \<Longrightarrow> Q 0 x) \<Longrightarrow> achieves P skip_step Q"
  by (simp add: achieves_def skip_step_def)

lemma achieves_regardless:
  assumes "achieves P a (\<lambda>_. R)" and "achieves R b Q"
  shows "achieves P (regardless a b) Q"
  unfolding achieves_def
proof (intro allI impI)
  fix x assume "P x"
  with assms(1) obtain err y where a: "a x = Some (err, y)" "R y" by (rule achievesD)
  from assms(2) a(2) obtain err' z where "b y = Some (err', z)" "Q err' z" by (rule achievesD)
  then show "\<exists>err y. regardless a b x = Some (err, y) \<and> Q err y"
    using a by (simp add: regardless_def)
qed

lemma achieves_keep_first:
  assumes "achieves P a (\<lambda>err y. err = 0 \<and> R y)" and "achieves R b Q"
  shows "achieves P (keep_first a b) Q"
  unfolding achieves_def
proof (intro allI impI)
  fix x assume "P x"
  with assms(1) obtain err y where a: "a x = Some (err, y)" "err = 0 \<and> R y" by (rule achievesD)
  from assms(2) conjunct2 [OF a(2)] obtain err' z where "b y = Some (err', z)" "Q err' z"
    by (rule achievesD)
  then show "\<exists>err y. keep_first a b x = Some (err, y) \<and> Q err y"
    using a by (simp add: keep_first_def)
qed

lemma achieves_mono:
  assumes "achieves P a Q" and "\<And>x. P' x \<Longrightarrow> P x" and "\<And>err y. Q err y \<Longrightarrow> Q' err y"
  shows "achieves P' a Q'"
  using assms unfolding achieves_def by metis

lemma achieves_on_map:
  assumes "\<And>n s. P (n, s) \<Longrightarrow>
    \<exists>err n' m. f n (sel s) = Some (err, n', m) \<and> Q err (n', upd (\<lambda>_. m) s)"
  shows "achieves P (on_map sel upd f) Q"
  unfolding achieves_def on_map_def using assms by fastforce

section \<open>One index during a reload\<close>

context generation_index
begin

text \<open>\<open>sound m\<close>: no two entries of one name, every key well formed.\<close>

definition sound :: "('k \<times> 'v) list \<Rightarrow> bool" where
  "sound m \<longleftrightarrow> entries_ok same m \<and> (\<forall>e \<in> set m. wf_key (fst e))"

text \<open>\<open>staged g m0 m\<close>: the index \<open>m\<close> differs from \<open>m0\<close> in generation \<open>g\<close> only.\<close>

definition staged :: "u32 \<Rightarrow> ('k \<times> 'v) list \<Rightarrow> ('k \<times> 'v) list \<Rightarrow> bool" where
  "staged g m0 m \<longleftrightarrow>
     entries_ok same m \<and> (\<forall>e \<in> set m. wf_key (fst e)) \<and>
     {e \<in> set m. gen (fst e) \<noteq> g} = {e \<in> set m0. gen (fst e) \<noteq> g}"

lemma staged_refl: "sound m \<Longrightarrow> staged g m m"
  by (simp add: staged_def sound_def)

lemma staged_sound: "staged g m0 m \<Longrightarrow> sound m"
  by (simp add: staged_def sound_def)

lemma staged_visible: "staged g m0 m \<Longrightarrow> g' \<noteq> g \<Longrightarrow> visible gen g' (set m) = visible gen g' (set m0)"
  unfolding staged_def visible_def by blast

lemma other_visible:
  assumes "\<And>g'. g' \<noteq> g \<Longrightarrow> visible gen g' S = visible gen g' T"
  shows "{e \<in> S. gen (fst e) \<noteq> g} = {e \<in> T. gen (fst e) \<noteq> g}"
proof -
  have "e \<in> S \<longleftrightarrow> e \<in> T" if "gen (fst e) \<noteq> g" for e
    using assms [OF that] unfolding visible_def by blast
  then show ?thesis by blast
qed

lemma staged_shrink:
  assumes "staged g m0 m" and "entries_ok same m'" and "set m' \<subseteq> set m"
    and "{e \<in> set m'. gen (fst e) \<noteq> g} = {e \<in> set m. gen (fst e) \<noteq> g}"
  shows "staged g m0 m'"
  using assms unfolding staged_def by blast

lemma staged_clear:
  assumes "map_law same ops" and "0 \<le> fd" and m: "staged g m0 m"
  shows "\<exists>n' m'. clear_generation fd ops gen g n m = Some (n', m') \<and> n \<le> n' \<and>
    staged g m0 m' \<and> visible gen g (set m') = {}"
proof -
  have "entries_ok same m" using m by (simp add: staged_def)
  from clear_generation_ends [OF assms(1) this assms(2), of gen g n]
  obtain n' m' where "clear_generation fd ops gen g n m = Some (n', m')" "n \<le> n'"
    "entries_ok same m'" "set m' = {e \<in> set m. gen (fst e) \<noteq> g}" .
  moreover from this have "staged g m0 m'" by (intro staged_shrink [OF m]) auto
  ultimately show ?thesis by (auto simp: visible_def)
qed

lemma staged_retire:
  assumes "map_law same ops" and "0 \<le> fd" and m: "sound m" and "a \<noteq> g"
  shows "\<exists>n' m'. clear_generation fd ops gen a n m = Some (n', m') \<and> n \<le> n' \<and>
    sound m' \<and> visible gen g (set m') = visible gen g (set m)"
proof -
  have "entries_ok same m" using m by (simp add: sound_def)
  from clear_generation_ends [OF assms(1) this assms(2), of gen a n]
  obtain n' m' where "clear_generation fd ops gen a n m = Some (n', m')" "n \<le> n'"
    "entries_ok same m'" "set m' = {e \<in> set m. gen (fst e) \<noteq> a}" .
  then show ?thesis using m assms(4) by (auto simp: visible_def sound_def)
qed

lemma staged_card:
  assumes "staged g m0 m"
  shows "card (set m) \<le> length m0 + card (visible gen g (set m))"
proof -
  have "set m \<subseteq> set m0 \<union> visible gen g (set m)"
    using assms by (auto simp: staged_def visible_def)
  then have "card (set m) \<le> card (set m0 \<union> visible gen g (set m))"
    by (intro card_mono) (auto simp: visible_def)
  also have "\<dots> \<le> card (set m0) + card (visible gen g (set m))" by (rule card_Un_le)
  finally show ?thesis using card_length [of m0] by linarith
qed

lemma staged_write:
  assumes law: "map_law same ops" and room: "room_law limit fault same ops" and fd: "0 \<le> fd"
    and m: "staged g m0 m" and empty: "visible gen g (set m) = {}"
    and fails: "\<forall>r \<in> set rs. \<forall>e. entry g r \<noteq> Fail e"
    and size: "length m0 + length (entries_of (entry g) rs) \<le> limit"
  shows "\<exists>err n' m'. write_loop fd ops (entry g) rs n m = (err, n', m') \<and> n \<le> n' \<and>
    staged g m0 m' \<and> card (visible gen g (set m')) \<le> length (entries_of (entry g) rs) \<and>
    (err \<noteq> 0 \<longrightarrow> fault < n') \<and>
    (err = 0 \<longrightarrow> visible gen g (set m') = fold (put same) (entries_of (entry g) rs) {})"
proof -
  let ?es = "entries_of (entry g) rs"
  have ok: "entries_ok same m" using m by (simp add: staged_def)
  have "card (set m \<union> set ?es) \<le> card (set m) + card (set ?es)" by (rule card_Un_le)
  also have "\<dots> \<le> limit" using staged_card [OF m] empty size card_length [of ?es] by simp
  finally obtain err n' m' where w: "write_loop fd ops (entry g) rs n m = (err, n', m')" "n \<le> n'"
    "err \<noteq> 0 \<longrightarrow> n \<le> fault \<and> fault < n'"
    using write_loop_room [OF law room fd ok fails] by blast
  have "\<forall>r e. entry g r = Fail e \<longrightarrow> e \<noteq> 0" using entry_fail by blast
  from write_loop_ok [OF law this ok w(1)] obtain i where i: "entries_ok same m'"
    "set m' = fold (put same) (take i ?es) (set m)" "err = 0 \<longrightarrow> i = length ?es" by blast
  have keys: "\<forall>(k, v) \<in> set (take i ?es). wf_key k \<and> gen k = g"
    using entries_of_key by (auto dest!: in_set_takeD)
  have vis: "visible gen g' (set m') =
      (if g' = g then fold (put same) (take i ?es) {} else visible gen g' (set m))" for g'
    using visible_fold_put [OF keys, of g' "set m"] i(2) empty by simp
  have "wf_key (fst e)" if "e \<in> set m'" for e
  proof -
    have "e \<in> set m \<union> set (take i ?es)" using that fold_put_subset i(2) by blast
    then show ?thesis using keys m by (cases e) (auto simp: staged_def)
  qed
  moreover have "{e \<in> set m'. gen (fst e) \<noteq> g} = {e \<in> set m. gen (fst e) \<noteq> g}"
    by (rule other_visible) (simp add: vis)
  moreover have "card (visible gen g (set m')) \<le> length ?es"
  proof -
    have "visible gen g (set m') \<subseteq> set ?es"
      using vis [of g] fold_put_subset [of same "take i ?es" "{}"] set_take_subset by fastforce
    then have "card (visible gen g (set m')) \<le> card (set ?es)" by (intro card_mono) simp_all
    then show ?thesis using card_length [of ?es] by linarith
  qed
  ultimately show ?thesis using w i vis [of g] m by (auto simp: staged_def)
qed

lemma entries_of_copy [simp]: "entries_of copy_entry es = es"
  by (induction es) (simp_all add: copy_entry_def)

lemma copy_all:
  assumes law: "map_law same ops" and room: "room_law limit fault same ops" and fd: "0 \<le> fd"
    and ok: "entries_ok same m" "entries_ok same es" and calm: "fault < n"
    and size: "card (set m \<union> set es) \<le> limit"
  shows "\<exists>n' m'. write_loop fd ops copy_entry es n m = (0, n', m') \<and> n \<le> n' \<and>
    entries_ok same m' \<and>
    set m' = set es \<union> {f \<in> set m. \<forall>e \<in> set es. \<not> same (fst e) (fst f)}"
proof -
  have "\<forall>r \<in> set es. \<forall>e. copy_entry r \<noteq> Fail e" by (simp add: copy_entry_def)
  from write_loop_room [OF law room fd ok(1) this, of n] size
  obtain err n' m' where w: "write_loop fd ops copy_entry es n m = (err, n', m')" "n \<le> n'"
    "err \<noteq> 0 \<longrightarrow> n \<le> fault \<and> fault < n'" by auto
  have "\<forall>r e. copy_entry r = Fail e \<longrightarrow> e \<noteq> 0" by (simp add: copy_entry_def)
  from write_loop_ok [OF law this ok(1) w(1)] w(3) calm
  have "err = 0" "entries_ok same m'" "set m' = fold (put same) es (set m)" by auto
  then show ?thesis using w fold_put_distinct [OF ok(2)] by simp
qed

lemma staged_restore:
  assumes law: "map_law same ops" and room: "room_law limit fault same ops" and fd: "0 \<le> fd"
    and m: "staged g m0 m" and m0: "staged g m0 m0" and calm: "fault < n"
    and size: "length m0 + card (visible gen g (set m)) \<le> limit"
  shows "\<exists>n1 m1 n2 m2. clear_generation fd ops gen a n m = Some (n1, m1) \<and>
    write_loop fd ops copy_entry m0 n1 m1 = (0, n2, m2) \<and> n \<le> n2 \<and> staged g m0 m2"
proof -
  have ok: "entries_ok same m" "entries_ok same m0" using m m0 by (simp_all add: staged_def)
  from clear_generation_ends [OF law ok(1) fd, of gen a n]
  obtain n1 m1 where c: "clear_generation fd ops gen a n m = Some (n1, m1)" "n \<le> n1"
    "entries_ok same m1" "set m1 = {e \<in> set m. gen (fst e) \<noteq> a}" .
  have "set m1 \<union> set m0 \<subseteq> set m0 \<union> visible gen g (set m)"
    using m c(4) by (auto simp: staged_def visible_def)
  then have "card (set m1 \<union> set m0) \<le> card (set m0 \<union> visible gen g (set m))"
    by (intro card_mono) (auto simp: visible_def)
  also have "\<dots> \<le> card (set m0) + card (visible gen g (set m))" by (rule card_Un_le)
  also have "\<dots> \<le> limit" using size card_length [of m0] by linarith
  finally obtain n2 m2 where w: "write_loop fd ops copy_entry m0 n1 m1 = (0, n2, m2)" "n1 \<le> n2"
    "entries_ok same m2"
    "set m2 = set m0 \<union> {f \<in> set m1. \<forall>e \<in> set m0. \<not> same (fst e) (fst f)}"
    using copy_all [OF law room fd c(3) ok(2), of n1] calm c(2) by auto
  have "set m2 \<subseteq> set m0 \<union> set m" using w(4) c(4) by blast
  then have "\<forall>e \<in> set m2. wf_key (fst e)" using m m0 unfolding staged_def by blast
  moreover have "e \<in> set m2 \<longleftrightarrow> e \<in> set m0" if "gen (fst e) \<noteq> g" for e
    using that w(4) c(4) m unfolding staged_def by blast
  ultimately have "staged g m0 m2" using w(3) unfolding staged_def by blast
  then show ?thesis using c w by auto
qed

text \<open>Wiping the index first: nothing but the old entries is left.\<close>

lemma wipe_restore:
  assumes law: "map_law same ops" and room: "room_law limit fault same ops" and fd: "0 \<le> fd"
    and ok: "entries_ok same m" and m0: "staged g m0 m0" and calm: "fault < n"
    and size: "length m0 \<le> limit"
  shows "\<exists>n1 n2 m2. clear_all fd ops n m = Some (n1, []) \<and>
    write_loop fd ops copy_entry m0 n1 [] = (0, n2, m2) \<and> n \<le> n2 \<and> staged g m0 m2"
proof -
  obtain n1 where c: "clear_all fd ops n m = Some (n1, [])" "n \<le> n1"
    using clear_all_ends [OF law ok fd] by blast
  have ok0: "entries_ok same m0" using m0 by (simp add: staged_def)
  have "card (set ([] :: ('k \<times> 'v) list) \<union> set m0) \<le> limit"
    using size card_length [of m0] by simp
  from copy_all [OF law room fd entries_ok_Nil ok0 _ this, of n1] c(2) calm
  obtain n2 m2 where "write_loop fd ops copy_entry m0 n1 [] = (0, n2, m2)" "n1 \<le> n2"
    "entries_ok same m2" "set m2 = set m0" by auto
  then show ?thesis using c m0 by (auto simp: staged_def)
qed

end

end
