(* ===== verification/Loaded_Rules.thy ===== *)
theory Loaded_Rules
  imports Indexes
begin

text \<open>
  What the readers of the policy files guarantee: paths are normalised, every rule that reaches
  the load state is one that \<open>validate_policy_state\<close> accepts, and the selector arrays stay within
  their bounds.
\<close>

section \<open>Strings from the files\<close>

lemma quoted_loop_length: "length (fst (quoted_loop n p)) \<le> n"
proof (induction n p rule: quoted_loop.induct)
  case (3 n c p)
  then show ?case by (auto simp: case_prod_beta)
qed auto

lemma quoted_loop_chars: "set (fst (quoted_loop n p)) \<subseteq> set p"
proof (induction n p rule: quoted_loop.induct)
  case (3 n c p)
  then show ?case by (cases p) (auto simp: case_prod_beta)
qed auto

lemma strstr_chars: "strstr s pat = Some t \<Longrightarrow> set t \<subseteq> set s"
  by (induction s pat rule: strstr.induct) (auto split: if_splits)

lemma strchr_chars: "strchr s c = Some t \<Longrightarrow> set t \<subseteq> set s"
  by (induction s c rule: strchr.induct) (auto split: if_splits)

lemma json_field_chars:
  assumes "json_field obj key = Some p"
  shows "set p \<subseteq> set obj"
proof -
  obtain t q where t: "strstr obj (take 63 (CHR 0x22 # key @ [CHR 0x22])) = Some t"
    "strchr (drop (length (take 63 (CHR 0x22 # key @ [CHR 0x22]))) t) (CHR '':'') = Some q"
    "p = dropWhile c_isspace (tl q)"
    using assms by (auto simp: json_field_def Let_def split: option.splits)
  have "set p \<subseteq> set q"
    unfolding t(3) by (cases q) (auto dest: set_dropWhileD)
  also have "\<dots> \<subseteq> set t" using strchr_chars [OF t(2)] set_drop_subset by fastforce
  also have "\<dots> \<subseteq> set obj" by (rule strstr_chars [OF t(1)])
  finally show ?thesis .
qed

lemma json_get_string_ok:
  assumes "json_get_string obj key out n = (0, b)" and "NUL \<notin> set obj"
  shows "cstr b \<noteq> [] \<and> length (cstr b) \<le> n - 1"
proof -
  from assms(1) obtain p where p: "json_field obj key = Some p" "p \<noteq> []"
    "fst (quoted_loop (n - 1) (tl p)) \<noteq> []"
    "b = fst (quoted_loop (n - 1) (tl p)) @
       NUL # drop (Suc (length (fst (quoted_loop (n - 1) (tl p))))) out"
    by (auto simp: json_get_string_def Let_def split: option.splits if_splits)
  have "NUL \<notin> set (fst (quoted_loop (n - 1) (tl p)))"
    using quoted_loop_chars [of "n - 1" "tl p"] json_field_chars [OF p(1)] p(2) assms(2)
    by (cases p) auto
  then have "cstr b = fst (quoted_loop (n - 1) (tl p))" using p(4) by simp
  then show ?thesis using p(3) quoted_loop_length [of "n - 1" "tl p"] by simp
qed

lemma rule_value_text_ok:
  assumes "rule_value_text obj = Some v" and "NUL \<notin> set obj"
  shows "cstr v \<noteq> [] \<and> length (cstr v) < MCP_GUARD_RULE_VALUE_LEN"
proof -
  obtain key out where "json_get_string obj key out MCP_GUARD_RULE_VALUE_LEN = (0, v)"
    using assms(1) by (auto simp: rule_value_text_def split: prod.splits if_splits)
  from json_get_string_ok [OF this assms(2)] show ?thesis by simp
qed

section \<open>Normalised paths\<close>

text \<open>Trailing slashes go, the leading one stays.\<close>

fun cut_slashes :: "nat \<Rightarrow> string \<Rightarrow> string" where
  "cut_slashes 0 s = s"
| "cut_slashes (Suc n) s =
     (if n \<noteq> 0 \<and> s ! n = CHR ''/'' then cut_slashes n (take n s) else s)"

lemma cstr_cut: "n < length (cstr b) \<Longrightarrow> cstr (b[n := NUL]) = take n (cstr b)"
proof (induction b arbitrary: n)
  case Nil
  then show ?case by simp
next
  case (Cons c b)
  then show ?case by (cases n) (auto split: if_splits)
qed

lemma nth_cstr: "n < length (cstr b) \<Longrightarrow> cstr b ! n = b ! n"
  by (metis cstr_prefix nth_take)

lemma cstr_strip_slashes:
  "length (cstr b) = n \<Longrightarrow> cstr (strip_slashes n b) = cut_slashes n (cstr b)"
proof (induction n arbitrary: b)
  case 0
  then show ?case by simp
next
  case (Suc n)
  then have n: "n < length (cstr b)" by simp
  show ?case
  proof (cases "n \<noteq> 0 \<and> b ! n = CHR ''/''")
    case True
    then show ?thesis
      using Suc.IH [of "b[n := NUL]"] cstr_cut [OF n] nth_cstr [OF n] n by simp
  next
    case False
    then show ?thesis using nth_cstr [OF n] by auto
  qed
qed

lemma cut_slashes_spec:
  "length s = n \<Longrightarrow> s \<noteq> [] \<Longrightarrow>
   (\<exists>k. s = cut_slashes n s @ replicate k (CHR ''/'')) \<and>
   (length (cut_slashes n s) = 1 \<or> last (cut_slashes n s) \<noteq> CHR ''/'') \<and>
   cut_slashes n s \<noteq> [] \<and> hd (cut_slashes n s) = hd s"
proof (induction n arbitrary: s)
  case 0
  then show ?case by simp
next
  case (Suc n)
  show ?case
  proof (cases "n \<noteq> 0 \<and> s ! n = CHR ''/''")
    case True
    then have t: "length (take n s) = n" "take n s \<noteq> []" "hd (take n s) = hd s"
      using Suc.prems by (auto simp: hd_take)
    have s: "s = take n s @ [CHR ''/'']"
      using Suc.prems True take_Suc_conv_app_nth [of n s] by simp
    note ih = Suc.IH [OF t(1,2)]
    from ih obtain k where "take n s = cut_slashes n (take n s) @ replicate k (CHR ''/'')"
      by blast
    then have "s = cut_slashes n (take n s) @ replicate (Suc k) (CHR ''/'')"
      using s replicate_append_same [of k "CHR ''/''"] by (metis append.assoc replicate_Suc)
    then have "\<exists>k. s = cut_slashes n (take n s) @ replicate k (CHR ''/'')" by blast
    then show ?thesis using True ih t(3) by simp
  next
    case False
    have "s = s @ replicate 0 (CHR ''/'')" by simp
    moreover have "length s = 1 \<or> last s \<noteq> CHR ''/''"
      using False Suc.prems by (auto simp: last_conv_nth)
    ultimately show ?thesis using False Suc.prems by auto
  qed
qed

text \<open>
  The same prefix rule written with and without trailing slashes: the one normal form.
\<close>

lemma normalize_path_ok:
  assumes "normalize_path_value v = (err, v')" and "length (cstr v) < MCP_GUARD_RULE_VALUE_LEN"
    and "cstr v \<noteq> []"
  shows "err = 0 \<longrightarrow> cstr v' \<noteq> [] \<and> hd (cstr v') = CHR ''/'' \<and>
    (\<exists>k. cstr v = cstr v' @ replicate k (CHR ''/'')) \<and>
    (cstr v' = ''/'' \<or> last (cstr v') \<noteq> CHR ''/'')"
proof
  assume "err = 0"
  have len: "c_strnlen v MCP_GUARD_RULE_VALUE_LEN = length (cstr v)"
    using assms(2) by (simp add: c_strnlen_eq)
  have ok: "v ! 0 = CHR ''/''" "v' = strip_slashes (length (cstr v)) v"
    using assms(1) \<open>err = 0\<close> by (auto simp: normalize_path_value_def len Let_def split: if_splits)
  have cut: "cstr v' = cut_slashes (length (cstr v)) (cstr v)"
    unfolding ok(2) by (rule cstr_strip_slashes [OF refl])
  note spec = cut_slashes_spec [OF refl assms(3), folded cut]
  have "hd (cstr v) = CHR ''/''" using ok(1) assms(3) nth_cstr [of 0 v] by (simp add: hd_conv_nth)
  then show "cstr v' \<noteq> [] \<and> hd (cstr v') = CHR ''/'' \<and>
    (\<exists>k. cstr v = cstr v' @ replicate k (CHR ''/'')) \<and>
    (cstr v' = ''/'' \<or> last (cstr v') \<noteq> CHR ''/'')"
    using spec by (auto simp: length_Suc_conv)
qed

section \<open>Rules\<close>

lemma parse_action_valid:
  "parse_action v \<in> {MCP_GUARD_ACTION_ALLOW, MCP_GUARD_ACTION_DENY, MCP_GUARD_ACTION_AUDIT}"
  by (simp add: parse_action_def)

lemma default_hook_mask_nonzero: "default_hook_mask ty \<noteq> 0"
  by (simp add: default_hook_mask_def mcp_guard_hook_mask_def)

text \<open>A rule as the parser makes it, before it has a number.\<close>

definition parsed_ok :: "u32 \<Rightarrow> mcp_policy_rule \<Rightarrow> bool" where
  "parsed_ok ty r \<longleftrightarrow>
     rule_rule_type r = ty \<and> rule_hook_mask r = default_hook_mask ty \<and>
     rule_action r \<in> {MCP_GUARD_ACTION_ALLOW, MCP_GUARD_ACTION_DENY, MCP_GUARD_ACTION_AUDIT} \<and>
     rule_text r \<noteq> [] \<and> terminated_rule r \<and>
     rule_value_len r = of_nat (length (rule_text r)) \<and>
     (ty = MCP_GUARD_RULE_PATH_PREFIX \<longrightarrow> hd (rule_text r) = CHR ''/'')"

lemma parse_rule_ok:
  assumes "parse_rule fs ty obj = Parsed r" and "NUL \<notin> set obj"
  shows "parsed_ok ty r"
proof -
  obtain v0 where v0: "rule_value_text obj = Some v0"
    using assms(1) by (auto simp: parse_rule_def split: option.splits)
  note vtext = rule_value_text_ok [OF v0 assms(2)]
  define v where "v = (if ty = MCP_GUARD_RULE_PATH_PREFIX then snd (normalize_path_value v0) else v0)"
  define err where "err = (if ty = MCP_GUARD_RULE_PATH_PREFIX then fst (normalize_path_value v0) else 0)"
  have r: "err = 0 \<and> rule_rule_type r = ty \<and> rule_hook_mask r = default_hook_mask ty \<and>
    (\<exists>a. rule_action r = parse_action a) \<and>
    rule_value_len r = of_nat (c_strnlen v MCP_GUARD_RULE_VALUE_LEN) \<and>
    rule_value r = snprintf_s (zeroed MCP_GUARD_RULE_VALUE_LEN) MCP_GUARD_RULE_VALUE_LEN v"
    using assms(1) v0 unfolding parse_rule_def v_def err_def
    by (auto simp: Let_def case_prod_beta zero_rule_def split: option.splits if_splits sum.splits)
  have v: "cstr v \<noteq> [] \<and> length (cstr v) < MCP_GUARD_RULE_VALUE_LEN \<and>
    (ty = MCP_GUARD_RULE_PATH_PREFIX \<longrightarrow> hd (cstr v) = CHR ''/'')"
  proof (cases "ty = MCP_GUARD_RULE_PATH_PREFIX")
    case True
    then have "normalize_path_value v0 = (0, v)"
      using r by (simp add: v_def err_def prod_eq_iff)
    from normalize_path_ok [OF this] vtext obtain k where
      "cstr v \<noteq> []" "hd (cstr v) = CHR ''/''" "cstr v0 = cstr v @ replicate k (CHR ''/'')" by auto
    then show ?thesis using vtext arg_cong [of "cstr v0" _ length] by fastforce
  next
    case False
    then show ?thesis using vtext by (simp add: v_def)
  qed
  then have "rule_text r = cstr v" using r by simp
  then show ?thesis
    using r v by (auto simp: parse_action_def parsed_ok_def terminated_rule_def c_strnlen_eq
      min_absorb2 split: if_splits)
qed

text \<open>The invariant of the load state.\<close>

definition load_state_ok :: "policy_load_state \<Rightarrow> bool" where
  "load_state_ok state \<longleftrightarrow>
     length (pls_rules state) = MCP_GUARD_MAX_RULES \<and>
     unat (pls_next_index state) \<le> MCP_GUARD_MAX_RULES \<and>
     (\<forall>i < unat (pls_next_index state).
        rule_enabled (pls_rules state ! i) = 1 \<and>
        rule_rule_id (pls_rules state ! i) = of_nat (Suc i) \<and>
        (\<exists>ty \<in> {MCP_GUARD_RULE_PATH_PREFIX, MCP_GUARD_RULE_COMMAND_PREFIX,
                  MCP_GUARD_RULE_IPV4_CONNECT}. parsed_ok ty (pls_rules state ! i)))"

lemma zero_load_state_ok: "load_state_ok zero_load_state"
  by (simp add: load_state_ok_def zero_load_state_def)

lemma parsed_ok_numbered [simp]:
  "parsed_ok ty (r\<lparr>rule_enabled := e, rule_rule_id := i\<rparr>) = parsed_ok ty r"
  by (simp add: parsed_ok_def terminated_rule_def)

lemma add_rule_ok:
  assumes "load_state_ok state" and "parsed_ok ty r"
    and "ty \<in> {MCP_GUARD_RULE_PATH_PREFIX, MCP_GUARD_RULE_COMMAND_PREFIX,
      MCP_GUARD_RULE_IPV4_CONNECT}"
  shows "load_state_ok (snd (add_rule state r))"
proof (cases "of_nat MCP_GUARD_MAX_RULES \<le> pls_next_index state")
  case True
  then show ?thesis using assms(1) by (simp add: add_rule_def)
next
  case False
  let ?i = "unat (pls_next_index state)"
  have i: "?i < 32" using False by (simp add: word_le_nat_alt not_le)
  then have suc: "unat (pls_next_index state + 1) = Suc ?i"
    by (simp add: unat_word_ariths)
  have num: "pls_next_index state + 1 = of_nat (Suc ?i)" by simp
  show ?thesis
    unfolding load_state_ok_def
  proof (intro conjI allI impI)
    let ?st = "snd (add_rule state r)"
    let ?r = "r\<lparr>rule_enabled := 1, rule_rule_id := pls_next_index state + 1\<rparr>"
    have st: "pls_rules ?st = (pls_rules state)[?i := ?r]"
      "pls_next_index ?st = pls_next_index state + 1"
      using False by (simp_all add: add_rule_def Let_def)
    show "length (pls_rules ?st) = 32" using assms(1) by (simp add: st load_state_ok_def)
    show "unat (pls_next_index ?st) \<le> 32" using i suc by (simp add: st)
    fix j assume j: "j < unat (pls_next_index ?st)"
    then have j': "j \<le> ?i" using suc by (simp add: st)
    have len: "length (pls_rules state) = 32" using assms(1) by (simp add: load_state_ok_def)
    have sel: "pls_rules ?st ! j = (if j = ?i then ?r else pls_rules state ! j)"
      using i len by (simp add: st nth_list_update)
    show "rule_enabled (pls_rules ?st ! j) = 1"
      using assms(1) j' by (auto simp: sel load_state_ok_def)
    show "rule_rule_id (pls_rules ?st ! j) = of_nat (Suc j)"
      using assms(1) j' by (auto simp: sel load_state_ok_def)
    show "\<exists>ty \<in> {MCP_GUARD_RULE_PATH_PREFIX, MCP_GUARD_RULE_COMMAND_PREFIX,
        MCP_GUARD_RULE_IPV4_CONNECT}. parsed_ok ty (pls_rules ?st ! j)"
      using assms j' unfolding sel load_state_ok_def by (cases "j = ?i") auto
  qed
qed

lemma load_rules_loop_ok:
  "NUL \<notin> set cursor \<Longrightarrow> load_state_ok state \<Longrightarrow>
   ty \<in> {MCP_GUARD_RULE_PATH_PREFIX, MCP_GUARD_RULE_COMMAND_PREFIX, MCP_GUARD_RULE_IPV4_CONNECT} \<Longrightarrow>
   load_state_ok (snd (load_rules_loop fs ty cursor state))"
proof (induction fs ty cursor state rule: load_rules_loop.induct)
  case (1 fs ty cursor state)
  show ?case
  proof (cases "strchr cursor (CHR 0x7B)")
    case None
    then show ?thesis using 1 by (simp add: load_rules_loop.simps [of fs ty cursor])
  next
    case (Some obj)
    note obj = this
    have obj_chars: "NUL \<notin> set obj" using strchr_chars [OF obj] 1(3) by auto
    show ?thesis
    proof (cases "strchr obj (CHR 0x7D)")
      case None
      then show ?thesis using 1 obj by (simp add: load_rules_loop.simps [of fs ty cursor])
    next
      case (Some brace)
      have rest: "NUL \<notin> set (tl brace)"
        using strchr_chars [OF Some] obj_chars by (cases brace) auto
      let ?text = "takeWhile (\<lambda>c. c \<noteq> CHR 0x7D) obj"
      have obj_text: "NUL \<notin> set ?text" using obj_chars by (auto dest: set_takeWhileD)
      show ?thesis
      proof (cases "parse_rule fs ty ?text")
        case Skipped
        then show ?thesis using 1(1) [OF obj Some Skipped rest 1(4,5)] obj Some
          by (simp add: load_rules_loop.simps [of fs ty cursor])
      next
        case (Refused e)
        then show ?thesis using 1(4) obj Some by (simp add: load_rules_loop.simps [of fs ty cursor])
      next
        case (Parsed r)
        have added: "load_state_ok (snd (add_rule state r))"
          by (rule add_rule_ok [OF 1(4) parse_rule_ok [OF Parsed obj_text] 1(5)])
        then show ?thesis using 1(2) [OF obj Some Parsed _ rest added 1(5)] obj Some Parsed
          by (simp add: load_rules_loop.simps [of fs ty cursor])
      qed
    qed
  qed
qed

lemma load_rule_file_ok:
  "load_state_ok state \<Longrightarrow>
   ty \<in> {MCP_GUARD_RULE_PATH_PREFIX, MCP_GUARD_RULE_COMMAND_PREFIX, MCP_GUARD_RULE_IPV4_CONNECT} \<Longrightarrow>
   load_state_ok (snd (load_rule_file fs path ty state))"
  by (auto simp: load_rule_file_def load_rules_loop_ok split: sum.split)

lemma load_rules_of_ok:
  assumes "load_rules_of fs dir fname ty state = Inr state'" and "load_state_ok state"
    and "ty \<in> {MCP_GUARD_RULE_PATH_PREFIX, MCP_GUARD_RULE_COMMAND_PREFIX,
      MCP_GUARD_RULE_IPV4_CONNECT}"
  shows "load_state_ok state'"
proof -
  obtain path where "join_policy_path dir fname = Inr path"
    "load_rule_file fs path ty state = (0, state')"
    using assms(1) by (auto simp: load_rules_of_def split: sum.splits prod.splits if_splits)
  then show ?thesis using load_rule_file_ok [OF assms(2,3), of fs path] by simp
qed

text \<open>Every rule of a good load state passes the checks of \<open>validate_policy_state\<close>.\<close>

lemma loaded_rule:
  assumes "load_state_ok state" and "r \<in> set (loaded_rules state)"
  obtains i ty where "i < unat (pls_next_index state)" "r = pls_rules state ! i"
    "rule_enabled r = 1" "rule_rule_id r = of_nat (Suc i)" "parsed_ok ty r"
    "ty \<in> {MCP_GUARD_RULE_PATH_PREFIX, MCP_GUARD_RULE_COMMAND_PREFIX, MCP_GUARD_RULE_IPV4_CONNECT}"
  using assms
  by (auto simp: loaded_rules_def load_state_ok_def in_set_conv_nth min_def split: if_splits)

lemma loaded_rules_acceptable:
  assumes "load_state_ok state"
  shows "list_all rule_acceptable (loaded_rules state)"
proof -
  have "rule_acceptable r" if r: "r \<in> set (loaded_rules state)" for r
  proof -
    from assms r obtain i ty where i: "i < unat (pls_next_index state)"
      "rule_enabled r = 1" "rule_rule_id r = of_nat (Suc i)" "parsed_ok ty r"
      by (rule loaded_rule)
    have "i < 32" using i(1) assms by (simp add: load_state_ok_def)
    then have "unat (of_nat (Suc i) :: u32) = Suc i" by (simp add: unat_of_nat del: of_nat_Suc)
    then have ident: "rule_rule_id r \<noteq> 0" "rule_rule_id r \<le> 32"
      unfolding i(3) using \<open>i < 32\<close> by (auto simp: word_le_nat_alt simp del: of_nat_Suc)
    have len: "0 < length (rule_text r)" "length (rule_text r) < 192"
      using i(4) by (simp_all add: parsed_ok_def terminated_rule_def)
    then have "unat (rule_value_len r) = length (rule_text r)"
      using i(4) by (simp add: parsed_ok_def unat_of_nat)
    then have "rule_value_len r \<noteq> 0" "rule_value_len r < 192"
      using len by (auto simp: word_less_nat_alt)
    moreover have "rule_value r ! 0 = hd (rule_text r)"
      using len nth_cstr [of 0 "rule_value r"] by (simp add: hd_conv_nth)
    ultimately show ?thesis
      using i ident default_hook_mask_nonzero by (auto simp: rule_acceptable_def parsed_ok_def)
  qed
  then show ?thesis by (simp add: list_all_iff)
qed

section \<open>Selectors\<close>

lemma u32_array_loop_length:
  "u32_array_loop max_count acc p = Inr ids \<Longrightarrow> length acc \<le> max_count \<Longrightarrow>
   length ids \<le> max_count"
proof (induction max_count acc p rule: u32_array_loop.induct)
  case (1 max_count acc p)
  show ?case
    using 1(1,3) 1(2) [unfolded u32_array_loop.simps [of max_count acc p]]
    by (auto simp: Let_def simp del: u32_array_loop.simps split: if_splits)
qed

lemma string_array_loop_length:
  "string_array_loop max_count acc p = Inr keys \<Longrightarrow> length acc \<le> max_count \<Longrightarrow>
   length keys \<le> max_count"
proof (induction max_count acc p rule: string_array_loop.induct)
  case (1 max_count acc p)
  show ?case
    using 1(1,3) 1(2) [unfolded string_array_loop.simps [of max_count acc p]]
    by (auto simp: Let_def simp del: string_array_loop.simps split: if_splits)
qed

lemma load_ids_length:
  assumes "load_ids buf key array ids0 = Inr ids" and "length ids0 \<le> MCP_GUARD_MAX_SCOPES"
  shows "length ids \<le> MCP_GUARD_MAX_SCOPES"
proof -
  obtain ids1 added where step: "ids = ids1 @ added"
    "json_get_u32_array buf array (MCP_GUARD_MAX_SCOPES - length ids1) = Inr added"
    "(case json_get_u32 buf key 0 of
        (err, v) \<Rightarrow> if err = 0 then add_id_scope ids0 v else Inr ids0) = Inr ids1"
    using assms(1) by (auto simp: load_ids_def split: sum.splits)
  have "length ids1 \<le> MCP_GUARD_MAX_SCOPES"
    using step(3) assms(2) by (auto simp: add_id_scope_def split: prod.splits if_splits)
  have "length added \<le> MCP_GUARD_MAX_SCOPES - length ids1"
    using step(2) u32_array_loop_length [of _ "[]"]
    by (auto simp: json_get_u32_array_def split: option.splits if_splits)
  then show ?thesis using step(1) \<open>length ids1 \<le> MCP_GUARD_MAX_SCOPES\<close> by simp
qed

lemma load_comms_length:
  assumes "load_comms buf keys0 = Inr keys" and "length keys0 \<le> MCP_GUARD_MAX_SCOPES"
  shows "length keys \<le> MCP_GUARD_MAX_SCOPES"
proof -
  obtain keys1 added where step: "keys = keys1 @ added"
    "json_get_string_array buf ''comms'' (MCP_GUARD_MAX_SCOPES - length keys1) = Inr added"
    "(case json_get_string buf ''comm'' (zeroed MCP_GUARD_COMM_LEN) MCP_GUARD_COMM_LEN of
        (err, comm) \<Rightarrow> if err = 0 then add_comm_scope keys0 comm else Inr keys0) = Inr keys1"
    using assms(1) by (auto simp: load_comms_def split: sum.splits)
  have "length keys1 \<le> MCP_GUARD_MAX_SCOPES"
    using step(3) assms(2) by (auto simp: add_comm_scope_def split: prod.splits if_splits)
  have "length added \<le> MCP_GUARD_MAX_SCOPES - length keys1"
    using step(2) string_array_loop_length [of _ "[]"]
    by (auto simp: json_get_string_array_def split: option.splits if_splits)
  then show ?thesis using step(1) \<open>length keys1 \<le> MCP_GUARD_MAX_SCOPES\<close> by simp
qed

text \<open>What the profile leaves: bounded selector arrays, counted, and a mode that has selectors
  when it needs them.\<close>

definition scope_ok :: "mcp_policy_config \<Rightarrow> scope_load_state \<Rightarrow> bool" where
  "scope_ok config scope \<longleftrightarrow>
     length (sls_comm_keys scope) \<le> MCP_GUARD_MAX_SCOPES \<and>
     length (sls_pid_keys scope) \<le> MCP_GUARD_MAX_SCOPES \<and>
     length (sls_tgid_keys scope) \<le> MCP_GUARD_MAX_SCOPES \<and>
     cfg_scope_count config =
       of_nat (length (sls_comm_keys scope) + length (sls_pid_keys scope) +
               length (sls_tgid_keys scope)) \<and>
     cfg_scope_mode config \<in> {MCP_GUARD_SCOPE_SYSTEM_WIDE, MCP_GUARD_SCOPE_SCOPED} \<and>
     (cfg_scope_mode config = MCP_GUARD_SCOPE_SCOPED \<longrightarrow> cfg_scope_count config \<noteq> 0)"

lemma load_mode_valid:
  "load_mode buf m0 = Some mode \<Longrightarrow> mode \<in> {m0, MCP_GUARD_SCOPE_SYSTEM_WIDE, MCP_GUARD_SCOPE_SCOPED}"
  by (auto simp: load_mode_def split: prod.splits if_splits)

lemma profile_scope: "cfg_scope_mode (profile_fields buf config) = cfg_scope_mode config"
  by (simp add: profile_fields_def Let_def case_prod_beta)

lemma load_profile_ok:
  assumes "load_profile_file fs path config0 scope0 = Inr (config, scope)"
    and "scope_ok config0 scope0"
  shows "scope_ok config scope"
proof (cases "read_text_file fs path")
  case (Inl e)
  then show ?thesis using assms by (auto simp: load_profile_file_def split: if_splits)
next
  case (Inr bytes)
  let ?buf = "cstr bytes"
  obtain mode comms pids tgids where parts: "load_mode ?buf (cfg_scope_mode config0) = Some mode"
    "load_comms ?buf (sls_comm_keys scope0) = Inr comms"
    "load_ids ?buf ''pid'' ''pids'' (sls_pid_keys scope0) = Inr pids"
    "load_ids ?buf ''tgid'' ''tgids'' (sls_tgid_keys scope0) = Inr tgids"
    "\<not> (mode = MCP_GUARD_SCOPE_SCOPED \<and> length comms + length pids + length tgids = 0)"
    "cfg_scope_mode config = mode"
    "cfg_scope_count config = of_nat (length comms + length pids + length tgids)"
    "scope = \<lparr>sls_comm_keys = comms, sls_pid_keys = pids, sls_tgid_keys = tgids\<rparr>"
    using assms(1) Inr
    by (auto simp: load_profile_file_def Let_def profile_scope split: option.splits sum.splits
        if_splits)
  have lens: "length comms \<le> 64" "length pids \<le> 64" "length tgids \<le> 64"
    using load_comms_length [OF parts(2)] load_ids_length [OF parts(3)]
      load_ids_length [OF parts(4)] assms(2) by (simp_all add: scope_ok_def)
  have "(of_nat (length comms + length pids + length tgids) :: u32) \<noteq> 0"
    if "mode = MCP_GUARD_SCOPE_SCOPED"
  proof -
    have "unat (of_nat (length comms + length pids + length tgids) :: u32) =
        length comms + length pids + length tgids"
      using lens by (simp add: unat_of_nat del: of_nat_add)
    then show ?thesis using parts(5) that by (metis unat_0)
  qed
  then show ?thesis
    using parts lens load_mode_valid [OF parts(1)] assms(2) by (auto simp: scope_ok_def)
qed

section \<open>A policy directory\<close>

lemma default_scope_ok: "scope_ok default_config empty_scope"
  by (simp add: scope_ok_def default_config_def empty_scope_def)

lemma load_config_scope:
  "load_config_file fs path config0 = (err, config) \<Longrightarrow>
   cfg_scope_mode config = cfg_scope_mode config0 \<and> cfg_scope_count config = cfg_scope_count config0"
  by (auto simp: load_config_file_def Let_def case_prod_beta split: sum.splits if_splits)

lemma read_policy_ok:
  assumes "read_policy_dir fs dir = Inr (config, scope, state)"
  shows "load_state_ok state \<and> scope_ok config scope \<and> cfg_rule_count config = pls_next_index state"
proof -
  obtain path0 config0 path1 config1 state1 state2 where parts:
    "load_config_file fs path0 default_config = (0, config0)"
    "load_profile_file fs path1 config0 empty_scope = Inr (config1, scope)"
    "load_rules_of fs dir ''dangerous_paths.json'' MCP_GUARD_RULE_PATH_PREFIX zero_load_state =
       Inr state1"
    "load_rules_of fs dir ''dangerous_commands.json'' MCP_GUARD_RULE_COMMAND_PREFIX state1 =
       Inr state2"
    "load_rules_of fs dir ''dangerous_network.json'' MCP_GUARD_RULE_IPV4_CONNECT state2 =
       Inr state"
    "config = config1\<lparr>cfg_rule_count := pls_next_index state\<rparr>"
    using assms
    by (auto simp: read_policy_dir_def split: sum.splits prod.splits if_splits)
  have "load_state_ok state"
    using load_rules_of_ok [OF parts(5)] load_rules_of_ok [OF parts(4)]
      load_rules_of_ok [OF parts(3) zero_load_state_ok] by simp
  moreover have "scope_ok config0 empty_scope"
    using load_config_scope [OF parts(1)]
    by (simp add: scope_ok_def default_config_def empty_scope_def)
  from load_profile_ok [OF parts(2) this] have "scope_ok config scope"
    by (auto simp: parts(6) scope_ok_def)
  ultimately show ?thesis by (simp add: parts(6))
qed

section \<open>A directory to evaluate with\<close>

definition sample_json :: string where
  "sample_json = CHR 0x7B # CHR 0x22 # ''value'' @ CHR 0x22 # '': '' @ CHR 0x22 # ''/root/'' @
     CHR 0x22 # '', '' @ CHR 0x22 # ''action'' @ CHR 0x22 # '': '' @ CHR 0x22 # ''audit'' @
     CHR 0x22 # [CHR 0x7D]"

definition sample_dir :: file_system where
  "sample_dir =
     \<lparr>fs_file = (\<lambda>path. if path = ''/p/dangerous_paths.json'' then regular_file sample_json
          else missing_file),
      fs_stat = (\<lambda>path. if path = ''/root'' then Some 4242 else None)\<rparr>"

definition sample_rule :: mcp_policy_rule where
  "sample_rule =
     zero_rule\<lparr>rule_enabled := 1, rule_rule_id := 1, rule_rule_type := MCP_GUARD_RULE_PATH_PREFIX,
       rule_action := MCP_GUARD_ACTION_AUDIT,
       rule_hook_mask := default_hook_mask MCP_GUARD_RULE_PATH_PREFIX, rule_value_len := 5,
       rule_resource_id := 4242,
       rule_value := padded MCP_GUARD_RULE_VALUE_LEN ''/root'',
       rule_name := padded MCP_GUARD_RULE_NAME_LEN ''/root''\<rparr>"

lemma sample_parse: "parse_rule sample_dir MCP_GUARD_RULE_PATH_PREFIX (butlast sample_json) =
    Parsed (sample_rule\<lparr>rule_enabled := 0, rule_rule_id := 0\<rparr>)"
  by code_simp

definition sample_state :: policy_load_state where
  "sample_state = snd (add_rule zero_load_state sample_rule)"

lemma sample_read: "read_policy_dir sample_dir ''/p'' =
    Inr (default_config\<lparr>cfg_rule_count := 1\<rparr>, empty_scope, sample_state)"
  by code_simp

lemma validation_result:
  assumes "read_policy_dir fs dir = Inr (config, scope, state)"
  shows "validate_policy_state state config =
    (if cfg_profile_id config = 0 \<or> cfg_agent_id config = 0 then - 22 else 0)"
proof -
  note ok = read_policy_ok [OF assms]
  then have "list_all rule_acceptable (loaded_rules state)" using loaded_rules_acceptable by blast
  moreover have "pls_next_index state \<le> 32"
    using ok by (simp add: load_state_ok_def word_le_nat_alt)
  ultimately show ?thesis using ok by (auto simp: validate_policy_state_def scope_ok_def)
qed

section \<open>Properties\<close>

text \<open>C28. Loading a rule file keeps the load state sound: at most 32 rules, numbered 1, 2, ... in
  order, each enabled, with a valid action, a hook mask, a non-empty value that fits its buffer
  and, for path rules, starts with a slash; so every loaded rule passes the checks of
  \<open>validate_policy_state\<close>, whatever the file holds.\<close>

theorem load_rule_file_sound:
  assumes "load_state_ok state"
    and "ty \<in> {MCP_GUARD_RULE_PATH_PREFIX, MCP_GUARD_RULE_COMMAND_PREFIX,
      MCP_GUARD_RULE_IPV4_CONNECT}"
  shows "load_state_ok (snd (load_rule_file fs path ty state)) \<and>
    list_all rule_acceptable (loaded_rules (snd (load_rule_file fs path ty state)))"
  using load_rule_file_ok [OF assms] loaded_rules_acceptable by blast

theorem load_rule_file_sound_witness:
  "list_all rule_acceptable (loaded_rules
     (snd (load_rule_file sample_dir ''/p/dangerous_paths.json'' MCP_GUARD_RULE_PATH_PREFIX
       zero_load_state)))"
  using load_rule_file_sound [OF zero_load_state_ok] by simp

text \<open>C29. Validation can only fail for the identity of the profile: a directory that was read
  without error is refused exactly when its profile id or its agent id is 0.\<close>

theorem validation_exact:
  assumes "read_policy_dir fs dir = Inr (config, scope, state)"
  shows "validate_policy_state state config =
    (if cfg_profile_id config = 0 \<or> cfg_agent_id config = 0 then - 22 else 0)"
  using assms by (rule validation_result)

theorem validation_exact_witness:
  "validate_policy_state sample_state (default_config\<lparr>cfg_rule_count := 1\<rparr>) = 0"
  using validation_exact [OF sample_read] by (simp add: default_config_def)

text \<open>C30. Path values have one normal form: a value that \<open>normalize_path_value\<close> accepts is
  absolute, loses exactly its trailing slashes (the root keeps its own), and normalising the
  result again changes nothing.\<close>

theorem normal_paths:
  assumes "normalize_path_value v = (0, v')" and "length (cstr v) < MCP_GUARD_RULE_VALUE_LEN"
  shows "(\<exists>k. cstr v = cstr v' @ replicate k (CHR ''/'')) \<and> hd (cstr v') = CHR ''/'' \<and>
    (cstr v' = ''/'' \<or> last (cstr v') \<noteq> CHR ''/'') \<and>
    (\<exists>v''. normalize_path_value v' = (0, v'') \<and> cstr v'' = cstr v')"
proof -
  have len: "c_strnlen v MCP_GUARD_RULE_VALUE_LEN = length (cstr v)"
    using assms(2) by (simp add: c_strnlen_eq)
  have ne: "cstr v \<noteq> []" "length (cstr v) < 191"
    using assms(1) by (auto simp: normalize_path_value_def len Let_def split: if_splits)
  note spec = normalize_path_ok [OF assms(1,2) ne(1), simplified]
  then obtain k where k: "cstr v = cstr v' @ replicate k (CHR ''/'')" by blast
  have len': "c_strnlen v' MCP_GUARD_RULE_VALUE_LEN = length (cstr v')" "length (cstr v') < 191"
    using ne(2) arg_cong [OF k, of length] by (simp_all add: c_strnlen_eq)
  have head: "v' ! 0 = CHR ''/''"
    using spec nth_cstr [of 0 v'] hd_conv_nth [of "cstr v'"] by auto
  have again: "normalize_path_value v' = (0, strip_slashes (length (cstr v')) v')"
    using len' head spec by (simp add: normalize_path_value_def)
  have "cstr (strip_slashes (length (cstr v')) v') = cut_slashes (length (cstr v')) (cstr v')"
    by (rule cstr_strip_slashes [OF refl])
  also have "\<dots> = cstr v'"
    using spec by (cases "length (cstr v')") (auto simp: last_conv_nth)
  finally show ?thesis using again spec by blast
qed

theorem normal_paths_witness:
  "hd (cstr (padded 192 ''/etc'')) = CHR ''/'' \<and>
   (\<exists>k. cstr (padded 192 ''/etc//'') = cstr (padded 192 ''/etc'') @ replicate k (CHR ''/''))"
proof -
  have "normalize_path_value (padded 192 ''/etc//'') = (0, padded 192 ''/etc'')" by code_simp
  moreover have "length (cstr (padded 192 ''/etc//'')) < 192" by code_simp
  ultimately show ?thesis using normal_paths by blast
qed

end
