(* ===== verification/Reload.thy ===== *)
theory Reload
  imports Staging Loaded_Rules Coherence
begin

text \<open>
  What \<open>mcp_policy_load_dir\<close> guarantees: a reload always ends; when it succeeds, the new policy is
  in force exactly as its rules read, under a new epoch; when it fails, every decision is the
  same as before.  The kernel is assumed to keep the laws of its maps, to have the room that
  \<^verbatim>\<open>maps.bpf.h\<close> declares, and to fail at most one update.
\<close>

section \<open>Assumptions\<close>

definition kernel_law :: "nat \<Rightarrow> policy_kernel \<Rightarrow> bool" where
  "kernel_law fault kern \<longleftrightarrow>
     map_law (same_lpm plk_prefixlen path_key_bits) (k_path kern) \<and>
     map_law (same_lpm clk_prefixlen command_key_bits) (k_command kern) \<and>
     map_law (same_lpm nlk_prefixlen network_key_bits) (k_network kern) \<and>
     map_law (=) (k_resource kern) \<and> map_law (=) (k_comm kern) \<and>
     map_law (=) (k_pid kern) \<and> map_law (=) (k_tgid kern) \<and>
     room_law (MCP_GUARD_MAX_RULES * 2) fault (same_lpm plk_prefixlen path_key_bits) (k_path kern) \<and>
     room_law (MCP_GUARD_MAX_RULES * 2) fault (same_lpm clk_prefixlen command_key_bits)
       (k_command kern) \<and>
     room_law (MCP_GUARD_MAX_RULES * 2) fault (same_lpm nlk_prefixlen network_key_bits)
       (k_network kern) \<and>
     room_law (MCP_GUARD_MAX_RULES * 2) fault (=) (k_resource kern) \<and>
     room_law MCP_GUARD_MAX_SCOPES fault (=) (k_comm kern) \<and>
     room_law MCP_GUARD_MAX_SCOPES fault (=) (k_pid kern) \<and>
     room_law MCP_GUARD_MAX_SCOPES fault (=) (k_tgid kern) \<and>
     (\<forall>n. n \<noteq> fault \<longrightarrow> k_array kern n = 0)"

lemma kernel_laws:
  assumes "kernel_law fault kern"
  shows "map_law (same_lpm plk_prefixlen path_key_bits) (k_path kern)"
    "map_law (same_lpm clk_prefixlen command_key_bits) (k_command kern)"
    "map_law (same_lpm nlk_prefixlen network_key_bits) (k_network kern)"
    "map_law (=) (k_resource kern)" "map_law (=) (k_comm kern)" "map_law (=) (k_pid kern)"
    "map_law (=) (k_tgid kern)"
    "room_law 64 fault (same_lpm plk_prefixlen path_key_bits) (k_path kern)"
    "room_law 64 fault (same_lpm clk_prefixlen command_key_bits) (k_command kern)"
    "room_law 64 fault (same_lpm nlk_prefixlen network_key_bits) (k_network kern)"
    "room_law 64 fault (=) (k_resource kern)" "room_law 64 fault (=) (k_comm kern)"
    "room_law 64 fault (=) (k_pid kern)" "room_law 64 fault (=) (k_tgid kern)"
    "n \<noteq> fault \<Longrightarrow> k_array kern n = 0"
  using assms by (simp_all add: kernel_law_def)

definition fds_ok :: "policy_fds \<Rightarrow> bool" where
  "fds_ok fds \<longleftrightarrow>
     0 \<le> fd_rules fds \<and> 0 \<le> fd_path fds \<and> 0 \<le> fd_command fds \<and> 0 \<le> fd_network fds \<and>
     0 \<le> fd_resource fds \<and> 0 \<le> fd_comm fds \<and> 0 \<le> fd_pid fds \<and> 0 \<le> fd_tgid fds \<and>
     0 \<le> fd_config fds \<and> 0 \<le> fd_epoch fds"

text \<open>Policy maps as the kernel holds them: full arrays, no two entries of one name, trie
  prefixes that cover the generation.\<close>

definition policy_maps_ok :: "bpf_state \<Rightarrow> bool" where
  "policy_maps_ok s \<longleftrightarrow>
     path_index.index.sound (path_policy_trie s) \<and>
     command_index.index.sound (command_policy_trie s) \<and>
     network_index.index.sound (network_policy_trie s) \<and>
     resource_index.sound (resource_policy_hash s) \<and>
     entries_ok (=) (scope_comm s) \<and> entries_ok (=) (scope_pid s) \<and>
     entries_ok (=) (scope_tgid s) \<and>
     dom (policy_config s) = {MCP_GUARD_CONFIG_KEY} \<and>
     dom (global_epoch s) = {MCP_GUARD_EPOCH_KEY} \<and>
     dom (policy_rules s) = of_nat ` {..<MCP_GUARD_MAX_RULES}"

section \<open>Arrays\<close>

lemma array_update_room:
  assumes "kernel_law fault kern" and "0 \<le> fd" and "key \<in> dom a"
  shows "(fst (array_update kern fd n a key v) \<noteq> 0 \<longrightarrow> n = fault) \<and>
    snd (array_update kern fd n a key v) =
      (if fst (array_update kern fd n a key v) = 0 then a(key \<mapsto> v) else a)"
  using assms by (auto simp: array_update_def kernel_law_def)

lemma write_rules_room:
  assumes law: "kernel_law fault kern" and fd: "0 \<le> fd"
    and "\<forall>i \<in> set is. (of_nat i :: u32) \<in> dom a" and "distinct (map of_nat is :: u32 list)"
  shows "\<exists>err n' a'. write_rules_loop kern fd state is n a = (err, n', a') \<and> n \<le> n' \<and>
    dom a' = dom a \<and> (err \<noteq> 0 \<longrightarrow> fault < n') \<and>
    (err = 0 \<longrightarrow> (\<forall>key. key \<notin> of_nat ` set is \<longrightarrow> a' key = a key) \<and>
      (\<forall>i \<in> set is. a' (of_nat i) =
        Some (if i < unat (pls_next_index state) then pls_rules state ! i else zero_rule)))"
  using assms(3,4)
proof (induction "is" arbitrary: n a)
  case Nil
  then show ?case by simp
next
  case (Cons i "is")
  define rule where
    "rule = (if i < unat (pls_next_index state) then pls_rules state ! i else zero_rule)"
  obtain errno a1 where up: "array_update kern fd n a (of_nat i) rule = (errno, a1)"
    by (cases "array_update kern fd n a (of_nat i) rule")
  have i: "(of_nat i :: u32) \<in> dom a" using Cons.prems(1) by simp
  from array_update_room [OF law fd i, of n rule]
  have step: "errno \<noteq> 0 \<longrightarrow> n = fault" "a1 = (if errno = 0 then a(of_nat i \<mapsto> rule) else a)"
    by (simp_all add: up)
  show ?case
  proof (cases "errno = 0")
    case True
    have "\<forall>j \<in> set is. (of_nat j :: u32) \<in> dom a1" "distinct (map of_nat is :: u32 list)"
      using Cons.prems step True by auto
    from Cons.IH [OF this, of "Suc n"] obtain err n' a' where
      ih: "write_rules_loop kern fd state is (Suc n) a1 = (err, n', a')" "Suc n \<le> n'"
      "dom a' = dom a1" "err \<noteq> 0 \<longrightarrow> fault < n'"
      "err = 0 \<longrightarrow> (\<forall>key. key \<notin> of_nat ` set is \<longrightarrow> a' key = a1 key) \<and>
        (\<forall>i \<in> set is. a' (of_nat i) =
          Some (if i < unat (pls_next_index state) then pls_rules state ! i else zero_rule))"
      by blast
    have "write_rules_loop kern fd state (i # is) n a = (err, n', a')"
      using ih(1) up True by (simp add: rule_def)
    moreover have "(of_nat i :: u32) \<notin> of_nat ` set is" using Cons.prems(2) by auto
    then have "err = 0 \<longrightarrow> a' (of_nat i) = Some rule" using ih(5) step(2) True by auto
    moreover have "dom a' = dom a" using ih(3) step(2) True i by auto
    ultimately show ?thesis using ih(2,4,5) step(2) True by (auto simp: rule_def)
  next
    case False
    then show ?thesis using up step by (simp add: rule_def)
  qed
qed

lemma restore_rules_room:
  assumes law: "kernel_law fault kern" and fd: "0 \<le> fd"
    and "\<forall>i \<in> set is. (of_nat i :: u32) \<in> dom a" and "fault < n"
    and "distinct (map of_nat is :: u32 list)"
  shows "\<exists>n' a'. restore_rules_loop kern fd rules is 0 n a = (0, n', a') \<and> n \<le> n' \<and>
    (\<forall>key. key \<notin> of_nat ` set is \<longrightarrow> a' key = a key) \<and>
    (\<forall>i \<in> set is. a' (of_nat i) = Some (rules ! i))"
  using assms(3-5)
proof (induction "is" arbitrary: n a)
  case Nil
  then show ?case by simp
next
  case (Cons i "is")
  obtain errno a1 where up: "array_update kern fd n a (of_nat i) (rules ! i) = (errno, a1)"
    by (cases "array_update kern fd n a (of_nat i) (rules ! i)")
  have "(of_nat i :: u32) \<in> dom a" using Cons.prems(1) by simp
  from array_update_room [OF law fd this, of n "rules ! i"] Cons.prems(2)
  have step: "errno = 0" "a1 = a(of_nat i \<mapsto> rules ! i)" by (auto simp: up)
  have "\<forall>j \<in> set is. (of_nat j :: u32) \<in> dom a1" "fault < Suc n"
    "distinct (map of_nat is :: u32 list)"
    using Cons.prems step by auto
  from Cons.IH [OF this] obtain n' a' where
    ih: "restore_rules_loop kern fd rules is 0 (Suc n) a1 = (0, n', a')" "Suc n \<le> n'"
    "\<forall>key. key \<notin> of_nat ` set is \<longrightarrow> a' key = a1 key"
    "\<forall>i \<in> set is. a' (of_nat i) = Some (rules ! i)" by blast
  have "(of_nat i :: u32) \<notin> of_nat ` set is" using Cons.prems(3) by auto
  then have "a' (of_nat i) = Some (rules ! i)" using ih(3) step(2) by simp
  then show ?case using ih step up by (auto simp: Let_def)
qed

lemma distinct_indexes: "distinct (map of_nat [0..<MCP_GUARD_MAX_RULES] :: u32 list)"
  by code_simp

section \<open>The maps while a policy is written\<close>

definition other_maps where
  "other_maps s =
     (l1_cache s, events s, metrics s, tail_state s, scratch s, exec_pipeline s,
      file_open_pipeline s, file_permission_pipeline s, socket_connect_pipeline s, ticks s)"

text \<open>How far an index has come: as it was, cleared of the new generation, or holding the new
  rules.\<close>

datatype progress = Old | Cleared | Written

definition reached ::
  "progress \<Rightarrow> ('k \<Rightarrow> u32) \<Rightarrow> ('k \<Rightarrow> 'k \<Rightarrow> bool) \<Rightarrow> (u32 \<Rightarrow> mcp_policy_rule \<Rightarrow> ('k, 'v) write_step) \<Rightarrow>
   u32 \<Rightarrow> mcp_policy_rule list \<Rightarrow> ('k \<times> 'v) list \<Rightarrow> bool" where
  "reached p gen same entry g rs m \<longleftrightarrow>
     (case p of
        Old \<Rightarrow> True
      | Cleared \<Rightarrow> visible gen g (set m) = {}
      | Written \<Rightarrow> visible gen g (set m) = fold (put same) (entries_of (entry g) rs) {})"

lemma reached_simps [simp]:
  "reached Old gen same entry g rs m"
  "reached Cleared gen same entry g rs m \<longleftrightarrow> visible gen g (set m) = {}"
  "reached Written gen same entry g rs m \<longleftrightarrow>
     visible gen g (set m) = fold (put same) (entries_of (entry g) rs) {}"
  by (simp_all add: reached_def)

abbreviation path_at where
  "path_at p \<equiv> reached p plk_generation (same_lpm plk_prefixlen path_key_bits) path_entry"
abbreviation command_at where
  "command_at p \<equiv> reached p clk_generation (same_lpm clk_prefixlen command_key_bits) command_entry"
abbreviation network_at where
  "network_at p \<equiv> reached p nlk_generation (same_lpm nlk_prefixlen network_key_bits) network_entry"
abbreviation resource_at where
  "resource_at p \<equiv> reached p rpk_generation (=) resource_entry"

definition staging :: "u32 \<Rightarrow> bpf_state \<Rightarrow> bpf_state \<Rightarrow> bool" where
  "staging g s0 s \<longleftrightarrow>
     other_maps s = other_maps s0 \<and> global_epoch s = global_epoch s0 \<and>
     dom (policy_config s) = dom (policy_config s0) \<and>
     dom (policy_rules s) = dom (policy_rules s0) \<and>
     path_index.index.staged g (path_policy_trie s0) (path_policy_trie s) \<and>
     command_index.index.staged g (command_policy_trie s0) (command_policy_trie s) \<and>
     network_index.index.staged g (network_policy_trie s0) (network_policy_trie s) \<and>
     resource_index.staged g (resource_policy_hash s0) (resource_policy_hash s) \<and>
     card (visible clk_generation g (set (command_policy_trie s))) \<le> MCP_GUARD_MAX_RULES \<and>
     card (visible nlk_generation g (set (network_policy_trie s))) \<le> MCP_GUARD_MAX_RULES \<and>
     card (visible rpk_generation g (set (resource_policy_hash s))) \<le> MCP_GUARD_MAX_RULES \<and>
     entries_ok (=) (scope_comm s) \<and> entries_ok (=) (scope_pid s) \<and>
     entries_ok (=) (scope_tgid s)"

text \<open>A reload: the maps at its start, the snapshot taken of them, what was read.\<close>

record reload =
  rl_kern :: policy_kernel
  rl_fds :: policy_fds
  rl_start :: bpf_state
  rl_snap :: policy_map_snapshot
  rl_rules :: policy_load_state
  rl_scope :: scope_load_state
  rl_config :: mcp_policy_config
  rl_fault :: nat

abbreviation rl_gen where "rl_gen rl \<equiv> cfg_active_generation (rl_config rl)"

definition snapshot_of :: "bpf_state \<Rightarrow> policy_map_snapshot \<Rightarrow> bool" where
  "snapshot_of s snap \<longleftrightarrow>
     snap_rules snap = map (\<lambda>i. the (policy_rules s (of_nat i))) [0..<MCP_GUARD_MAX_RULES] \<and>
     policy_config s MCP_GUARD_CONFIG_KEY = Some (snap_config snap) \<and> snap_have_config snap \<and>
     snap_path snap = path_policy_trie s \<and> snap_command snap = command_policy_trie s \<and>
     snap_network snap = network_policy_trie s \<and> snap_resource snap = resource_policy_hash s \<and>
     snap_comm snap = scope_comm s \<and> snap_pid snap = scope_pid s \<and>
     snap_tgid snap = scope_tgid s \<and>
     length (path_policy_trie s) \<le> MCP_GUARD_MAX_RULES \<and>
     length (command_policy_trie s) \<le> MCP_GUARD_MAX_RULES \<and>
     length (network_policy_trie s) \<le> MCP_GUARD_MAX_RULES \<and>
     length (resource_policy_hash s) \<le> MCP_GUARD_MAX_RULES \<and>
     length (scope_comm s) \<le> MCP_GUARD_MAX_SCOPES \<and>
     length (scope_pid s) \<le> MCP_GUARD_MAX_SCOPES \<and>
     length (scope_tgid s) \<le> MCP_GUARD_MAX_SCOPES"

definition reload_ok :: "reload \<Rightarrow> bool" where
  "reload_ok rl \<longleftrightarrow>
     kernel_law (rl_fault rl) (rl_kern rl) \<and> fds_ok (rl_fds rl) \<and> policy_maps_ok (rl_start rl) \<and>
     snapshot_of (rl_start rl) (rl_snap rl) \<and> load_state_ok (rl_rules rl) \<and>
     scope_ok (rl_config rl) (rl_scope rl) \<and>
     cfg_active_generation (snap_config (rl_snap rl)) \<noteq> rl_gen rl"

definition progress_at ::
  "reload \<Rightarrow> bool \<Rightarrow> progress \<times> progress \<times> progress \<times> progress \<Rightarrow> loader \<Rightarrow> bool" where
  "progress_at rl past ps x \<longleftrightarrow>
     (past \<longrightarrow> rl_fault rl < fst x) \<and> staging (rl_gen rl) (rl_start rl) (snd x) \<and>
     path_at (fst ps) (rl_gen rl) (loaded_rules (rl_rules rl)) (path_policy_trie (snd x)) \<and>
     command_at (fst (snd ps)) (rl_gen rl) (loaded_rules (rl_rules rl))
       (command_policy_trie (snd x)) \<and>
     network_at (fst (snd (snd ps))) (rl_gen rl) (loaded_rules (rl_rules rl))
       (network_policy_trie (snd x)) \<and>
     resource_at (snd (snd (snd ps))) (rl_gen rl) (loaded_rules (rl_rules rl))
       (resource_policy_hash (snd x))"

abbreviation failed where "failed rl \<equiv> progress_at rl True (Old, Old, Old, Old)"

lemma progress_failed: "progress_at rl True ps x \<Longrightarrow> failed rl x"
  by (simp add: progress_at_def)

lemma reload_laws:
  assumes "reload_ok rl"
  shows "map_law (same_lpm plk_prefixlen path_key_bits) (k_path (rl_kern rl))"
    "map_law (same_lpm clk_prefixlen command_key_bits) (k_command (rl_kern rl))"
    "map_law (same_lpm nlk_prefixlen network_key_bits) (k_network (rl_kern rl))"
    "map_law (=) (k_resource (rl_kern rl))" "map_law (=) (k_comm (rl_kern rl))"
    "map_law (=) (k_pid (rl_kern rl))" "map_law (=) (k_tgid (rl_kern rl))"
    "room_law 64 (rl_fault rl) (same_lpm plk_prefixlen path_key_bits) (k_path (rl_kern rl))"
    "room_law 64 (rl_fault rl) (same_lpm clk_prefixlen command_key_bits) (k_command (rl_kern rl))"
    "room_law 64 (rl_fault rl) (same_lpm nlk_prefixlen network_key_bits) (k_network (rl_kern rl))"
    "room_law 64 (rl_fault rl) (=) (k_resource (rl_kern rl))"
    "room_law 64 (rl_fault rl) (=) (k_comm (rl_kern rl))"
    "room_law 64 (rl_fault rl) (=) (k_pid (rl_kern rl))"
    "room_law 64 (rl_fault rl) (=) (k_tgid (rl_kern rl))"
    "0 \<le> fd_path (rl_fds rl)" "0 \<le> fd_command (rl_fds rl)" "0 \<le> fd_network (rl_fds rl)"
    "0 \<le> fd_resource (rl_fds rl)" "0 \<le> fd_comm (rl_fds rl)" "0 \<le> fd_pid (rl_fds rl)"
    "0 \<le> fd_tgid (rl_fds rl)" "0 \<le> fd_rules (rl_fds rl)" "0 \<le> fd_config (rl_fds rl)"
    "0 \<le> fd_epoch (rl_fds rl)" "kernel_law (rl_fault rl) (rl_kern rl)"
  using assms by (simp_all add: reload_ok_def fds_ok_def kernel_law_def)

section \<open>Clearing and writing\<close>

lemmas reload_frame = progress_at_def staging_def other_maps_def

lemma clear_path_reload:
  assumes "reload_ok rl"
  shows "achieves (progress_at rl past (p, c, n, r))
    (clear_path_generation (rl_kern rl) (fd_path (rl_fds rl)) (rl_gen rl))
    (\<lambda>err y. err = 0 \<and> progress_at rl past (Cleared, c, n, r) y)"
  unfolding clear_path_generation_def
proof (rule achieves_on_map)
  fix k s assume x: "progress_at rl past (p, c, n, r) (k, s)"
  note law = reload_laws(1,15) [OF assms]
  have "path_index.index.staged (rl_gen rl) (path_policy_trie (rl_start rl)) (path_policy_trie s)"
    using x by (simp add: reload_frame)
  from path_index.index.staged_clear [OF law this, of k]
  show "\<exists>err n' m. map_option (Pair 0) (clear_generation (fd_path (rl_fds rl))
        (k_path (rl_kern rl)) plk_generation (rl_gen rl) k (path_policy_trie s)) =
        Some (err, n', m) \<and>
      err = 0 \<and> progress_at rl past (Cleared, c, n, r) (n', s\<lparr>path_policy_trie := m\<rparr>)"
    using x by (fastforce simp: reload_frame)
qed

lemma clear_command_reload:
  assumes "reload_ok rl"
  shows "achieves (progress_at rl past (p, c, n, r))
    (clear_command_generation (rl_kern rl) (fd_command (rl_fds rl)) (rl_gen rl))
    (\<lambda>err y. err = 0 \<and> progress_at rl past (p, Cleared, n, r) y)"
  unfolding clear_command_generation_def
proof (rule achieves_on_map)
  fix k s assume x: "progress_at rl past (p, c, n, r) (k, s)"
  note law = reload_laws(2,16) [OF assms]
  have "command_index.index.staged (rl_gen rl) (command_policy_trie (rl_start rl)) (command_policy_trie s)"
    using x by (simp add: reload_frame)
  from command_index.index.staged_clear [OF law this, of k]
  show "\<exists>err n' m. map_option (Pair 0) (clear_generation (fd_command (rl_fds rl))
        (k_command (rl_kern rl)) clk_generation (rl_gen rl) k (command_policy_trie s)) = Some (err, n', m) \<and>
      err = 0 \<and> progress_at rl past (p, Cleared, n, r) (n', s\<lparr>command_policy_trie := m\<rparr>)"
    using x by (fastforce simp: reload_frame)
qed

lemma clear_network_reload:
  assumes "reload_ok rl"
  shows "achieves (progress_at rl past (p, c, n, r))
    (clear_network_generation (rl_kern rl) (fd_network (rl_fds rl)) (rl_gen rl))
    (\<lambda>err y. err = 0 \<and> progress_at rl past (p, c, Cleared, r) y)"
  unfolding clear_network_generation_def
proof (rule achieves_on_map)
  fix k s assume x: "progress_at rl past (p, c, n, r) (k, s)"
  note law = reload_laws(3,17) [OF assms]
  have "network_index.index.staged (rl_gen rl) (network_policy_trie (rl_start rl)) (network_policy_trie s)"
    using x by (simp add: reload_frame)
  from network_index.index.staged_clear [OF law this, of k]
  show "\<exists>err n' m. map_option (Pair 0) (clear_generation (fd_network (rl_fds rl))
        (k_network (rl_kern rl)) nlk_generation (rl_gen rl) k (network_policy_trie s)) = Some (err, n', m) \<and>
      err = 0 \<and> progress_at rl past (p, c, Cleared, r) (n', s\<lparr>network_policy_trie := m\<rparr>)"
    using x by (fastforce simp: reload_frame)
qed

lemma clear_resource_reload:
  assumes "reload_ok rl"
  shows "achieves (progress_at rl past (p, c, n, r))
    (clear_resource_generation (rl_kern rl) (fd_resource (rl_fds rl)) (rl_gen rl))
    (\<lambda>err y. err = 0 \<and> progress_at rl past (p, c, n, Cleared) y)"
  unfolding clear_resource_generation_def
proof (rule achieves_on_map)
  fix k s assume x: "progress_at rl past (p, c, n, r) (k, s)"
  note law = reload_laws(4,18) [OF assms]
  have "resource_index.staged (rl_gen rl) (resource_policy_hash (rl_start rl)) (resource_policy_hash s)"
    using x by (simp add: reload_frame)
  from resource_index.staged_clear [OF law this, of k]
  show "\<exists>err n' m. map_option (Pair 0) (clear_generation (fd_resource (rl_fds rl))
        (k_resource (rl_kern rl)) rpk_generation (rl_gen rl) k (resource_policy_hash s)) = Some (err, n', m) \<and>
      err = 0 \<and> progress_at rl past (p, c, n, Cleared) (n', s\<lparr>resource_policy_hash := m\<rparr>)"
    using x by (fastforce simp: reload_frame)
qed

text \<open>The writers meet no rule they refuse.\<close>

lemma loaded_entries:
  assumes "load_state_ok state" and "r \<in> set (loaded_rules state)"
  shows "path_entry g r \<noteq> Fail e" "command_entry g r \<noteq> Fail e" "network_entry g r \<noteq> Fail e"
    "resource_entry g r \<noteq> Fail e" "terminated_rule r"
proof -
  from assms obtain i ty where "parsed_ok ty r" by (rule loaded_rule)
  then have r: "rule_text r \<noteq> []" "terminated_rule r"
    "rule_rule_type r = MCP_GUARD_RULE_PATH_PREFIX \<longrightarrow> hd (rule_text r) = CHR ''/''"
    by (auto simp: parsed_ok_def)
  then have "rule_value r ! 0 = hd (rule_text r)"
    using nth_cstr [of 0 "rule_value r"] by (simp add: hd_conv_nth)
  moreover have "hd (rule_text r) \<noteq> NUL" using r(1) cstr_no_nul [of "rule_value r"]
    by (metis list.set_sel(1))
  ultimately show "path_entry g r \<noteq> Fail e" "command_entry g r \<noteq> Fail e"
    "network_entry g r \<noteq> Fail e" "resource_entry g r \<noteq> Fail e" "terminated_rule r"
    using r by (auto simp: path_entry_def command_entry_def network_entry_def resource_entry_def)
qed

lemma entries_of_length: "length (entries_of entry rs) \<le> length rs"
  by (induction rs) (auto split: write_step.splits)

lemma loaded_rules_length: "load_state_ok state \<Longrightarrow> length (loaded_rules state) \<le> MCP_GUARD_MAX_RULES"
  by (simp add: load_state_ok_def loaded_rules_def)

lemma reload_entries:
  assumes "reload_ok rl"
  shows "length (entries_of entry (loaded_rules (rl_rules rl))) \<le> MCP_GUARD_MAX_RULES"
  using entries_of_length [of entry "loaded_rules (rl_rules rl)"]
    loaded_rules_length [of "rl_rules rl"] assms by (simp add: reload_ok_def)

lemma reload_sizes:
  assumes "reload_ok rl"
  shows "length (path_policy_trie (rl_start rl)) \<le> 32"
    "length (command_policy_trie (rl_start rl)) \<le> 32"
    "length (network_policy_trie (rl_start rl)) \<le> 32"
    "length (resource_policy_hash (rl_start rl)) \<le> 32"
  using assms by (simp_all add: reload_ok_def snapshot_of_def)

definition after_write :: "reload \<Rightarrow> (loader \<Rightarrow> bool) \<Rightarrow> c_int \<Rightarrow> loader \<Rightarrow> bool" where
  "after_write rl done err y \<longleftrightarrow> (if err = 0 then done y else failed rl y)"

lemma write_path_reload:
  assumes rl: "reload_ok rl"
  shows "achieves (progress_at rl False (Cleared, c, n, r))
    (write_path_trie (rl_kern rl) (fd_path (rl_fds rl)) (rl_rules rl) (rl_gen rl))
    (after_write rl (progress_at rl False (Written, c, n, r)))"
  unfolding write_path_trie_def
proof (rule achieves_on_map)
  fix k s assume x: "progress_at rl False (Cleared, c, n, r) (k, s)"
  let ?es = "entries_of (path_entry (rl_gen rl)) (loaded_rules (rl_rules rl))"
  note law = reload_laws(1,8,15) [OF rl] and len = reload_entries [OF rl, of "path_entry (rl_gen rl)"]
  have st: "path_index.index.staged (rl_gen rl) (path_policy_trie (rl_start rl)) (path_policy_trie s)"
    "visible plk_generation (rl_gen rl) (set (path_policy_trie s)) = {}"
    using x by (simp_all add: reload_frame)
  have fails: "\<forall>r \<in> set (loaded_rules (rl_rules rl)). \<forall>e. path_entry (rl_gen rl) r \<noteq> Fail e"
    using loaded_entries rl by (auto simp: reload_ok_def)
  have "length (path_policy_trie (rl_start rl)) + length ?es \<le> 64"
    using len reload_sizes(1) [OF rl] by linarith
  from path_index.index.staged_write [OF law st fails this, of k] law(3) len
  show "\<exists>err n' m. Some (if fd_path (rl_fds rl) < 0 then (0, k, path_policy_trie s)
        else write_loop (fd_path (rl_fds rl)) (k_path (rl_kern rl)) (path_entry (rl_gen rl))
          (loaded_rules (rl_rules rl)) k (path_policy_trie s)) = Some (err, n', m) \<and>
      after_write rl (progress_at rl False (Written, c, n, r)) err (n', s\<lparr>path_policy_trie := m\<rparr>)"
    using x by (fastforce simp: reload_frame after_write_def)
qed

lemma write_command_reload:
  assumes rl: "reload_ok rl"
  shows "achieves (progress_at rl False (p, Cleared, n, r))
    (write_command_trie (rl_kern rl) (fd_command (rl_fds rl)) (rl_rules rl) (rl_gen rl))
    (after_write rl (progress_at rl False (p, Written, n, r)))"
  unfolding write_command_trie_def
proof (rule achieves_on_map)
  fix k s assume x: "progress_at rl False (p, Cleared, n, r) (k, s)"
  let ?es = "entries_of (command_entry (rl_gen rl)) (loaded_rules (rl_rules rl))"
  note law = reload_laws(2,9,16) [OF rl] and len = reload_entries [OF rl, of "command_entry (rl_gen rl)"]
  have st: "command_index.index.staged (rl_gen rl) (command_policy_trie (rl_start rl)) (command_policy_trie s)"
    "visible clk_generation (rl_gen rl) (set (command_policy_trie s)) = {}"
    using x by (simp_all add: reload_frame)
  have fails: "\<forall>r \<in> set (loaded_rules (rl_rules rl)). \<forall>e. command_entry (rl_gen rl) r \<noteq> Fail e"
    using loaded_entries rl by (auto simp: reload_ok_def)
  have "length (command_policy_trie (rl_start rl)) + length ?es \<le> 64"
    using len reload_sizes(2) [OF rl] by linarith
  from command_index.index.staged_write [OF law st fails this, of k] law(3) len
  show "\<exists>err n' m. Some (if fd_command (rl_fds rl) < 0 then (0, k, command_policy_trie s)
        else write_loop (fd_command (rl_fds rl)) (k_command (rl_kern rl)) (command_entry (rl_gen rl))
          (loaded_rules (rl_rules rl)) k (command_policy_trie s)) = Some (err, n', m) \<and>
      after_write rl (progress_at rl False (p, Written, n, r)) err (n', s\<lparr>command_policy_trie := m\<rparr>)"
    using x by (fastforce simp: reload_frame after_write_def)
qed

lemma write_network_reload:
  assumes rl: "reload_ok rl"
  shows "achieves (progress_at rl False (p, c, Cleared, r))
    (write_network_trie (rl_kern rl) (fd_network (rl_fds rl)) (rl_rules rl) (rl_gen rl))
    (after_write rl (progress_at rl False (p, c, Written, r)))"
  unfolding write_network_trie_def
proof (rule achieves_on_map)
  fix k s assume x: "progress_at rl False (p, c, Cleared, r) (k, s)"
  let ?es = "entries_of (network_entry (rl_gen rl)) (loaded_rules (rl_rules rl))"
  note law = reload_laws(3,10,17) [OF rl] and len = reload_entries [OF rl, of "network_entry (rl_gen rl)"]
  have st: "network_index.index.staged (rl_gen rl) (network_policy_trie (rl_start rl)) (network_policy_trie s)"
    "visible nlk_generation (rl_gen rl) (set (network_policy_trie s)) = {}"
    using x by (simp_all add: reload_frame)
  have fails: "\<forall>r \<in> set (loaded_rules (rl_rules rl)). \<forall>e. network_entry (rl_gen rl) r \<noteq> Fail e"
    using loaded_entries rl by (auto simp: reload_ok_def)
  have "length (network_policy_trie (rl_start rl)) + length ?es \<le> 64"
    using len reload_sizes(3) [OF rl] by linarith
  from network_index.index.staged_write [OF law st fails this, of k] law(3) len
  show "\<exists>err n' m. Some (if fd_network (rl_fds rl) < 0 then (0, k, network_policy_trie s)
        else write_loop (fd_network (rl_fds rl)) (k_network (rl_kern rl)) (network_entry (rl_gen rl))
          (loaded_rules (rl_rules rl)) k (network_policy_trie s)) = Some (err, n', m) \<and>
      after_write rl (progress_at rl False (p, c, Written, r)) err (n', s\<lparr>network_policy_trie := m\<rparr>)"
    using x by (fastforce simp: reload_frame after_write_def)
qed

lemma write_resource_reload:
  assumes rl: "reload_ok rl"
  shows "achieves (progress_at rl False (p, c, n, Cleared))
    (write_resource_hash (rl_kern rl) (fd_resource (rl_fds rl)) (rl_rules rl) (rl_gen rl))
    (after_write rl (progress_at rl False (p, c, n, Written)))"
  unfolding write_resource_hash_def
proof (rule achieves_on_map)
  fix k s assume x: "progress_at rl False (p, c, n, Cleared) (k, s)"
  let ?es = "entries_of (resource_entry (rl_gen rl)) (loaded_rules (rl_rules rl))"
  note law = reload_laws(4,11,18) [OF rl] and len = reload_entries [OF rl, of "resource_entry (rl_gen rl)"]
  have st: "resource_index.staged (rl_gen rl) (resource_policy_hash (rl_start rl)) (resource_policy_hash s)"
    "visible rpk_generation (rl_gen rl) (set (resource_policy_hash s)) = {}"
    using x by (simp_all add: reload_frame)
  have fails: "\<forall>r \<in> set (loaded_rules (rl_rules rl)). \<forall>e. resource_entry (rl_gen rl) r \<noteq> Fail e"
    using loaded_entries rl by (auto simp: reload_ok_def)
  have "length (resource_policy_hash (rl_start rl)) + length ?es \<le> 64"
    using len reload_sizes(4) [OF rl] by linarith
  from resource_index.staged_write [OF law st fails this, of k] law(3) len
  show "\<exists>err n' m. Some (if fd_resource (rl_fds rl) < 0 then (0, k, resource_policy_hash s)
        else write_loop (fd_resource (rl_fds rl)) (k_resource (rl_kern rl)) (resource_entry (rl_gen rl))
          (loaded_rules (rl_rules rl)) k (resource_policy_hash s)) = Some (err, n', m) \<and>
      after_write rl (progress_at rl False (p, c, n, Written)) err (n', s\<lparr>resource_policy_hash := m\<rparr>)"
    using x by (fastforce simp: reload_frame after_write_def)
qed

section \<open>Roll-back\<close>

text \<open>The roll-back after its first \<open>k\<close> parts; the fault is behind.\<close>

definition undoing :: "reload \<Rightarrow> nat \<Rightarrow> loader \<Rightarrow> bool" where
  "undoing rl k x \<longleftrightarrow>
     rl_fault rl < fst x \<and>
     other_maps (snd x) = other_maps (rl_start rl) \<and>
     global_epoch (snd x) = global_epoch (rl_start rl) \<and>
     dom (policy_config (snd x)) = dom (policy_config (rl_start rl)) \<and>
     (if 1 \<le> k then policy_rules (snd x) = policy_rules (rl_start rl)
      else dom (policy_rules (snd x)) = dom (policy_rules (rl_start rl))) \<and>
     path_index.index.staged (rl_gen rl) (path_policy_trie (rl_start rl))
       (path_policy_trie (snd x)) \<and>
     command_index.index.staged (rl_gen rl) (command_policy_trie (rl_start rl))
       (command_policy_trie (snd x)) \<and>
     network_index.index.staged (rl_gen rl) (network_policy_trie (rl_start rl))
       (network_policy_trie (snd x)) \<and>
     resource_index.staged (rl_gen rl) (resource_policy_hash (rl_start rl))
       (resource_policy_hash (snd x)) \<and>
     (k < 3 \<longrightarrow> card (visible clk_generation (rl_gen rl) (set (command_policy_trie (snd x)))) \<le> 32) \<and>
     (k < 4 \<longrightarrow> card (visible nlk_generation (rl_gen rl) (set (network_policy_trie (snd x)))) \<le> 32) \<and>
     (k < 5 \<longrightarrow> card (visible rpk_generation (rl_gen rl) (set (resource_policy_hash (snd x)))) \<le> 32) \<and>
     entries_ok (=) (scope_comm (snd x)) \<and> entries_ok (=) (scope_pid (snd x)) \<and>
     entries_ok (=) (scope_tgid (snd x)) \<and>
     (6 \<le> k \<longrightarrow> set (scope_comm (snd x)) = set (scope_comm (rl_start rl))) \<and>
     (7 \<le> k \<longrightarrow> set (scope_pid (snd x)) = set (scope_pid (rl_start rl))) \<and>
     (8 \<le> k \<longrightarrow> set (scope_tgid (snd x)) = set (scope_tgid (rl_start rl))) \<and>
     (9 \<le> k \<longrightarrow> policy_config (snd x) = policy_config (rl_start rl))"

lemma undoing_0: "failed rl x \<Longrightarrow> undoing rl 0 x"
  by (simp add: undoing_def progress_at_def staging_def)

lemmas undo_frame = undoing_def other_maps_def

lemma restore_rules_reload:
  assumes rl: "reload_ok rl"
  shows "achieves (undoing rl 0)
    (on_map policy_rules policy_rules_update (\<lambda>n a. Some
       (restore_rules_loop (rl_kern rl) (fd_rules (rl_fds rl)) (snap_rules (rl_snap rl))
         [0..<MCP_GUARD_MAX_RULES] 0 n a)))
    (\<lambda>err y. err = 0 \<and> undoing rl 1 y)"
proof (rule achieves_on_map)
  fix n s assume x: "undoing rl 0 (n, s)"
  have full: "dom (policy_rules (rl_start rl)) = of_nat ` {..<32}"
    and snap: "snap_rules (rl_snap rl) = map (\<lambda>i. the (policy_rules (rl_start rl) (of_nat i))) [0..<32]"
    using rl by (simp_all add: reload_ok_def policy_maps_ok_def snapshot_of_def)
  have "\<forall>i \<in> set [0..<32]. (of_nat i :: u32) \<in> dom (policy_rules s)" "rl_fault rl < n"
    using x full by (auto simp: undo_frame)
  from restore_rules_room [OF reload_laws(25,22) [OF rl] this distinct_indexes]
  obtain n' a' where r: "restore_rules_loop (rl_kern rl) (fd_rules (rl_fds rl))
      (snap_rules (rl_snap rl)) [0..<32] 0 n (policy_rules s) = (0, n', a')" "n \<le> n'"
    "\<forall>key. key \<notin> of_nat ` set [0..<32] \<longrightarrow> a' key = policy_rules s key"
    "\<forall>i \<in> set [0..<32]. a' (of_nat i) = Some (snap_rules (rl_snap rl) ! i)" by blast
  have "a' = policy_rules (rl_start rl)"
  proof
    fix key :: u32
    show "a' key = policy_rules (rl_start rl) key"
    proof (cases "key \<in> of_nat ` {..<32}")
      case True
      then obtain i where i: "i < 32" "key = of_nat i" by auto
      then have "a' key = Some (the (policy_rules (rl_start rl) key))"
        using r(4) snap by simp
      moreover have "policy_rules (rl_start rl) key \<noteq> None" using full True by auto
      ultimately show ?thesis by simp
    next
      case False
      then have "a' key = policy_rules s key" using r(3) by (simp add: atLeast0LessThan)
      moreover have "key \<notin> dom (policy_rules s)" "key \<notin> dom (policy_rules (rl_start rl))"
        using False full x by (simp_all add: undo_frame)
      ultimately show ?thesis by (simp add: domIff)
    qed
  qed
  then show "\<exists>err n' m. Some (restore_rules_loop (rl_kern rl) (fd_rules (rl_fds rl))
        (snap_rules (rl_snap rl)) [0..<32] 0 n (policy_rules s)) = Some (err, n', m) \<and>
      err = 0 \<and> undoing rl 1 (n', s\<lparr>policy_rules := m\<rparr>)"
    using x r(1,2) by (simp add: undo_frame)
qed

lemma restore_path_reload:
  assumes rl: "reload_ok rl"
  shows "achieves (undoing rl 1) (restore_path_trie (rl_kern rl) (fd_path (rl_fds rl)) (rl_snap rl))
    (\<lambda>err y. err = 0 \<and> undoing rl 2 y)"
  unfolding achieves_def
proof (intro allI impI)
  fix x assume x: "undoing rl 1 x"
  note law = reload_laws(1,8,15) [OF rl]
  have st: "entries_ok (same_lpm plk_prefixlen path_key_bits) (path_policy_trie (snd x))"
    "path_index.index.staged (rl_gen rl) (path_policy_trie (rl_start rl)) (path_policy_trie (rl_start rl))"
    "rl_fault rl < fst x" "length (path_policy_trie (rl_start rl)) \<le> 64"
    using x rl reload_sizes(1) [OF rl]
    by (simp_all add: undo_frame path_index.index.staged_def reload_ok_def policy_maps_ok_def
        path_index.index.sound_def)
  from path_index.index.wipe_restore [OF law st]
  show "\<exists>err y. restore_path_trie (rl_kern rl) (fd_path (rl_fds rl)) (rl_snap rl) x =
      Some (err, y) \<and> err = 0 \<and> undoing rl 2 y"
    using x law(3) rl
    by (fastforce simp: restore_path_trie_def clear_path_trie_def attempt_def on_map_def
        reload_ok_def snapshot_of_def undo_frame)
qed

lemma restore_command_reload:
  assumes rl: "reload_ok rl"
  shows "achieves (undoing rl 2)
    (restore_command_trie (rl_kern rl) (fd_command (rl_fds rl)) (rl_snap rl))
    (\<lambda>err y. err = 0 \<and> undoing rl 3 y)"
  unfolding achieves_def
proof (intro allI impI)
  fix x assume x: "undoing rl 2 x"
  note law = reload_laws(2,9,16) [OF rl]
  have st: "command_index.index.staged (rl_gen rl) (command_policy_trie (rl_start rl)) (command_policy_trie (snd x))"
    "command_index.index.staged (rl_gen rl) (command_policy_trie (rl_start rl)) (command_policy_trie (rl_start rl))"
    "rl_fault rl < fst x"
    "length (command_policy_trie (rl_start rl)) + card (visible clk_generation (rl_gen rl) (set (command_policy_trie (snd x)))) \<le> 64"
    using x rl reload_sizes(2) [OF rl]
    by (simp_all add: undo_frame command_index.index.staged_refl reload_ok_def policy_maps_ok_def)
  from command_index.index.staged_restore [OF law st, of "cfg_active_generation (snap_config (rl_snap rl))"]
  show "\<exists>err y. restore_command_trie (rl_kern rl) (fd_command (rl_fds rl)) (rl_snap rl) x =
      Some (err, y) \<and> err = 0 \<and> undoing rl 3 y"
    using x law(3) rl
    by (fastforce simp: restore_command_trie_def clear_command_generation_def attempt_def on_map_def
        reload_ok_def snapshot_of_def undo_frame)
qed

lemma restore_network_reload:
  assumes rl: "reload_ok rl"
  shows "achieves (undoing rl 3)
    (restore_network_trie (rl_kern rl) (fd_network (rl_fds rl)) (rl_snap rl))
    (\<lambda>err y. err = 0 \<and> undoing rl 4 y)"
  unfolding achieves_def
proof (intro allI impI)
  fix x assume x: "undoing rl 3 x"
  note law = reload_laws(3,10,17) [OF rl]
  have st: "network_index.index.staged (rl_gen rl) (network_policy_trie (rl_start rl)) (network_policy_trie (snd x))"
    "network_index.index.staged (rl_gen rl) (network_policy_trie (rl_start rl)) (network_policy_trie (rl_start rl))"
    "rl_fault rl < fst x"
    "length (network_policy_trie (rl_start rl)) + card (visible nlk_generation (rl_gen rl) (set (network_policy_trie (snd x)))) \<le> 64"
    using x rl reload_sizes(3) [OF rl]
    by (simp_all add: undo_frame network_index.index.staged_refl reload_ok_def policy_maps_ok_def)
  from network_index.index.staged_restore [OF law st, of "cfg_active_generation (snap_config (rl_snap rl))"]
  show "\<exists>err y. restore_network_trie (rl_kern rl) (fd_network (rl_fds rl)) (rl_snap rl) x =
      Some (err, y) \<and> err = 0 \<and> undoing rl 4 y"
    using x law(3) rl
    by (fastforce simp: restore_network_trie_def clear_network_generation_def attempt_def on_map_def
        reload_ok_def snapshot_of_def undo_frame)
qed

lemma restore_resource_reload:
  assumes rl: "reload_ok rl"
  shows "achieves (undoing rl 4)
    (restore_resource_hash (rl_kern rl) (fd_resource (rl_fds rl)) (rl_snap rl))
    (\<lambda>err y. err = 0 \<and> undoing rl 5 y)"
  unfolding achieves_def
proof (intro allI impI)
  fix x assume x: "undoing rl 4 x"
  note law = reload_laws(4,11,18) [OF rl]
  have st: "resource_index.staged (rl_gen rl) (resource_policy_hash (rl_start rl)) (resource_policy_hash (snd x))"
    "resource_index.staged (rl_gen rl) (resource_policy_hash (rl_start rl)) (resource_policy_hash (rl_start rl))"
    "rl_fault rl < fst x"
    "length (resource_policy_hash (rl_start rl)) + card (visible rpk_generation (rl_gen rl) (set (resource_policy_hash (snd x)))) \<le> 64"
    using x rl reload_sizes(4) [OF rl]
    by (simp_all add: undo_frame resource_index.staged_refl reload_ok_def policy_maps_ok_def)
  from resource_index.staged_restore [OF law st, of "cfg_active_generation (snap_config (rl_snap rl))"]
  show "\<exists>err y. restore_resource_hash (rl_kern rl) (fd_resource (rl_fds rl)) (rl_snap rl) x =
      Some (err, y) \<and> err = 0 \<and> undoing rl 5 y"
    using x law(3) rl
    by (fastforce simp: restore_resource_hash_def clear_resource_generation_def attempt_def on_map_def
        reload_ok_def snapshot_of_def undo_frame)
qed

text \<open>A scope map is cleared and filled with its old entries.\<close>

lemma scope_refill:
  assumes "map_law (=) ops" and "room_law 64 fault (=) ops" and "0 \<le> fd"
    and "entries_ok (=) es" and "length es \<le> 64" and "fault < n"
  shows "\<exists>n' m'. update_all fd ops es 0 n [] = (0, n', m') \<and> n \<le> n' \<and> entries_ok (=) m' \<and>
    set m' = set es"
proof -
  have "card (set [] \<union> set es) \<le> 64" using card_length [of es] assms(5) by simp
  from update_all_ok [OF assms(1-3) entries_ok_Nil assms(6) this, of 0]
  show ?thesis using fold_put_distinct [OF assms(4), of "{}"] by auto
qed

lemma clear_comm_undo:
  assumes rl: "reload_ok rl"
  shows "achieves (undoing rl 5) (clear_comm_scopes (rl_kern rl) (fd_comm (rl_fds rl)))
    (\<lambda>err y. err = 0 \<and> (undoing rl 5 y \<and> scope_comm (snd y) = []))"
  unfolding clear_comm_scopes_def
proof (rule achieves_on_map)
  fix n s assume x: "undoing rl 5 (n, s)"
  then have "entries_ok (=) (scope_comm s)" by (simp add: undo_frame)
  from clear_all_ends [OF reload_laws(5) [OF rl] this reload_laws(19) [OF rl], of n]
  show "\<exists>err n' m. map_option (Pair 0) (clear_all (fd_comm (rl_fds rl)) (k_comm (rl_kern rl)) n
        (scope_comm s)) = Some (err, n', m) \<and>
      err = 0 \<and> undoing rl 5 (n', s\<lparr>scope_comm := m\<rparr>) \<and>
      scope_comm (snd (n', s\<lparr>scope_comm := m\<rparr>)) = []"
    using x by (fastforce simp: undo_frame)
qed

lemma fill_comm_undo:
  assumes rl: "reload_ok rl"
  shows "achieves (\<lambda>x. undoing rl 5 x \<and> scope_comm (snd x) = [])
    (on_comm (\<lambda>n m. Some
       (update_all (fd_comm (rl_fds rl)) (k_comm (rl_kern rl)) (snap_comm (rl_snap rl)) 0 n m)))
    (\<lambda>err y. err = 0 \<and> undoing rl 6 y)"
proof (rule achieves_on_map)
  fix n s assume x: "undoing rl 5 (n, s) \<and> scope_comm (snd (n, s)) = []"
  have old: "snap_comm (rl_snap rl) = scope_comm (rl_start rl)" "entries_ok (=) (scope_comm (rl_start rl))"
    "length (scope_comm (rl_start rl)) \<le> 64"
    using rl by (simp_all add: reload_ok_def snapshot_of_def policy_maps_ok_def)
  have "rl_fault rl < n" using x by (simp add: undo_frame)
  from scope_refill [OF reload_laws(5,12,19) [OF rl] old(2,3) this] x
  show "\<exists>err n' m. Some (update_all (fd_comm (rl_fds rl)) (k_comm (rl_kern rl))
        (snap_comm (rl_snap rl)) 0 n (scope_comm s)) = Some (err, n', m) \<and>
      err = 0 \<and> undoing rl 6 (n', s\<lparr>scope_comm := m\<rparr>)"
    by (fastforce simp: undo_frame old(1))
qed

lemma clear_pid_undo:
  assumes rl: "reload_ok rl"
  shows "achieves (undoing rl 6) (on_pid (clear_id_scopes (k_pid (rl_kern rl)) (fd_pid (rl_fds rl))))
    (\<lambda>err y. err = 0 \<and> (undoing rl 6 y \<and> scope_pid (snd y) = []))"
  unfolding clear_id_scopes_def
proof (rule achieves_on_map)
  fix n s assume x: "undoing rl 6 (n, s)"
  then have "entries_ok (=) (scope_pid s)" by (simp add: undo_frame)
  from clear_all_ends [OF reload_laws(6) [OF rl] this reload_laws(20) [OF rl], of n]
  show "\<exists>err n' m. map_option (Pair 0) (clear_all (fd_pid (rl_fds rl)) (k_pid (rl_kern rl)) n
        (scope_pid s)) = Some (err, n', m) \<and>
      err = 0 \<and> undoing rl 6 (n', s\<lparr>scope_pid := m\<rparr>) \<and>
      scope_pid (snd (n', s\<lparr>scope_pid := m\<rparr>)) = []"
    using x by (fastforce simp: undo_frame)
qed

lemma fill_pid_undo:
  assumes rl: "reload_ok rl"
  shows "achieves (\<lambda>x. undoing rl 6 x \<and> scope_pid (snd x) = [])
    (on_pid (\<lambda>n m. Some
       (update_all (fd_pid (rl_fds rl)) (k_pid (rl_kern rl)) (snap_pid (rl_snap rl)) 0 n m)))
    (\<lambda>err y. err = 0 \<and> undoing rl 7 y)"
proof (rule achieves_on_map)
  fix n s assume x: "undoing rl 6 (n, s) \<and> scope_pid (snd (n, s)) = []"
  have old: "snap_pid (rl_snap rl) = scope_pid (rl_start rl)" "entries_ok (=) (scope_pid (rl_start rl))"
    "length (scope_pid (rl_start rl)) \<le> 64"
    using rl by (simp_all add: reload_ok_def snapshot_of_def policy_maps_ok_def)
  have "rl_fault rl < n" using x by (simp add: undo_frame)
  from scope_refill [OF reload_laws(6,13,20) [OF rl] old(2,3) this] x
  show "\<exists>err n' m. Some (update_all (fd_pid (rl_fds rl)) (k_pid (rl_kern rl))
        (snap_pid (rl_snap rl)) 0 n (scope_pid s)) = Some (err, n', m) \<and>
      err = 0 \<and> undoing rl 7 (n', s\<lparr>scope_pid := m\<rparr>)"
    by (fastforce simp: undo_frame old(1))
qed

lemma clear_tgid_undo:
  assumes rl: "reload_ok rl"
  shows "achieves (undoing rl 7) (on_tgid (clear_id_scopes (k_tgid (rl_kern rl)) (fd_tgid (rl_fds rl))))
    (\<lambda>err y. err = 0 \<and> (undoing rl 7 y \<and> scope_tgid (snd y) = []))"
  unfolding clear_id_scopes_def
proof (rule achieves_on_map)
  fix n s assume x: "undoing rl 7 (n, s)"
  then have "entries_ok (=) (scope_tgid s)" by (simp add: undo_frame)
  from clear_all_ends [OF reload_laws(7) [OF rl] this reload_laws(21) [OF rl], of n]
  show "\<exists>err n' m. map_option (Pair 0) (clear_all (fd_tgid (rl_fds rl)) (k_tgid (rl_kern rl)) n
        (scope_tgid s)) = Some (err, n', m) \<and>
      err = 0 \<and> undoing rl 7 (n', s\<lparr>scope_tgid := m\<rparr>) \<and>
      scope_tgid (snd (n', s\<lparr>scope_tgid := m\<rparr>)) = []"
    using x by (fastforce simp: undo_frame)
qed

lemma fill_tgid_undo:
  assumes rl: "reload_ok rl"
  shows "achieves (\<lambda>x. undoing rl 7 x \<and> scope_tgid (snd x) = [])
    (on_tgid (\<lambda>n m. Some
       (update_all (fd_tgid (rl_fds rl)) (k_tgid (rl_kern rl)) (snap_tgid (rl_snap rl)) 0 n m)))
    (\<lambda>err y. err = 0 \<and> undoing rl 8 y)"
proof (rule achieves_on_map)
  fix n s assume x: "undoing rl 7 (n, s) \<and> scope_tgid (snd (n, s)) = []"
  have old: "snap_tgid (rl_snap rl) = scope_tgid (rl_start rl)" "entries_ok (=) (scope_tgid (rl_start rl))"
    "length (scope_tgid (rl_start rl)) \<le> 64"
    using rl by (simp_all add: reload_ok_def snapshot_of_def policy_maps_ok_def)
  have "rl_fault rl < n" using x by (simp add: undo_frame)
  from scope_refill [OF reload_laws(7,14,21) [OF rl] old(2,3) this] x
  show "\<exists>err n' m. Some (update_all (fd_tgid (rl_fds rl)) (k_tgid (rl_kern rl))
        (snap_tgid (rl_snap rl)) 0 n (scope_tgid s)) = Some (err, n', m) \<and>
      err = 0 \<and> undoing rl 8 (n', s\<lparr>scope_tgid := m\<rparr>)"
    by (fastforce simp: undo_frame old(1))
qed

lemma config_room:
  assumes "reload_ok rl" and "dom (policy_config s) = {MCP_GUARD_CONFIG_KEY}"
  obtains errno where
    "array_update (rl_kern rl) (fd_config (rl_fds rl)) n (policy_config s) MCP_GUARD_CONFIG_KEY cfg =
       (errno, if errno = 0 then [MCP_GUARD_CONFIG_KEY \<mapsto> cfg] else policy_config s)"
    "errno \<noteq> 0 \<longrightarrow> n = rl_fault rl"
proof -
  have "MCP_GUARD_CONFIG_KEY \<in> dom (policy_config s)" using assms(2) by simp
  note up = array_update_room [OF reload_laws(25,23) [OF assms(1)] this, of n cfg]
  have "policy_config s = [0 \<mapsto> the (policy_config s 0)]"
    using assms(2) by (metis dom_eq_singleton_conv option.sel fun_upd_same)
  then have "(policy_config s)(0 \<mapsto> cfg) = [0 \<mapsto> cfg]" by (metis fun_upd_upd)
  then show thesis
    using that [of "fst (array_update (rl_kern rl) (fd_config (rl_fds rl)) n (policy_config s) 0 cfg)"]
      up by (auto simp: prod_eq_iff)
qed

lemma restore_config_reload:
  assumes rl: "reload_ok rl"
  shows "achieves (undoing rl 8)
    (if snap_have_config (rl_snap rl)
     then write_config (rl_kern rl) (fd_config (rl_fds rl)) (snap_config (rl_snap rl))
     else skip_step)
    (\<lambda>err y. err = 0 \<and> undoing rl 9 y)"
proof -
  have old: "snap_have_config (rl_snap rl)"
    "policy_config (rl_start rl) 0 = Some (snap_config (rl_snap rl))"
    "dom (policy_config (rl_start rl)) = {0}"
    using rl by (simp_all add: reload_ok_def snapshot_of_def policy_maps_ok_def)
  then have start: "policy_config (rl_start rl) = [0 \<mapsto> snap_config (rl_snap rl)]"
    by (metis dom_eq_singleton_conv fun_upd_same option.sel)
  show ?thesis
    unfolding write_config_def if_P [OF old(1)]
  proof (rule achieves_on_map)
    fix n s assume x: "undoing rl 8 (n, s)"
    then have "dom (policy_config s) = {0}" using old(3) by (simp add: undo_frame)
    from config_room [OF rl this, of n "snap_config (rl_snap rl)"] obtain errno where up:
      "array_update (rl_kern rl) (fd_config (rl_fds rl)) n (policy_config s) 0
         (snap_config (rl_snap rl)) =
       (errno, if errno = 0 then [0 \<mapsto> snap_config (rl_snap rl)] else policy_config s)"
      "errno \<noteq> 0 \<longrightarrow> n = rl_fault rl" .
    moreover have "errno = 0" using x up(2) by (auto simp: undo_frame)
    ultimately show "\<exists>err n' m. Some (case array_update (rl_kern rl) (fd_config (rl_fds rl)) n
          (policy_config s) 0 (snap_config (rl_snap rl)) of
            (errno, a') \<Rightarrow> (- errno, Suc n, a')) = Some (err, n', m) \<and>
        err = 0 \<and> undoing rl 9 (n', s\<lparr>policy_config := m\<rparr>)"
      using x start by (simp add: undo_frame)
  qed
qed

text \<open>The roll-back as a whole.\<close>

lemma restore_reload:
  assumes rl: "reload_ok rl"
  shows "achieves (failed rl) (restore_policy_maps (rl_kern rl) (rl_fds rl) (rl_snap rl))
    (\<lambda>_. undoing rl 9)"
proof -
  have "achieves (undoing rl 0) (restore_policy_maps (rl_kern rl) (rl_fds rl) (rl_snap rl))
    (\<lambda>err y. err = 0 \<and> undoing rl 9 y)"
    unfolding restore_policy_maps_def
    by (intro achieves_keep_first [OF restore_rules_reload [OF rl]]
        achieves_keep_first [OF restore_path_reload [OF rl]]
        achieves_keep_first [OF restore_command_reload [OF rl]]
        achieves_keep_first [OF restore_network_reload [OF rl]]
        achieves_keep_first [OF restore_resource_reload [OF rl]]
        achieves_keep_first [OF clear_comm_undo [OF rl]]
        achieves_keep_first [OF fill_comm_undo [OF rl]]
        achieves_keep_first [OF clear_pid_undo [OF rl]]
        achieves_keep_first [OF fill_pid_undo [OF rl]]
        achieves_keep_first [OF clear_tgid_undo [OF rl]]
        achieves_keep_first [OF fill_tgid_undo [OF rl]] restore_config_reload [OF rl])
  then show ?thesis by (rule achieves_mono) (auto intro: undoing_0)
qed

section \<open>Publishing\<close>

abbreviation staged_all where "staged_all rl \<equiv> progress_at rl False (Written, Written, Written, Written)"

definition rules_written :: "reload \<Rightarrow> bpf_state \<Rightarrow> bool" where
  "rules_written rl s \<longleftrightarrow>
     (\<forall>i < MCP_GUARD_MAX_RULES. policy_rules s (of_nat i) =
        Some (if i < unat (pls_next_index (rl_rules rl)) then pls_rules (rl_rules rl) ! i
              else zero_rule))"

definition scopes_written :: "reload \<Rightarrow> bpf_state \<Rightarrow> bool" where
  "scopes_written rl s \<longleftrightarrow>
     set (scope_comm s) = (\<lambda>k. (k, scope_value (rl_config rl) MCP_GUARD_SCOPE_SELECTOR_COMM)) `
       set (sls_comm_keys (rl_scope rl)) \<and>
     set (scope_pid s) = (\<lambda>k. (k, scope_value (rl_config rl) MCP_GUARD_SCOPE_SELECTOR_PID)) `
       set (sls_pid_keys (rl_scope rl)) \<and>
     set (scope_tgid s) = (\<lambda>k. (k, scope_value (rl_config rl) MCP_GUARD_SCOPE_SELECTOR_TGID)) `
       set (sls_tgid_keys (rl_scope rl))"

definition published :: "reload \<Rightarrow> nat \<Rightarrow> loader \<Rightarrow> bool" where
  "published rl k x \<longleftrightarrow>
     staged_all rl x \<and> rules_written rl (snd x) \<and>
     (1 \<le> k \<longrightarrow> set (scope_comm (snd x)) =
        (\<lambda>k. (k, scope_value (rl_config rl) MCP_GUARD_SCOPE_SELECTOR_COMM)) `
          set (sls_comm_keys (rl_scope rl))) \<and>
     (2 \<le> k \<longrightarrow> set (scope_pid (snd x)) =
        (\<lambda>k. (k, scope_value (rl_config rl) MCP_GUARD_SCOPE_SELECTOR_PID)) `
          set (sls_pid_keys (rl_scope rl))) \<and>
     (3 \<le> k \<longrightarrow> set (scope_tgid (snd x)) =
        (\<lambda>k. (k, scope_value (rl_config rl) MCP_GUARD_SCOPE_SELECTOR_TGID)) `
          set (sls_tgid_keys (rl_scope rl))) \<and>
     (4 \<le> k \<longrightarrow> policy_config (snd x) = [MCP_GUARD_CONFIG_KEY \<mapsto> rl_config rl])"

lemma write_rules_reload:
  assumes rl: "reload_ok rl"
  shows "achieves (staged_all rl) (write_rules (rl_kern rl) (fd_rules (rl_fds rl)) (rl_rules rl))
    (after_write rl (published rl 0))"
  unfolding write_rules_def
proof (rule achieves_on_map)
  fix n s assume x: "staged_all rl (n, s)"
  have full: "dom (policy_rules (rl_start rl)) = of_nat ` {..<32}"
    using rl by (simp add: reload_ok_def policy_maps_ok_def)
  have "\<forall>i \<in> set [0..<32]. (of_nat i :: u32) \<in> dom (policy_rules s)"
    using x full by (auto simp: reload_frame)
  from write_rules_room [OF reload_laws(25,22) [OF rl] this distinct_indexes, of "rl_rules rl" n]
  obtain err n' a' where w: "write_rules_loop (rl_kern rl) (fd_rules (rl_fds rl)) (rl_rules rl)
      [0..<32] n (policy_rules s) = (err, n', a')"
    "dom a' = dom (policy_rules s)" "err \<noteq> 0 \<longrightarrow> rl_fault rl < n'"
    "err = 0 \<longrightarrow> (\<forall>i \<in> set [0..<32]. a' (of_nat i) =
      Some (if i < unat (pls_next_index (rl_rules rl)) then pls_rules (rl_rules rl) ! i
            else zero_rule))" by blast
  then show "\<exists>err n' m. Some (write_rules_loop (rl_kern rl) (fd_rules (rl_fds rl)) (rl_rules rl)
        [0..<32] n (policy_rules s)) = Some (err, n', m) \<and>
      after_write rl (published rl 0) err (n', s\<lparr>policy_rules := m\<rparr>)"
    using x by (auto simp: after_write_def published_def rules_written_def reload_frame)
qed

text \<open>Writing a scope map from scratch.\<close>

lemma fold_put_keys:
  "fold (put (=)) (map (\<lambda>k. (k, v)) keys) S =
     (\<lambda>k. (k, v)) ` set keys \<union> {e \<in> S. fst e \<notin> set keys}"
proof (induction keys arbitrary: S)
  case Nil
  then show ?case by simp
next
  case (Cons k keys)
  then show ?case by (auto simp: put_def)
qed

lemma entries_of_keys: "entries_of (\<lambda>k. Entry k v) keys = map (\<lambda>k. (k, v)) keys"
  by (induction keys) simp_all

lemma scope_write:
  assumes law: "map_law (=) ops" and room: "room_law 64 fault (=) ops" and fd: "0 \<le> fd"
    and keys: "length keys \<le> 64"
  shows "\<exists>err n' m'. write_loop fd ops (\<lambda>k. Entry k v) keys n [] = (err, n', m') \<and>
    entries_ok (=) m' \<and> (err \<noteq> 0 \<longrightarrow> fault < n') \<and>
    (err = 0 \<longrightarrow> set m' = (\<lambda>k. (k, v)) ` set keys)"
proof -
  have "card ((\<lambda>k. (k, v)) ` set keys) \<le> 64"
    using card_image_le [of "set keys" "\<lambda>k. (k, v)"] card_length [of keys] keys by simp
  then have "card (set [] \<union> set (entries_of (\<lambda>k. Entry k v) keys)) \<le> 64"
    by (simp add: entries_of_keys)
  have fails: "\<forall>r \<in> set keys. \<forall>e. Entry r v \<noteq> Fail e" "\<forall>r e. Entry r v = Fail e \<longrightarrow> e \<noteq> 0"
    by simp_all
  from write_loop_room [OF law room fd entries_ok_Nil fails(1) \<open>card (set [] \<union> _) \<le> 64\<close>, of n]
  obtain err n' m' where
    w: "write_loop fd ops (\<lambda>k. Entry k v) keys n [] = (err, n', m')" "err \<noteq> 0 \<longrightarrow> fault < n'"
    by blast
  from write_loop_ok [OF law fails(2) entries_ok_Nil w(1)]
  obtain i where i: "entries_ok (=) m'"
    "set m' = fold (put (=)) (take i (entries_of (\<lambda>k. Entry k v) keys)) {}"
    "err = 0 \<longrightarrow> i = length (entries_of (\<lambda>k. Entry k v) keys)" by auto
  have "err = 0 \<longrightarrow> set m' = fold (put (=)) (entries_of (\<lambda>k. Entry k v) keys) {}"
    using i(2,3) by simp
  moreover note i(1)
  ultimately show ?thesis using w by (simp add: entries_of_keys fold_put_keys)
qed

abbreviation emptied where
  "emptied rl c p t x \<equiv> published rl 0 x \<and> (c \<longrightarrow> scope_comm (snd x) = []) \<and>
     (p \<longrightarrow> scope_pid (snd x) = []) \<and> (t \<longrightarrow> scope_tgid (snd x) = [])"

lemmas publish_frame = published_def reload_frame rules_written_def

lemma reload_keys:
  assumes "reload_ok rl"
  shows "length (sls_comm_keys (rl_scope rl)) \<le> 64" "length (sls_pid_keys (rl_scope rl)) \<le> 64"
    "length (sls_tgid_keys (rl_scope rl)) \<le> 64"
  using assms by (simp_all add: reload_ok_def scope_ok_def)

lemma clear_comm_reload:
  assumes rl: "reload_ok rl"
  shows "achieves (emptied rl False False False) (clear_comm_scopes (rl_kern rl) (fd_comm (rl_fds rl)))
    (\<lambda>err y. err = 0 \<and> emptied rl True False False y)"
  unfolding clear_comm_scopes_def
proof (rule achieves_on_map)
  fix n s assume x: "emptied rl False False False (n, s)"
  then have "entries_ok (=) (scope_comm s)" by (simp add: publish_frame)
  from clear_all_ends [OF reload_laws(5) [OF rl] this reload_laws(19) [OF rl], of n]
  show "\<exists>err n' m. map_option (Pair 0) (clear_all (fd_comm (rl_fds rl)) (k_comm (rl_kern rl)) n
        (scope_comm s)) = Some (err, n', m) \<and>
      err = 0 \<and> emptied rl True False False (n', s\<lparr>scope_comm := m\<rparr>)"
    using x by (fastforce simp: publish_frame)
qed

lemma clear_pid_reload:
  assumes rl: "reload_ok rl"
  shows "achieves (emptied rl True False False) (on_pid (clear_id_scopes (k_pid (rl_kern rl)) (fd_pid (rl_fds rl))))
    (\<lambda>err y. err = 0 \<and> emptied rl True True False y)"
  unfolding clear_id_scopes_def
proof (rule achieves_on_map)
  fix n s assume x: "emptied rl True False False (n, s)"
  then have "entries_ok (=) (scope_pid s)" by (simp add: publish_frame)
  from clear_all_ends [OF reload_laws(6) [OF rl] this reload_laws(20) [OF rl], of n]
  show "\<exists>err n' m. map_option (Pair 0) (clear_all (fd_pid (rl_fds rl)) (k_pid (rl_kern rl)) n
        (scope_pid s)) = Some (err, n', m) \<and>
      err = 0 \<and> emptied rl True True False (n', s\<lparr>scope_pid := m\<rparr>)"
    using x by (fastforce simp: publish_frame)
qed

lemma clear_tgid_reload:
  assumes rl: "reload_ok rl"
  shows "achieves (emptied rl True True False) (on_tgid (clear_id_scopes (k_tgid (rl_kern rl)) (fd_tgid (rl_fds rl))))
    (\<lambda>err y. err = 0 \<and> emptied rl True True True y)"
  unfolding clear_id_scopes_def
proof (rule achieves_on_map)
  fix n s assume x: "emptied rl True True False (n, s)"
  then have "entries_ok (=) (scope_tgid s)" by (simp add: publish_frame)
  from clear_all_ends [OF reload_laws(7) [OF rl] this reload_laws(21) [OF rl], of n]
  show "\<exists>err n' m. map_option (Pair 0) (clear_all (fd_tgid (rl_fds rl)) (k_tgid (rl_kern rl)) n
        (scope_tgid s)) = Some (err, n', m) \<and>
      err = 0 \<and> emptied rl True True True (n', s\<lparr>scope_tgid := m\<rparr>)"
    using x by (fastforce simp: publish_frame)
qed

lemma write_comm_reload:
  assumes rl: "reload_ok rl"
  shows "achieves (\<lambda>x. published rl 0 x \<and> scope_comm (snd x) = [] \<and> scope_pid (snd x) = [] \<and> scope_tgid (snd x) = [])
    (on_comm (\<lambda>n m. Some (write_loop (fd_comm (rl_fds rl)) (k_comm (rl_kern rl))
        (\<lambda>key. Entry key (scope_value (rl_config rl) MCP_GUARD_SCOPE_SELECTOR_COMM))
        (sls_comm_keys (rl_scope rl)) n m)))
    (after_write rl (\<lambda>x. published rl 1 x \<and> scope_pid (snd x) = [] \<and> scope_tgid (snd x) = []))"
proof (rule achieves_on_map)
  fix n s assume x: "published rl 0 (n, s) \<and> scope_comm (snd (n, s)) = [] \<and> scope_pid (snd (n, s)) = [] \<and> scope_tgid (snd (n, s)) = []"
  from scope_write [OF reload_laws(5,12,19) [OF rl] reload_keys(1) [OF rl],
      of "scope_value (rl_config rl) MCP_GUARD_SCOPE_SELECTOR_COMM" n]
  obtain err n' m' where w: "write_loop (fd_comm (rl_fds rl)) (k_comm (rl_kern rl))
      (\<lambda>key. Entry key (scope_value (rl_config rl) MCP_GUARD_SCOPE_SELECTOR_COMM))
      (sls_comm_keys (rl_scope rl)) n [] = (err, n', m')" "entries_ok (=) m'"
    "err \<noteq> 0 \<longrightarrow> rl_fault rl < n'"
    "err = 0 \<longrightarrow> set m' = (\<lambda>k. (k, scope_value (rl_config rl) MCP_GUARD_SCOPE_SELECTOR_COMM)) `
      set (sls_comm_keys (rl_scope rl))"
    by blast
  have e: "scope_comm s = []" using x by simp
  show "\<exists>err n' m. Some (write_loop (fd_comm (rl_fds rl)) (k_comm (rl_kern rl))
        (\<lambda>key. Entry key (scope_value (rl_config rl) MCP_GUARD_SCOPE_SELECTOR_COMM))
        (sls_comm_keys (rl_scope rl)) n (scope_comm s)) = Some (err, n', m) \<and>
      after_write rl (\<lambda>x. published rl 1 x \<and> scope_pid (snd x) = [] \<and> scope_tgid (snd x) = []) err
        (n', s\<lparr>scope_comm := m\<rparr>)"
    unfolding e w(1) using x w(2-4)
    by (cases "err = 0") (auto simp: publish_frame after_write_def)
qed

lemma write_pid_reload:
  assumes rl: "reload_ok rl"
  shows "achieves (\<lambda>x. published rl 1 x \<and> scope_pid (snd x) = [] \<and> scope_tgid (snd x) = [])
    (on_pid (\<lambda>n m. Some (write_loop (fd_pid (rl_fds rl)) (k_pid (rl_kern rl))
        (\<lambda>key. Entry key (scope_value (rl_config rl) MCP_GUARD_SCOPE_SELECTOR_PID))
        (sls_pid_keys (rl_scope rl)) n m)))
    (after_write rl (\<lambda>x. published rl 2 x \<and> scope_tgid (snd x) = []))"
proof (rule achieves_on_map)
  fix n s assume x: "published rl 1 (n, s) \<and> scope_pid (snd (n, s)) = [] \<and> scope_tgid (snd (n, s)) = []"
  from scope_write [OF reload_laws(6,13,20) [OF rl] reload_keys(2) [OF rl],
      of "scope_value (rl_config rl) MCP_GUARD_SCOPE_SELECTOR_PID" n]
  obtain err n' m' where w: "write_loop (fd_pid (rl_fds rl)) (k_pid (rl_kern rl))
      (\<lambda>key. Entry key (scope_value (rl_config rl) MCP_GUARD_SCOPE_SELECTOR_PID))
      (sls_pid_keys (rl_scope rl)) n [] = (err, n', m')" "entries_ok (=) m'"
    "err \<noteq> 0 \<longrightarrow> rl_fault rl < n'"
    "err = 0 \<longrightarrow> set m' = (\<lambda>k. (k, scope_value (rl_config rl) MCP_GUARD_SCOPE_SELECTOR_PID)) `
      set (sls_pid_keys (rl_scope rl))"
    by blast
  have e: "scope_pid s = []" using x by simp
  show "\<exists>err n' m. Some (write_loop (fd_pid (rl_fds rl)) (k_pid (rl_kern rl))
        (\<lambda>key. Entry key (scope_value (rl_config rl) MCP_GUARD_SCOPE_SELECTOR_PID))
        (sls_pid_keys (rl_scope rl)) n (scope_pid s)) = Some (err, n', m) \<and>
      after_write rl (\<lambda>x. published rl 2 x \<and> scope_tgid (snd x) = []) err
        (n', s\<lparr>scope_pid := m\<rparr>)"
    unfolding e w(1) using x w(2-4)
    by (cases "err = 0") (auto simp: publish_frame after_write_def)
qed

lemma write_tgid_reload:
  assumes rl: "reload_ok rl"
  shows "achieves (\<lambda>x. published rl 2 x \<and> scope_tgid (snd x) = [])
    (on_tgid (\<lambda>n m. Some (write_loop (fd_tgid (rl_fds rl)) (k_tgid (rl_kern rl))
        (\<lambda>key. Entry key (scope_value (rl_config rl) MCP_GUARD_SCOPE_SELECTOR_TGID))
        (sls_tgid_keys (rl_scope rl)) n m)))
    (after_write rl (published rl 3))"
proof (rule achieves_on_map)
  fix n s assume x: "published rl 2 (n, s) \<and> scope_tgid (snd (n, s)) = []"
  from scope_write [OF reload_laws(7,14,21) [OF rl] reload_keys(3) [OF rl],
      of "scope_value (rl_config rl) MCP_GUARD_SCOPE_SELECTOR_TGID" n]
  obtain err n' m' where w: "write_loop (fd_tgid (rl_fds rl)) (k_tgid (rl_kern rl))
      (\<lambda>key. Entry key (scope_value (rl_config rl) MCP_GUARD_SCOPE_SELECTOR_TGID))
      (sls_tgid_keys (rl_scope rl)) n [] = (err, n', m')" "entries_ok (=) m'"
    "err \<noteq> 0 \<longrightarrow> rl_fault rl < n'"
    "err = 0 \<longrightarrow> set m' = (\<lambda>k. (k, scope_value (rl_config rl) MCP_GUARD_SCOPE_SELECTOR_TGID)) `
      set (sls_tgid_keys (rl_scope rl))"
    by blast
  have e: "scope_tgid s = []" using x by simp
  show "\<exists>err n' m. Some (write_loop (fd_tgid (rl_fds rl)) (k_tgid (rl_kern rl))
        (\<lambda>key. Entry key (scope_value (rl_config rl) MCP_GUARD_SCOPE_SELECTOR_TGID))
        (sls_tgid_keys (rl_scope rl)) n (scope_tgid s)) = Some (err, n', m) \<and>
      after_write rl (published rl 3) err
        (n', s\<lparr>scope_tgid := m\<rparr>)"
    unfolding e w(1) using x w(2-4)
    by (cases "err = 0") (auto simp: publish_frame after_write_def)
qed

lemma achieves_then:
  assumes "achieves P a (\<lambda>err y. err = 0 \<and> R y)" and "achieves R b Q"
  shows "achieves P (and_then a b) Q"
proof (rule achieves_attempt [OF assms(1)])
  show "achieves (\<lambda>y. err = 0 \<and> R y) skip_step (\<lambda>_. Q err)" if "err \<noteq> 0" for err
    using that by (intro achieves_skip) simp
  show "achieves (\<lambda>y. (0 :: c_int) = 0 \<and> R y) b Q"
    using assms(2) by (rule achieves_mono) simp_all
qed

lemma achieves_write:
  assumes "achieves P a (after_write rl R)" and "achieves R b (after_write rl Z)"
  shows "achieves P (and_then a b) (after_write rl Z)"
proof (rule achieves_attempt [OF assms(1)])
  show "achieves (after_write rl R err) skip_step (\<lambda>_. after_write rl Z err)" if "err \<noteq> 0" for err
    using that by (intro achieves_skip) (simp add: after_write_def)
  show "achieves (after_write rl R 0) b (after_write rl Z)"
    using assms(2) by (rule achieves_mono) (simp_all add: after_write_def)
qed

lemma write_scope_reload:
  assumes rl: "reload_ok rl"
  shows "achieves (published rl 0)
    (write_scope_maps (rl_kern rl) (rl_fds rl) (rl_scope rl) (rl_config rl))
    (after_write rl (published rl 3))"
proof -
  have "achieves (emptied rl True True True)
    (and_then (on_comm (\<lambda>n m. Some (write_loop (fd_comm (rl_fds rl)) (k_comm (rl_kern rl))
        (\<lambda>key. Entry key (scope_value (rl_config rl) MCP_GUARD_SCOPE_SELECTOR_COMM))
        (sls_comm_keys (rl_scope rl)) n m)))
    (and_then (on_pid (\<lambda>n m. Some (write_loop (fd_pid (rl_fds rl)) (k_pid (rl_kern rl))
        (\<lambda>key. Entry key (scope_value (rl_config rl) MCP_GUARD_SCOPE_SELECTOR_PID))
        (sls_pid_keys (rl_scope rl)) n m)))
      (on_tgid (\<lambda>n m. Some (write_loop (fd_tgid (rl_fds rl)) (k_tgid (rl_kern rl))
        (\<lambda>key. Entry key (scope_value (rl_config rl) MCP_GUARD_SCOPE_SELECTOR_TGID))
        (sls_tgid_keys (rl_scope rl)) n m))))) (after_write rl (published rl 3))"
    by (rule achieves_mono [OF achieves_write [OF write_comm_reload [OF rl]
          achieves_write [OF write_pid_reload [OF rl] write_tgid_reload [OF rl]]]]) simp_all
  from achieves_then [OF clear_tgid_reload [OF rl] this]
  have "achieves (emptied rl False False False)
    (write_scope_maps (rl_kern rl) (rl_fds rl) (rl_scope rl) (rl_config rl))
    (after_write rl (published rl 3))"
    unfolding write_scope_maps_def
    by (intro achieves_then [OF clear_comm_reload [OF rl]] achieves_then [OF clear_pid_reload [OF rl]])
  then show ?thesis by (rule achieves_mono) simp_all
qed

lemma write_config_reload:
  assumes rl: "reload_ok rl"
  shows "achieves (published rl 3)
    (write_config (rl_kern rl) (fd_config (rl_fds rl)) (rl_config rl))
    (after_write rl (published rl 4))"
  unfolding write_config_def
proof (rule achieves_on_map)
  fix n s assume x: "published rl 3 (n, s)"
  have "dom (policy_config (rl_start rl)) = {0}"
    using rl by (simp add: reload_ok_def policy_maps_ok_def)
  then have dom: "dom (policy_config s) = {0}" using x by (simp add: publish_frame)
  from config_room [OF rl dom, of n "rl_config rl"] obtain errno where
    up: "array_update (rl_kern rl) (fd_config (rl_fds rl)) n (policy_config s) 0 (rl_config rl) =
      (errno, if errno = 0 then [0 \<mapsto> rl_config rl] else policy_config s)"
    "errno \<noteq> 0 \<longrightarrow> n = rl_fault rl" .
  show "\<exists>err n' m. Some (case array_update (rl_kern rl) (fd_config (rl_fds rl)) n
        (policy_config s) 0 (rl_config rl) of (errno, a') \<Rightarrow> (- errno, Suc n, a')) =
        Some (err, n', m) \<and>
      after_write rl (published rl 4) err (n', s\<lparr>policy_config := m\<rparr>)"
    unfolding up(1) using x up(2) dom \<open>dom (policy_config (rl_start rl)) = {0}\<close>
    by (cases "errno = 0") (auto simp: publish_frame after_write_def)
qed

text \<open>The new policy in force.\<close>

definition committed :: "reload \<Rightarrow> bpf_state \<Rightarrow> bool" where
  "committed rl s \<longleftrightarrow>
     other_maps s = other_maps (rl_start rl) \<and>
     global_epoch s = [MCP_GUARD_EPOCH_KEY \<mapsto> next_epoch (mcp_current_epoch (rl_start rl))] \<and>
     policy_config s = [MCP_GUARD_CONFIG_KEY \<mapsto> rl_config rl] \<and>
     dom (policy_rules s) = dom (policy_rules (rl_start rl)) \<and>
     rules_written rl s \<and> scopes_written rl s \<and>
     path_index.index.sound (path_policy_trie s) \<and>
     path_at Written (rl_gen rl) (loaded_rules (rl_rules rl)) (path_policy_trie s) \<and>
     command_index.index.sound (command_policy_trie s) \<and>
     command_at Written (rl_gen rl) (loaded_rules (rl_rules rl)) (command_policy_trie s) \<and>
     network_index.index.sound (network_policy_trie s) \<and>
     network_at Written (rl_gen rl) (loaded_rules (rl_rules rl)) (network_policy_trie s) \<and>
     resource_index.sound (resource_policy_hash s) \<and>
     resource_at Written (rl_gen rl) (loaded_rules (rl_rules rl)) (resource_policy_hash s) \<and>
     entries_ok (=) (scope_comm s) \<and> entries_ok (=) (scope_pid s) \<and>
     entries_ok (=) (scope_tgid s)"

lemmas commit_frame = committed_def other_maps_def rules_written_def scopes_written_def

lemma bump_epoch_reload:
  assumes rl: "reload_ok rl"
  shows "achieves (published rl 4) (bump_epoch (rl_kern rl) (fd_epoch (rl_fds rl)))
    (after_write rl (\<lambda>x. committed rl (snd x)))"
  unfolding bump_epoch_def
proof (rule achieves_on_map)
  fix n s assume x: "published rl 4 (n, s)"
  have dom: "dom (global_epoch (rl_start rl)) = {0}"
    using rl by (simp add: reload_ok_def policy_maps_ok_def)
  have epoch: "global_epoch s = global_epoch (rl_start rl)" using x by (simp add: publish_frame)
  obtain e where e: "global_epoch (rl_start rl) = [0 \<mapsto> e]"
    using dom by (metis dom_eq_singleton_conv)
  have next_e: "(let epoch = (case global_epoch s 0 of None \<Rightarrow> 0 | Some e \<Rightarrow> e) + 1
      in if epoch = 0 then 1 else epoch) = next_epoch (mcp_current_epoch (rl_start rl))"
    by (simp add: epoch e next_epoch_def mcp_current_epoch_def Let_def)
  let ?e = "next_epoch (mcp_current_epoch (rl_start rl))"
  have "0 \<in> dom (global_epoch s)" using dom epoch by simp
  from array_update_room [OF reload_laws(25,24) [OF rl] this, of n ?e]
  obtain errno where up: "array_update (rl_kern rl) (fd_epoch (rl_fds rl)) n (global_epoch s) 0 ?e =
      (errno, if errno = 0 then [0 \<mapsto> ?e] else global_epoch s)" "errno \<noteq> 0 \<longrightarrow> n = rl_fault rl"
    by (cases "array_update (rl_kern rl) (fd_epoch (rl_fds rl)) n (global_epoch s) 0 ?e")
      (auto simp: epoch e)
  have "after_write rl (\<lambda>x. committed rl (snd x)) (- errno)
      (Suc n, s\<lparr>global_epoch := if errno = 0 then [0 \<mapsto> ?e] else global_epoch s\<rparr>)"
  proof (cases "errno = 0")
    case True
    then show ?thesis
      using x by (auto simp: publish_frame commit_frame after_write_def
          path_index.index.staged_sound command_index.index.staged_sound
          network_index.index.staged_sound resource_index.staged_sound)
  next
    case False
    then have "failed rl (Suc n, s)"
      using x up(2) by (simp add: published_def progress_at_def)
    moreover have "s\<lparr>global_epoch := global_epoch s\<rparr> = s" by simp
    ultimately show ?thesis using False by (simp add: after_write_def)
  qed
  then show "\<exists>err n' m. Some (let epoch = (case global_epoch s 0 of None \<Rightarrow> 0 | Some e \<Rightarrow> e) + 1;
        epoch' = if epoch = 0 then 1 else epoch;
        (errno, a') = array_update (rl_kern rl) (fd_epoch (rl_fds rl)) n (global_epoch s) 0 epoch'
        in (- errno, Suc n, a')) = Some (err, n', m) \<and>
      after_write rl (\<lambda>x. committed rl (snd x)) err (n', s\<lparr>global_epoch := m\<rparr>)"
    using next_e up(1) by (simp add: Let_def)
qed

lemma retire_path_reload:
  assumes rl: "reload_ok rl" and "a \<noteq> rl_gen rl"
  shows "achieves (\<lambda>x. committed rl (snd x))
    (clear_path_generation (rl_kern rl) (fd_path (rl_fds rl)) a)
    (\<lambda>_ x. committed rl (snd x))"
  unfolding clear_path_generation_def
proof (rule achieves_on_map)
  fix n :: nat and s assume x: "committed rl (snd (n, s))"
  then have "path_index.index.sound (path_policy_trie s)" by (simp add: committed_def)
  from path_index.index.staged_retire [OF reload_laws(1,15) [OF rl] this assms(2), of n]
  show "\<exists>err n' m. map_option (Pair 0) (clear_generation (fd_path (rl_fds rl))
        (k_path (rl_kern rl)) plk_generation a n (path_policy_trie s)) = Some (err, n', m) \<and>
      committed rl (snd (n', s\<lparr>path_policy_trie := m\<rparr>))"
    using x by (fastforce simp: commit_frame)
qed

lemma retire_command_reload:
  assumes rl: "reload_ok rl" and "a \<noteq> rl_gen rl"
  shows "achieves (\<lambda>x. committed rl (snd x))
    (clear_command_generation (rl_kern rl) (fd_command (rl_fds rl)) a)
    (\<lambda>_ x. committed rl (snd x))"
  unfolding clear_command_generation_def
proof (rule achieves_on_map)
  fix n :: nat and s assume x: "committed rl (snd (n, s))"
  then have "command_index.index.sound (command_policy_trie s)" by (simp add: committed_def)
  from command_index.index.staged_retire [OF reload_laws(2,16) [OF rl] this assms(2), of n]
  show "\<exists>err n' m. map_option (Pair 0) (clear_generation (fd_command (rl_fds rl))
        (k_command (rl_kern rl)) clk_generation a n (command_policy_trie s)) = Some (err, n', m) \<and>
      committed rl (snd (n', s\<lparr>command_policy_trie := m\<rparr>))"
    using x by (fastforce simp: commit_frame)
qed

lemma retire_network_reload:
  assumes rl: "reload_ok rl" and "a \<noteq> rl_gen rl"
  shows "achieves (\<lambda>x. committed rl (snd x))
    (clear_network_generation (rl_kern rl) (fd_network (rl_fds rl)) a)
    (\<lambda>_ x. committed rl (snd x))"
  unfolding clear_network_generation_def
proof (rule achieves_on_map)
  fix n :: nat and s assume x: "committed rl (snd (n, s))"
  then have "network_index.index.sound (network_policy_trie s)" by (simp add: committed_def)
  from network_index.index.staged_retire [OF reload_laws(3,17) [OF rl] this assms(2), of n]
  show "\<exists>err n' m. map_option (Pair 0) (clear_generation (fd_network (rl_fds rl))
        (k_network (rl_kern rl)) nlk_generation a n (network_policy_trie s)) = Some (err, n', m) \<and>
      committed rl (snd (n', s\<lparr>network_policy_trie := m\<rparr>))"
    using x by (fastforce simp: commit_frame)
qed

lemma retire_resource_reload:
  assumes rl: "reload_ok rl" and "a \<noteq> rl_gen rl"
  shows "achieves (\<lambda>x. committed rl (snd x))
    (clear_resource_generation (rl_kern rl) (fd_resource (rl_fds rl)) a)
    (\<lambda>_ x. committed rl (snd x))"
  unfolding clear_resource_generation_def
proof (rule achieves_on_map)
  fix n :: nat and s assume x: "committed rl (snd (n, s))"
  then have "resource_index.sound (resource_policy_hash s)" by (simp add: committed_def)
  from resource_index.staged_retire [OF reload_laws(4,18) [OF rl] this assms(2), of n]
  show "\<exists>err n' m. map_option (Pair 0) (clear_generation (fd_resource (rl_fds rl))
        (k_resource (rl_kern rl)) rpk_generation a n (resource_policy_hash s)) = Some (err, n', m) \<and>
      committed rl (snd (n', s\<lparr>resource_policy_hash := m\<rparr>))"
    using x by (fastforce simp: commit_frame)
qed

lemma retire_reload:
  assumes rl: "reload_ok rl"
  shows "achieves (\<lambda>x. committed rl (snd x))
    (retire_generation (rl_kern rl) (rl_fds rl) (rl_snap rl) (rl_config rl))
    (\<lambda>err x. err = 0 \<and> committed rl (snd x))"
proof -
  let ?a = "cfg_active_generation (snap_config (rl_snap rl))"
  have old: "?a \<noteq> rl_gen rl" "snap_have_config (rl_snap rl)"
    using rl by (simp_all add: reload_ok_def snapshot_of_def)
  have "achieves (\<lambda>x. committed rl (snd x)) (clear_generations (rl_kern rl) (rl_fds rl) ?a)
    (\<lambda>err x. err = 0 \<and> committed rl (snd x))"
    unfolding clear_generations_def
    by (intro achieves_regardless [OF retire_path_reload [OF rl old(1)]]
        achieves_regardless [OF retire_command_reload [OF rl old(1)]]
        achieves_regardless [OF retire_network_reload [OF rl old(1)]]
        achieves_regardless [OF retire_resource_reload [OF rl old(1)]] achieves_skip) simp
  then show ?thesis using old by (simp add: retire_generation_def)
qed

section \<open>The whole reload\<close>

definition outcome :: "reload \<Rightarrow> c_int \<Rightarrow> loader \<Rightarrow> bool" where
  "outcome rl err y \<longleftrightarrow> (if err = 0 then committed rl (snd y) else undoing rl 9 y)"

lemma attempt_clear:
  assumes "achieves P a (\<lambda>err y. err = 0 \<and> R y)" and "achieves R b Q"
  shows "achieves P (attempt a undo b) Q"
proof (rule achieves_attempt [OF assms(1)])
  show "achieves (\<lambda>y. err = 0 \<and> R y) undo (\<lambda>_. Q err)" if "err \<noteq> 0" for err
    using that by (simp add: achieves_def)
  show "achieves (\<lambda>y. (0 :: c_int) = 0 \<and> R y) b Q"
    using assms(2) by (rule achieves_mono) simp_all
qed

lemma attempt_write:
  assumes "achieves P a (after_write rl R)" and "achieves (failed rl) undo (\<lambda>_. undoing rl 9)"
    and "achieves R b (outcome rl)"
  shows "achieves P (attempt a undo b) (outcome rl)"
proof (rule achieves_attempt [OF assms(1)])
  show "achieves (after_write rl R err) undo (\<lambda>_. outcome rl err)" if "err \<noteq> 0" for err
    using assms(2) by (rule achieves_mono) (use that in \<open>simp_all add: after_write_def outcome_def\<close>)
  show "achieves (after_write rl R 0) b (outcome rl)"
    using assms(3) by (rule achieves_mono) (simp_all add: after_write_def)
qed

lemma undo_clears:
  assumes "reload_ok rl"
  shows "achieves (failed rl) (clear_path_generation (rl_kern rl) (fd_path (rl_fds rl)) (rl_gen rl))
      (\<lambda>_. failed rl)"
    "achieves (failed rl) (clear_command_generation (rl_kern rl) (fd_command (rl_fds rl)) (rl_gen rl))
      (\<lambda>_. failed rl)"
    "achieves (failed rl) (clear_network_generation (rl_kern rl) (fd_network (rl_fds rl)) (rl_gen rl))
      (\<lambda>_. failed rl)"
    "achieves (failed rl) (clear_resource_generation (rl_kern rl) (fd_resource (rl_fds rl)) (rl_gen rl))
      (\<lambda>_. failed rl)"
  by (rule achieves_mono [OF clear_path_reload [OF assms, of True Old Old Old Old]]
      achieves_mono [OF clear_command_reload [OF assms, of True Old Old Old Old]]
      achieves_mono [OF clear_network_reload [OF assms, of True Old Old Old Old]]
      achieves_mono [OF clear_resource_reload [OF assms, of True Old Old Old Old]];
      auto dest: progress_failed)+

lemma publish_reload:
  assumes rl: "reload_ok rl"
  shows "achieves (staged_all rl)
    (publish_policy (rl_kern rl) (rl_fds rl) (rl_snap rl) (rl_rules rl) (rl_scope rl) (rl_config rl))
    (outcome rl)"
proof -
  have undo: "achieves (failed rl)
    (regardless (clear_generations (rl_kern rl) (rl_fds rl) (rl_gen rl))
      (restore_policy_maps (rl_kern rl) (rl_fds rl) (rl_snap rl))) (\<lambda>_. undoing rl 9)"
    unfolding clear_generations_def
    by (intro achieves_regardless [OF _ restore_reload [OF rl]]
        achieves_regardless [OF undo_clears(1) [OF rl]]
        achieves_regardless [OF undo_clears(2) [OF rl]]
        achieves_regardless [OF undo_clears(3) [OF rl]]
        achieves_regardless [OF undo_clears(4) [OF rl]] achieves_skip)
  have retire: "achieves (\<lambda>x. committed rl (snd x))
    (retire_generation (rl_kern rl) (rl_fds rl) (rl_snap rl) (rl_config rl)) (outcome rl)"
    by (rule achieves_mono [OF retire_reload [OF rl]]) (simp_all add: outcome_def)
  show ?thesis
    unfolding publish_policy_def Let_def
    by (intro attempt_write [OF write_rules_reload [OF rl] undo]
        attempt_write [OF write_scope_reload [OF rl] undo]
        attempt_write [OF write_config_reload [OF rl] undo]
        attempt_write [OF bump_epoch_reload [OF rl] restore_reload [OF rl]] retire)
qed

lemma write_policy_reload:
  assumes rl: "reload_ok rl"
  shows "achieves (progress_at rl False (Old, Old, Old, Old))
    (write_policy (rl_kern rl) (rl_fds rl) (rl_snap rl) (rl_rules rl) (rl_scope rl) (rl_config rl))
    (outcome rl)"
proof -
  note undo = achieves_regardless [OF undo_clears(1) [OF rl]]
    achieves_regardless [OF undo_clears(2) [OF rl]]
    achieves_regardless [OF undo_clears(3) [OF rl]]
    achieves_regardless [OF undo_clears(4) [OF rl]] restore_reload [OF rl]
  show ?thesis
    unfolding write_policy_def Let_def
    by (intro attempt_clear [OF clear_path_reload [OF rl]]
        attempt_clear [OF clear_command_reload [OF rl]]
        attempt_clear [OF clear_network_reload [OF rl]]
        attempt_clear [OF clear_resource_reload [OF rl]]
        attempt_write [OF write_path_reload [OF rl]]
        attempt_write [OF write_command_reload [OF rl]]
        attempt_write [OF write_network_reload [OF rl]]
        attempt_write [OF write_resource_reload [OF rl]] publish_reload [OF rl] undo)
qed

end
