(* ===== verification/Atomic_Reload.thy ===== *)
theory Atomic_Reload
  imports Reload
begin

text \<open>
  \<open>mcp_policy_load_dir\<close> as a whole, from its snapshot to its result: \<open>load_dir_cases\<close> says that it
  returns and has either put the files' policy in place (\<open>new_policy\<close>) or left every index with the
  same entries for the generation in use (\<open>same_policy\<close>); and what \<open>same_policy\<close> means for the
  guard.
\<close>

section \<open>The snapshot\<close>

lemma bind_result_simps [simp]:
  "bind_result None f = None" "bind_result (Some (Inl e)) f = Some (Inl e)"
  "bind_result (Some (Inr v)) f = f v"
  by (simp_all add: bind_result_def)

definition sizes_ok :: "bpf_state \<Rightarrow> bool" where
  "sizes_ok s \<longleftrightarrow>
     length (path_policy_trie s) \<le> MCP_GUARD_MAX_RULES \<and>
     length (command_policy_trie s) \<le> MCP_GUARD_MAX_RULES \<and>
     length (network_policy_trie s) \<le> MCP_GUARD_MAX_RULES \<and>
     length (resource_policy_hash s) \<le> MCP_GUARD_MAX_RULES \<and>
     length (scope_comm s) \<le> MCP_GUARD_MAX_SCOPES \<and>
     length (scope_pid s) \<le> MCP_GUARD_MAX_SCOPES \<and>
     length (scope_tgid s) \<le> MCP_GUARD_MAX_SCOPES"

lemma snapshot_ends:
  assumes kern: "kernel_law fault kern" and fds: "fds_ok fds" and maps: "policy_maps_ok s"
  shows "\<exists>snap. snapshot_policy_maps kern fds n s =
    Some (if sizes_ok s then Inr snap else Inl (- 28)) \<and> (sizes_ok s \<longrightarrow> snapshot_of s snap)"
proof -
  have ok: "entries_ok (same_lpm plk_prefixlen path_key_bits) (path_policy_trie s)"
    "entries_ok (same_lpm clk_prefixlen command_key_bits) (command_policy_trie s)"
    "entries_ok (same_lpm nlk_prefixlen network_key_bits) (network_policy_trie s)"
    "entries_ok (=) (resource_policy_hash s)" "entries_ok (=) (scope_comm s)"
    "entries_ok (=) (scope_pid s)" "entries_ok (=) (scope_tgid s)"
    using maps by (simp_all add: policy_maps_ok_def path_index.index.sound_def
        command_index.index.sound_def network_index.index.sound_def resource_index.sound_def)
  obtain cfg where cfg: "policy_config s 0 = Some cfg"
    using maps by (metis domD insertI1 policy_maps_ok_def)
  have rules: "snapshot_rules (fd_rules fds) s =
      Inr (map (\<lambda>i. the (policy_rules s (of_nat i))) [0..<32])"
  proof -
    have "policy_rules s (of_nat i) \<noteq> None" if "i < 32" for i
      using maps that by (auto simp: policy_maps_ok_def simp flip: domIff)
    then have "(case policy_rules s (of_nat i) of None \<Rightarrow> zero_rule | Some r \<Rightarrow> r) =
        the (policy_rules s (of_nat i))" if "i < 32" for i
      using that by fastforce
    then show ?thesis using fds by (simp add: snapshot_rules_def fds_ok_def)
  qed
  have config: "snapshot_config (fd_config fds) s = Inr (cfg, True)"
    using fds cfg by (simp add: snapshot_config_def fds_ok_def)
  have fd: "0 \<le> fd_path fds" "0 \<le> fd_command fds" "0 \<le> fd_network fds" "0 \<le> fd_resource fds"
    "0 \<le> fd_comm fds" "0 \<le> fd_pid fds" "0 \<le> fd_tgid fds"
    using fds by (simp_all add: fds_ok_def)
  note laws = kernel_laws [OF kern]
  note ends = snapshot_map_ends [OF laws(1) ok(1) fd(1)] snapshot_map_ends [OF laws(2) ok(2) fd(2)]
    snapshot_map_ends [OF laws(3) ok(3) fd(3)] snapshot_map_ends [OF laws(4) ok(4) fd(4)]
    snapshot_map_ends [OF laws(5) ok(5) fd(5)] snapshot_map_ends [OF laws(6) ok(6) fd(6)]
    snapshot_map_ends [OF laws(7) ok(7) fd(7)]
  show ?thesis
    unfolding snapshot_policy_maps_def rules config snapshot_path_trie_def
      snapshot_command_trie_def snapshot_network_trie_def snapshot_resource_hash_def
      snapshot_comm_scopes_def snapshot_id_scopes_def ends sizes_ok_def
    by (auto simp: snapshot_of_def cfg)
qed

lemma next_generation_fresh:
  "snap_have_config snap \<Longrightarrow> next_generation snap \<noteq> 0 \<and>
   next_generation snap \<noteq> cfg_active_generation (snap_config snap)"
  by (auto simp: next_generation_def Let_def)

section \<open>The cases of a reload\<close>

definition same_policy :: "bpf_state \<Rightarrow> bpf_state \<Rightarrow> bool" where
  "same_policy s0 s \<longleftrightarrow>
     s = s0 \<or>
     (\<exists>rl y. reload_ok rl \<and> rl_start rl = s0 \<and> undoing rl 9 y \<and> snd y = s)"

definition new_policy ::
  "file_system \<Rightarrow> string \<Rightarrow> bpf_state \<Rightarrow> mcp_policy_load_result \<Rightarrow> bpf_state \<Rightarrow> bool" where
  "new_policy fs dir s0 res s \<longleftrightarrow>
     (\<exists>rl config0. reload_ok rl \<and> rl_start rl = s0 \<and> committed rl s \<and>
        read_policy_dir fs dir = Inr (config0, rl_scope rl, rl_rules rl) \<and>
        rl_config rl = config0\<lparr>cfg_active_generation := next_generation (rl_snap rl)\<rparr> \<and>
        res = load_result (rl_config rl) (mcp_current_epoch s))"

text \<open>A directory that can be read and names a profile, and maps with room for its rules.\<close>

definition loadable :: "file_system \<Rightarrow> string \<Rightarrow> bpf_state \<Rightarrow> bool" where
  "loadable fs dir s \<longleftrightarrow>
     sizes_ok s \<and>
     (\<exists>config scope state. read_policy_dir fs dir = Inr (config, scope, state) \<and>
        cfg_profile_id config \<noteq> 0 \<and> cfg_agent_id config \<noteq> 0)"

lemma validate_generation:
  "validate_policy_state state (config\<lparr>cfg_active_generation := g\<rparr>) =
     validate_policy_state state config"
  by (simp add: validate_policy_state_def)

text \<open>Where a reload of a directory that reads well begins.\<close>

lemma reload_begins:
  assumes kern: "kernel_law fault kern" and fds: "fds_ok fds" and maps: "policy_maps_ok s"
    and snap: "snapshot_of s snap" and read: "read_policy_dir fs dir = Inr (config0, scope, state)"
  defines "rl \<equiv> \<lparr>rl_kern = kern, rl_fds = fds, rl_start = s, rl_snap = snap,
    rl_rules = state, rl_scope = scope,
    rl_config = config0\<lparr>cfg_active_generation := next_generation snap\<rparr>, rl_fault = fault\<rparr>"
  shows "reload_ok rl" "progress_at rl False (Old, Old, Old, Old) (n, s)"
proof -
  note read_ok = read_policy_ok [OF read]
  have have_config: "snap_have_config snap" using snap by (simp add: snapshot_of_def)
  show "reload_ok rl"
    using kern fds maps snap read_ok next_generation_fresh [OF have_config]
    by (auto simp: rl_def reload_ok_def scope_ok_def)
  have small: "card (visible gen g (set m)) \<le> 32" if "length m \<le> 32"
    for gen :: "'a \<Rightarrow> u32" and g and m :: "('a \<times> 'b) list"
    using card_mono [of "set m" "visible gen g (set m)"] card_length [of m] that
    by (auto simp: visible_def)
  show "progress_at rl False (Old, Old, Old, Old) (n, s)"
    using maps snap
    by (auto simp: reload_frame rl_def policy_maps_ok_def snapshot_of_def
        path_index.index.staged_refl command_index.index.staged_refl
        network_index.index.staged_refl resource_index.staged_refl path_index.index.sound_def
        command_index.index.sound_def network_index.index.sound_def resource_index.sound_def
        intro: small)
qed

lemma load_dir_cases:
  assumes kern: "kernel_law fault kern" and fds: "fds_ok fds" and maps: "policy_maps_ok s"
  shows "\<exists>r y. mcp_policy_load_dir kern fds fs dir (n, s) = Some (r, y) \<and>
    (case r of
       Inl err \<Rightarrow> same_policy s (snd y) \<and> (loadable fs dir s \<longrightarrow> fault < fst y)
     | Inr res \<Rightarrow> new_policy fs dir s res (snd y))"
proof -
  have fd: "\<not> (fd_rules fds < 0 \<or> fd_config fds < 0 \<or> fd_epoch fds < 0)"
    using fds by (simp add: fds_ok_def)
  show ?thesis
  proof (cases "read_policy_dir fs dir")
    case (Inl err)
    then show ?thesis using fd by (simp add: mcp_policy_load_dir_def same_policy_def loadable_def)
  next
    case (Inr parts)
    then obtain config0 scope state where read: "read_policy_dir fs dir = Inr (config0, scope, state)"
      by (cases parts) auto
    obtain snap where snap: "snapshot_policy_maps kern fds n s =
        Some (if sizes_ok s then Inr snap else Inl (- 28))" "sizes_ok s \<longrightarrow> snapshot_of s snap"
      using snapshot_ends [OF kern fds maps] by blast
    let ?config = "config0\<lparr>cfg_active_generation := next_generation snap\<rparr>"
    show ?thesis
    proof (cases "sizes_ok s \<and> validate_policy_state state ?config = 0")
      case False
      then have "\<not> loadable fs dir s"
        using read validation_result [OF read]
        by (auto simp: loadable_def validate_generation split: if_splits)
      then show ?thesis using fd read snap False
        by (cases "sizes_ok s") (simp_all add: mcp_policy_load_dir_def Let_def same_policy_def)
    next
      case True
      define rl where "rl = \<lparr>rl_kern = kern, rl_fds = fds, rl_start = s, rl_snap = snap,
        rl_rules = state, rl_scope = scope, rl_config = ?config, rl_fault = fault\<rparr>"
      from reload_begins [OF kern fds maps _ read] snap(2) True
      have rl: "reload_ok rl" "progress_at rl False (Old, Old, Old, Old) (n, s)"
        by (simp_all add: rl_def)
      from achievesD [OF write_policy_reload [OF rl(1)] rl(2)]
      obtain err y where w: "write_policy kern fds snap state scope ?config (n, s) = Some (err, y)"
        "outcome rl err y" by (auto simp: rl_def)
      have start: "rl_start rl = s" "rl_scope rl = scope" "rl_rules rl = state"
        "rl_config rl = ?config" "rl_snap rl = snap"
        by (simp_all add: rl_def)
      show ?thesis
      proof (cases "err = 0")
        case True
        with w(2) rl(1) start read have "new_policy fs dir s
            (load_result ?config (mcp_current_epoch (snd y))) (snd y)"
          unfolding new_policy_def outcome_def by (intro exI [of _ rl] exI [of _ config0]) simp
        then show ?thesis
          using fd read snap w(1) \<open>err = 0\<close> \<open>sizes_ok s \<and> _\<close>
          by (simp add: mcp_policy_load_dir_def Let_def)
      next
        case False
        with w(2) rl(1) start have "same_policy s (snd y)"
          unfolding same_policy_def outcome_def by (cases y) auto
        moreover have "fault < fst y"
          using w(2) False by (simp add: outcome_def undoing_def rl_def)
        ultimately have "same_policy s (snd y) \<and> fault < fst y" ..
        then show ?thesis
          using fd read snap w(1) False \<open>sizes_ok s \<and> _\<close>
          by (simp add: mcp_policy_load_dir_def Let_def)
      qed
    qed
  qed
qed

section \<open>Decisions depend on the active generation only\<close>

text \<open>Two states with one configuration whose indexes agree on its active generation.\<close>

definition agree_on :: "u32 \<Rightarrow> bpf_state \<Rightarrow> bpf_state \<Rightarrow> bool" where
  "agree_on g s s' \<longleftrightarrow>
     policy_config s' = policy_config s \<and>
     (\<exists>cfg. policy_config s MCP_GUARD_CONFIG_KEY = Some cfg \<and> cfg_active_generation cfg = g) \<and>
     path_index.index.sound (path_policy_trie s) \<and> path_index.index.sound (path_policy_trie s') \<and>
     command_index.index.sound (command_policy_trie s) \<and>
     command_index.index.sound (command_policy_trie s') \<and>
     network_index.index.sound (network_policy_trie s) \<and>
     network_index.index.sound (network_policy_trie s') \<and>
     resource_index.sound (resource_policy_hash s) \<and>
     resource_index.sound (resource_policy_hash s') \<and>
     visible plk_generation g (set (path_policy_trie s')) =
       visible plk_generation g (set (path_policy_trie s)) \<and>
     visible clk_generation g (set (command_policy_trie s')) =
       visible clk_generation g (set (command_policy_trie s)) \<and>
     visible nlk_generation g (set (network_policy_trie s')) =
       visible nlk_generation g (set (network_policy_trie s)) \<and>
     visible rpk_generation g (set (resource_policy_hash s')) =
       visible rpk_generation g (set (resource_policy_hash s))"

lemma agree_config:
  assumes "agree_on g s s'"
  shows "mcp_config s' = mcp_config s" "rules_config s' = rules_config s"
    "mcp_policy_default_action s' = mcp_policy_default_action s"
    "mcp_l2_policy_flags s' = mcp_l2_policy_flags s"
    "rules_config s = Some cfg \<Longrightarrow> cfg_active_generation cfg = g"
  using assms
  by (auto simp: agree_on_def mcp_config_def rules_config_def mcp_policy_default_action_def
      mcp_l2_policy_flags_def split: option.splits if_splits)

lemma map_of_visible:
  assumes "entries_ok (=) m" "entries_ok (=) m'"
    and "visible gen (gen k) (set m') = visible gen (gen k) (set m)"
  shows "map_of m' k = map_of m k"
proof -
  have d: "distinct (map fst m)" "distinct (map fst m')"
    using assms(1,2) by (auto simp: entries_ok_def distinct_map inj_on_def)
  have "(k, v) \<in> set m' \<longleftrightarrow> (k, v) \<in> set m" for v
    using assms(3) by (auto simp: visible_def set_eq_iff)
  then show ?thesis using d
    by (metis map_of_eq_None_iff map_of_eq_Some_iff not_Some_eq)
qed

lemma agree_lookup:
  assumes h: "tries_law h" and agree: "agree_on g s s'"
  shows "plk_generation pq = g \<Longrightarrow>
      h_path_lookup h (path_policy_trie s') pq = h_path_lookup h (path_policy_trie s) pq"
    "clk_generation cq = g \<Longrightarrow>
      h_command_lookup h (command_policy_trie s') cq =
      h_command_lookup h (command_policy_trie s) cq"
    "nlk_generation nq = g \<Longrightarrow>
      h_network_lookup h (network_policy_trie s') nq =
      h_network_lookup h (network_policy_trie s) nq"
    "rpk_generation rk = g \<Longrightarrow>
      map_of (resource_policy_hash s') rk = map_of (resource_policy_hash s) rk"
proof -
  note path_law = h [unfolded tries_law_def, THEN conjunct1]
    and command_law = h [unfolded tries_law_def, THEN conjunct2, THEN conjunct1]
    and network_law = h [unfolded tries_law_def, THEN conjunct2, THEN conjunct2]
  show "h_path_lookup h (path_policy_trie s') pq = h_path_lookup h (path_policy_trie s) pq"
    if "plk_generation pq = g"
    by (rule path_index.lookup_visible [OF path_law])
      (use agree that in \<open>auto simp: agree_on_def path_index.index.sound_def\<close>)
  show "h_command_lookup h (command_policy_trie s') cq =
      h_command_lookup h (command_policy_trie s) cq" if "clk_generation cq = g"
    by (rule command_index.lookup_visible [OF command_law])
      (use agree that in \<open>auto simp: agree_on_def command_index.index.sound_def\<close>)
  show "h_network_lookup h (network_policy_trie s') nq =
      h_network_lookup h (network_policy_trie s) nq" if "nlk_generation nq = g"
    by (rule network_index.lookup_visible [OF network_law])
      (use agree that in \<open>auto simp: agree_on_def network_index.index.sound_def\<close>)
  show "map_of (resource_policy_hash s') rk = map_of (resource_policy_hash s) rk"
    if "rpk_generation rk = g"
    by (rule map_of_visible [where gen = rpk_generation])
      (use agree that in \<open>auto simp: agree_on_def resource_index.sound_def\<close>)
qed

lemma agree_found:
  assumes h: "tries_law h" and agree: "agree_on g s s'"
  shows "path_found h hook_id p s' = path_found h hook_id p s"
    "command_found h hook_id p s' = command_found h hook_id p s"
    "network_found h addr port s' = network_found h addr port s"
    "resource_found ty hook_id rid s' = resource_found ty hook_id rid s"
  using agree_config(5) [OF agree] agree_lookup [OF h agree]
  by (auto simp: path_found_def command_found_def network_found_def resource_found_def
      agree_config [OF agree] network_rule_def path_query_def command_query_def
      network_query_def split: option.split)

lemma agree_verdict:
  assumes h: "tries_law h" and agree: "agree_on g s s'"
  shows "policy_verdict h req s' = policy_verdict h req s"
proof -
  have "policy_decision rule s' = policy_decision rule s" for rule
    by (simp add: policy_decision_def agree_config(3) [OF agree] split: option.split)
  moreover have "mcp_l2_file_decide s' f hook_id fl = mcp_l2_file_decide s f hook_id fl"
    for f hook_id fl
    unfolding mcp_l2_file_decide_def agree_config(4) [OF agree] ..
  then have "file_safe f hook_id s' = file_safe f hook_id s" for f hook_id
    by (simp add: file_safe_def)
  ultimately show ?thesis
    using agree_found [OF h agree]
    by (cases req)
      (simp_all add: command_rule_def path_rule_def socket_policy_def case_prod_beta
        split: option.split)
qed

section \<open>A failed reload\<close>

lemma same_scope:
  assumes "policy_config s' = policy_config s"
    and "entries_ok (=) (scope_comm s)" "entries_ok (=) (scope_comm s')"
    and "entries_ok (=) (scope_pid s)" "entries_ok (=) (scope_pid s')"
    and "entries_ok (=) (scope_tgid s)" "entries_ok (=) (scope_tgid s')"
    and "set (scope_comm s') = set (scope_comm s)" "set (scope_pid s') = set (scope_pid s)"
    and "set (scope_tgid s') = set (scope_tgid s)"
  shows "mcp_scope_matches tk s' = mcp_scope_matches tk s"
proof -
  have "mcp_config s' = mcp_config s" using assms(1) by (simp add: mcp_config_def)
  moreover have "map_of (scope_comm s') k = map_of (scope_comm s) k" for k
    by (rule map_of_visible [OF assms(2,3), of "\<lambda>_. 0"]) (simp add: assms(8) visible_def)
  moreover have "map_of (scope_pid s') k = map_of (scope_pid s) k" for k
    by (rule map_of_visible [OF assms(4,5), of "\<lambda>_. 0"]) (simp add: assms(9) visible_def)
  moreover have "map_of (scope_tgid s') k = map_of (scope_tgid s) k" for k
    by (rule map_of_visible [OF assms(6,7), of "\<lambda>_. 0"]) (simp add: assms(10) visible_def)
  ultimately show ?thesis
    unfolding mcp_scope_matches_def by (simp cong: option.case_cong)
qed

lemma policy_writeI:
  assumes "other_maps s' = other_maps s" and "global_epoch s' = global_epoch s"
  shows "policy_write s s'"
  unfolding policy_write_def
  by (rule exI [of _ "policy_config s'"], rule exI [of _ "policy_rules s'"],
      rule exI [of _ "scope_comm s'"], rule exI [of _ "scope_pid s'"],
      rule exI [of _ "scope_tgid s'"], rule exI [of _ "path_policy_trie s'"],
      rule exI [of _ "command_policy_trie s'"], rule exI [of _ "network_policy_trie s'"],
      rule exI [of _ "resource_policy_hash s'"])
    (use assms in \<open>simp add: other_maps_def\<close>)

lemma undone_agrees:
  assumes "reload_ok rl" and "undoing rl 9 (n, s)"
  shows "agree_on (cfg_active_generation (snap_config (rl_snap rl))) (rl_start rl) s"
proof -
  have other: "cfg_active_generation (snap_config (rl_snap rl)) \<noteq> rl_gen rl"
    using assms(1) by (simp add: reload_ok_def)
  note visible = path_index.index.staged_visible [OF _ other]
    command_index.index.staged_visible [OF _ other]
    network_index.index.staged_visible [OF _ other] resource_index.staged_visible [OF _ other]
  show ?thesis
    using assms visible
    by (auto simp: agree_on_def undoing_def reload_ok_def policy_maps_ok_def snapshot_of_def
        intro: path_index.index.staged_sound command_index.index.staged_sound
        network_index.index.staged_sound resource_index.staged_sound)
qed

lemma same_policy_facts:
  assumes "same_policy s s'" and "policy_maps_ok s"
  shows "policy_write s s'" "mcp_scope_matches tk s' = mcp_scope_matches tk s"
    "policy_config s' = policy_config s" "policy_rules s' = policy_rules s"
    "global_epoch s' = global_epoch s" "other_maps s' = other_maps s" "policy_maps_ok s'"
    "tries_law h \<Longrightarrow> policy_verdict h req s' = policy_verdict h req s"
proof -
  have "policy_write s s' \<and> mcp_scope_matches tk s' = mcp_scope_matches tk s \<and>
    policy_config s' = policy_config s \<and> policy_rules s' = policy_rules s \<and>
    global_epoch s' = global_epoch s \<and> other_maps s' = other_maps s \<and> policy_maps_ok s' \<and>
    (tries_law h \<longrightarrow> policy_verdict h req s' = policy_verdict h req s)"
  proof (cases "s' = s")
    case True
    then show ?thesis using assms(2) policy_writeI [of s s] by simp
  next
    case False
    then obtain rl n where rl: "reload_ok rl" "rl_start rl = s" "undoing rl 9 (n, s')"
      using assms(1) by (force simp: same_policy_def)
    have frame: "other_maps s' = other_maps s" "global_epoch s' = global_epoch s"
      "policy_config s' = policy_config s" "policy_rules s' = policy_rules s"
      using rl(2,3) by (simp_all add: undoing_def)
    note agree = undone_agrees [OF rl(1,3), unfolded rl(2)]
    have scope: "mcp_scope_matches tk s' = mcp_scope_matches tk s"
      by (rule same_scope)
        (use rl(2,3) assms(2) in \<open>simp_all add: undoing_def policy_maps_ok_def\<close>)
    have "policy_maps_ok s'"
      using rl(2,3) assms(2) agree frame
      by (simp add: undoing_def policy_maps_ok_def agree_on_def)
    then show ?thesis using frame scope agree_verdict [OF _ agree] policy_writeI by simp
  qed
  then show "policy_write s s'" "mcp_scope_matches tk s' = mcp_scope_matches tk s"
    "policy_config s' = policy_config s" "policy_rules s' = policy_rules s"
    "global_epoch s' = global_epoch s" "other_maps s' = other_maps s" "policy_maps_ok s'"
    "tries_law h \<Longrightarrow> policy_verdict h req s' = policy_verdict h req s"
    by blast+
qed

end
