(* ===== verification/Policy_Spec.thy ===== *)
theory Policy_Spec
  imports Atomic_Reload
begin

text \<open>
  The policy as its author reads it: a configuration and a list of rules, and for each request the
  decision they ask for (\<open>spec_verdict\<close>).  When the maps of the guard hold such a policy
  (\<open>in_force\<close>), the uncached decision of the guard is the specified one.
\<close>

section \<open>The specification\<close>

definition spec_default :: "mcp_policy_config \<Rightarrow> u32" where
  "spec_default config =
     (if mcp_guard_action_valid (cfg_default_action config) then cfg_default_action config
      else MCP_GUARD_ACTION_DENY)"

text \<open>The last rule for a resource id; 0 is no id.\<close>

definition resource_rule :: "u32 \<Rightarrow> u64 \<Rightarrow> mcp_policy_rule list \<Rightarrow> mcp_policy_rule option" where
  "resource_rule rule_type resource_id rules =
     (if resource_id = 0 then None
      else find (\<lambda>r. rule_rule_type r = rule_type \<and> rule_resource_id r = resource_id) (rev rules))"

text \<open>The rule for the smallest block of addresses, the exact port before any port.\<close>

definition block_rule :: "u32 \<Rightarrow> u32 \<Rightarrow> mcp_policy_rule list \<Rightarrow> mcp_policy_rule option" where
  "block_rule port addr rules = best_rule (network_covers (port, addr)) mask_length rules"

definition address_rule :: "u32 \<Rightarrow> u32 \<Rightarrow> mcp_policy_rule list \<Rightarrow> mcp_policy_rule option" where
  "address_rule port addr rules =
     (case block_rule port addr rules of None \<Rightarrow> block_rule 0 addr rules | Some r \<Rightarrow> Some r)"

fun spec_rule :: "mcp_policy_rule list \<Rightarrow> request \<Rightarrow> mcp_policy_rule option" where
  "spec_rule rules (Req_exec bprm) =
     longest_prefix_rule MCP_GUARD_RULE_COMMAND_PREFIX rules (exec_name bprm)"
| "spec_rule rules (Req_open f) =
     longest_prefix_rule MCP_GUARD_RULE_PATH_PREFIX rules (file_name f)"
| "spec_rule rules (Req_permission ctx) =
     resource_rule MCP_GUARD_RULE_PATH_PREFIX (mcp_file_resource_id (fst ctx)) rules"
| "spec_rule rules (Req_connect address) =
     (let (resource_id, family, addr, port) = mcp_socket_resource_id address
      in address_rule (ucast port) addr rules)"

text \<open>The classes that need no rule.\<close>

definition safe_class :: "u32 \<Rightarrow> kfile option \<Rightarrow> u32 \<Rightarrow> decision option" where
  "safe_class flags f hook_id =
     (if l2_safe_file flags f hook_id
      then Some (safe_decision MCP_GUARD_ACTION_ALLOW
        (if i_mode (the (f_inode (the f))) AND MCP_GUARD_S_IFMT = MCP_GUARD_S_IFDIR then 2 else 1))
      else None)"

fun spec_safe :: "u32 \<Rightarrow> request \<Rightarrow> decision option" where
  "spec_safe flags (Req_exec bprm) =
     (if exec_name bprm = [] then Some (safe_decision MCP_GUARD_ACTION_DENY 0) else None)"
| "spec_safe flags (Req_open f) = safe_class flags f MCP_GUARD_HOOK_FILE_OPEN"
| "spec_safe flags (Req_permission ctx) = safe_class flags (fst ctx) (permission_hook (snd ctx))"
| "spec_safe flags (Req_connect address) =
     (case address of
        Some a \<Rightarrow>
          if sa_family a = MCP_GUARD_AF_INET then None
          else Some (safe_decision MCP_GUARD_ACTION_ALLOW 0)
      | None \<Rightarrow> None)"

definition spec_verdict :: "mcp_policy_config \<Rightarrow> mcp_policy_rule list \<Rightarrow> request \<Rightarrow> decision" where
  "spec_verdict config rules req =
     (case spec_safe (cfg_flags config) req of
        Some d \<Rightarrow> d
      | None \<Rightarrow>
          let (action, rule_id) =
                (case spec_rule rules req of
                   None \<Rightarrow> (spec_default config, 0)
                 | Some r \<Rightarrow>
                     if live_rule (rule_enabled r) (rule_hook_mask r) (request_hook req)
                     then (rule_verdict (rule_action r), rule_rule_id r)
                     else (spec_default config, 0))
          in \<lparr>d_layer = MCP_GUARD_LAYER_L3, d_action = action, d_flags = 0, d_rule_id = rule_id,
              d_reason = (if rule_id \<noteq> 0 then MCP_GUARD_REASON_POLICY else MCP_GUARD_REASON_DEFAULT),
              d_event = (action \<noteq> MCP_GUARD_ACTION_ALLOW)\<rparr>)"

section \<open>Maps that hold a policy\<close>

definition in_force ::
  "mcp_policy_config \<Rightarrow> scope_load_state \<Rightarrow> mcp_policy_rule list \<Rightarrow> bpf_state \<Rightarrow> bool" where
  "in_force config scope rules s \<longleftrightarrow>
     policy_config s MCP_GUARD_CONFIG_KEY = Some config \<and>
     cfg_rule_count config = of_nat (length rules) \<and> length rules \<le> MCP_GUARD_MAX_RULES \<and>
     (\<forall>r \<in> set rules. rule_text r \<noteq> []) \<and>
     (\<forall>i < MCP_GUARD_MAX_RULES. policy_rules s (of_nat i) =
        Some (if i < length rules then rules ! i else zero_rule)) \<and>
     set (scope_comm s) = (\<lambda>k. (k, scope_value config MCP_GUARD_SCOPE_SELECTOR_COMM)) `
       set (sls_comm_keys scope) \<and>
     set (scope_pid s) = (\<lambda>k. (k, scope_value config MCP_GUARD_SCOPE_SELECTOR_PID)) `
       set (sls_pid_keys scope) \<and>
     set (scope_tgid s) = (\<lambda>k. (k, scope_value config MCP_GUARD_SCOPE_SELECTOR_TGID)) `
       set (sls_tgid_keys scope) \<and>
     path_index.trie.holds_rules (cfg_active_generation config) rules (path_policy_trie s) \<and>
     command_index.trie.holds_rules (cfg_active_generation config) rules (command_policy_trie s) \<and>
     network_index.holds_rules (cfg_active_generation config) rules (network_policy_trie s) \<and>
     entries_ok (=) (resource_policy_hash s) \<and>
     visible rpk_generation (cfg_active_generation config) (set (resource_policy_hash s)) =
       fold (put (=)) (entries_of (resource_entry (cfg_active_generation config)) rules) {}"

lemma put_map_of: "(k, v) \<in> fold (put (=)) es {} \<longleftrightarrow> map_of (rev es) k = Some v"
  by (induction es rule: rev_induct) (auto simp: put_def)

lemma entries_of_snoc:
  "entries_of entry (rs @ [r]) =
     entries_of entry rs @ (case entry r of Entry k v \<Rightarrow> [(k, v)] | _ \<Rightarrow> [])"
  by (simp add: entries_of_def split: write_step.split)

lemma resource_entries:
  assumes "rid \<noteq> 0"
  shows "map_of (rev (entries_of (resource_entry g) rs))
      \<lparr>rpk_generation = g, rpk_rule_type = ty, rpk_resource_id = rid\<rparr> =
    map_option indexed_value_from_rule (resource_rule ty rid rs)"
  using assms
  by (induction rs rule: rev_induct)
    (auto simp: entries_of_snoc resource_entry_def resource_rule_def entries_of_def)

lemma no_resource_entries:
  "map_of (rev (entries_of (resource_entry g) rs))
     \<lparr>rpk_generation = g, rpk_rule_type = ty, rpk_resource_id = 0\<rparr> = None"
  by (induction rs rule: rev_induct) (auto simp: entries_of_snoc resource_entry_def entries_of_def)

section \<open>The guard implements the specification\<close>

definition found_rule :: "u32 \<Rightarrow> mcp_policy_rule \<Rightarrow> (u32 \<times> u32 \<times> buffer) option" where
  "found_rule hook_id r =
     (if live_rule (rule_enabled r) (rule_hook_mask r) hook_id
      then Some (rule_rule_id r, rule_action r,
        snprintf_s (zeroed MCP_GUARD_RULE_NAME_LEN) MCP_GUARD_RULE_NAME_LEN (rule_name r))
      else None)"

lemma in_force_config:
  assumes "in_force config scope rules s"
  shows "mcp_config s = Some config"
    "rules_config s = (if rules = [] then None else Some config)"
    "mcp_policy_default_action s = spec_default config"
    "mcp_l2_policy_flags s = cfg_flags config"
proof -
  have "of_nat (length rules) = (0 :: u32) \<longleftrightarrow> rules = []"
  proof -
    have len: "length rules \<le> 32" using assms by (simp add: in_force_def)
    have "unat (of_nat (length rules) :: u32) = length rules"
      using len by (simp add: unat_of_nat take_bit_nat_eq_self)
    then have "of_nat (length rules) = (0 :: u32) \<longleftrightarrow> length rules = 0"
      by (simp add: unat_eq_zero [symmetric])
    then show ?thesis by simp
  qed
  then show "rules_config s = (if rules = [] then None else Some config)"
    using assms by (simp add: in_force_def rules_config_def mcp_config_def)
qed (use assms in \<open>simp_all add: in_force_def mcp_config_def mcp_policy_default_action_def
    spec_default_def mcp_l2_policy_flags_def\<close>)

lemma query_buffer:
  "NUL \<notin> set name \<Longrightarrow> copy_until_nul 192 (zeroed 192) (padded 256 name) = padded 192 name"
  by (simp add: copy_until_nul_zeroed cstr_padded padded_take)

lemma padded_head: "NUL \<notin> set name \<Longrightarrow> padded 256 name ! 0 = NUL \<longleftrightarrow> name = []"
  by (cases name) (auto simp: padded_def zeroed_def)

lemma longest_prefix_empty:
  "\<forall>r \<in> set rules. rule_text r \<noteq> [] \<Longrightarrow> longest_prefix_rule ty rules [] = None"
  by (auto simp: longest_prefix_rule_def best_rule_None rule_covers_def is_prefix_take)

lemma path_rule_spec:
  assumes h: "tries_law h" and s: "in_force config scope rules s" and name: "NUL \<notin> set name"
  shows "path_rule h hook_id name s =
    Option.bind (longest_prefix_rule MCP_GUARD_RULE_PATH_PREFIX rules name) (found_rule hook_id)"
proof (cases "rules = [] \<or> name = []")
  case True
  then have "longest_prefix_rule MCP_GUARD_RULE_PATH_PREFIX rules name = None"
    using s longest_prefix_empty by (auto simp: in_force_def longest_prefix_rule_def)
  moreover have "path_rule h hook_id name s = None"
    using True padded_head [OF name]
    by (auto simp: path_rule_def path_found_def in_force_config [OF s])
  ultimately show ?thesis by simp
next
  case False
  have law: "lpm_law plk_prefixlen path_key_bits (h_path_lookup h)"
    using h by (simp add: tries_law_def)
  have "path_index.trie.holds_rules (cfg_active_generation config) rules (path_policy_trie s)"
    using s by (simp add: in_force_def)
  from path_index.trie.lookup_best [OF law this, of name "path_query config (padded 256 name)"]
  have "h_path_lookup h (path_policy_trie s) (path_query config (padded 256 name)) =
      map_option path_value_from_rule (longest_prefix_rule MCP_GUARD_RULE_PATH_PREFIX rules name)"
    by (simp add: path_index.query_key_def path_query_def query_buffer [OF name]
        longest_prefix_rule_def best_rule_scale)
  then show ?thesis
    using False padded_head [OF name]
    by (simp add: path_rule_def path_found_def in_force_config [OF s] found_rule_def
        path_value_from_rule_def split: option.split)
qed

lemma indexed_rule_spec:
  "indexed_rule hook_id (map_option indexed_value_from_rule rule) =
     Option.bind rule (found_rule hook_id)"
  by (cases rule) (simp_all add: indexed_rule_def indexed_value_from_rule_def found_rule_def)

lemma command_rule_spec:
  assumes h: "tries_law h" and s: "in_force config scope rules s" and name: "NUL \<notin> set name"
  shows "command_rule h hook_id name s =
    Option.bind (longest_prefix_rule MCP_GUARD_RULE_COMMAND_PREFIX rules name) (found_rule hook_id)"
proof (cases "rules = [] \<or> name = []")
  case True
  then have "longest_prefix_rule MCP_GUARD_RULE_COMMAND_PREFIX rules name = None"
    using s longest_prefix_empty by (auto simp: in_force_def longest_prefix_rule_def)
  moreover have "command_rule h hook_id name s = None"
    using True padded_head [OF name]
    by (auto simp: command_rule_def command_found_def in_force_config [OF s])
  ultimately show ?thesis by simp
next
  case False
  have law: "lpm_law clk_prefixlen command_key_bits (h_command_lookup h)"
    using h by (simp add: tries_law_def)
  have "command_index.trie.holds_rules (cfg_active_generation config) rules (command_policy_trie s)"
    using s by (simp add: in_force_def)
  from command_index.trie.lookup_best
    [OF law this, of name "command_query config (padded 256 name)"]
  have "h_command_lookup h (command_policy_trie s) (command_query config (padded 256 name)) =
      map_option indexed_value_from_rule
        (longest_prefix_rule MCP_GUARD_RULE_COMMAND_PREFIX rules name)"
    by (simp add: command_index.query_key_def command_query_def query_buffer [OF name]
        longest_prefix_rule_def best_rule_scale)
  then show ?thesis
    using False padded_head [OF name]
    by (simp add: command_rule_def command_found_def in_force_config [OF s] indexed_rule_spec)
qed

lemma network_found_spec:
  assumes h: "tries_law h" and s: "in_force config scope rules s"
  shows "network_found h addr port s =
    Option.bind (address_rule (ucast port) addr rules) (found_rule MCP_GUARD_HOOK_SOCKET_CONNECT)"
proof (cases "rules = []")
  case True
  then show ?thesis
    by (simp add: network_found_def in_force_config [OF s] address_rule_def block_rule_def)
next
  case False
  have law: "lpm_law nlk_prefixlen network_key_bits (h_network_lookup h)"
    using h by (simp add: tries_law_def)
  have holds: "network_index.holds_rules (cfg_active_generation config) rules (network_policy_trie s)"
    using s by (simp add: in_force_def)
  have block: "h_network_lookup h (network_policy_trie s)
      \<lparr>nlk_prefixlen = 96, nlk_generation = cfg_active_generation config, nlk_port = p,
       nlk_ipv4_addr = addr\<rparr> = map_option indexed_value_from_rule (block_rule p addr rules)" for p
    using network_index.lookup_best [OF law holds, of "(p, addr)"]
    by (simp add: network_query_key_def block_rule_def)
  have "network_rule h (network_policy_trie s) (network_query config addr port) =
      map_option indexed_value_from_rule (address_rule (ucast port) addr rules)"
    by (simp add: network_rule_def network_query_def block address_rule_def split: option.split)
  then show ?thesis
    using False by (simp add: network_found_def in_force_config [OF s] indexed_rule_spec)
qed

lemma resource_found_spec:
  assumes s: "in_force config scope rules s"
  shows "resource_found ty hook_id rid s =
    Option.bind (resource_rule ty rid rules) (found_rule hook_id)"
proof (cases "rules = []")
  case True
  then show ?thesis
    by (simp add: resource_found_def in_force_config [OF s] resource_rule_def)
next
  case False
  let ?g = "cfg_active_generation config"
  let ?key = "\<lparr>rpk_generation = ?g, rpk_rule_type = ty, rpk_resource_id = rid\<rparr>"
  have ok: "entries_ok (=) (resource_policy_hash s)"
    and vis: "visible rpk_generation ?g (set (resource_policy_hash s)) =
      fold (put (=)) (entries_of (resource_entry ?g) rules) {}"
    using s by (simp_all add: in_force_def)
  have "distinct (map fst (resource_policy_hash s))"
    using ok by (auto simp: entries_ok_def distinct_map inj_on_def)
  moreover have "(?key, v) \<in> set (resource_policy_hash s) \<longleftrightarrow>
      (?key, v) \<in> fold (put (=)) (entries_of (resource_entry ?g) rules) {}" for v
    using arg_cong [OF vis, of "\<lambda>S. (?key, v) \<in> S"] by (simp add: visible_def)
  ultimately have "map_of (resource_policy_hash s) ?key = Some v \<longleftrightarrow>
      map_of (rev (entries_of (resource_entry ?g) rules)) ?key = Some v" for v
    by (simp add: put_map_of)
  then have "map_of (resource_policy_hash s) ?key =
      map_of (rev (entries_of (resource_entry ?g) rules)) ?key"
    by (metis not_Some_eq)
  also have "\<dots> = map_option indexed_value_from_rule (resource_rule ty rid rules)"
    using resource_entries no_resource_entries
    by (cases "rid = 0") (simp_all add: resource_rule_def)
  finally show ?thesis
    using False by (simp add: resource_found_def in_force_config [OF s] indexed_rule_spec)
qed

lemma names_no_nul: "NUL \<notin> set (exec_name bprm)" "NUL \<notin> set (file_name f)"
  using cstr_no_nul
  by (auto simp: exec_name_def file_name_def split: option.splits dest: in_set_takeD)

lemma file_safe_spec: "file_safe f hook_id s = safe_class (mcp_l2_policy_flags s) f hook_id"
  by (auto simp: file_safe_def safe_class_def l2_safe_file_def mcp_l2_file_decide_def Let_def
      split: option.split)

lemma socket_safe_spec: "socket_safe address = spec_safe flags (Req_connect address)"
  by (simp add: socket_safe_def mcp_l2_socket_decide_def split: option.split)

lemma guard_implements_spec:
  assumes h: "tries_law h" and s: "in_force config scope rules s"
  shows "policy_verdict h req s = spec_verdict config rules req"
proof -
  have decide: "policy_decision (Option.bind rule (found_rule hook_id)) s =
      (let (action, rule_id) =
            (case rule of
               None \<Rightarrow> (spec_default config, 0)
             | Some r \<Rightarrow>
                 if live_rule (rule_enabled r) (rule_hook_mask r) hook_id
                 then (rule_verdict (rule_action r), rule_rule_id r)
                 else (spec_default config, 0))
      in \<lparr>d_layer = MCP_GUARD_LAYER_L3, d_action = action, d_flags = 0, d_rule_id = rule_id,
          d_reason = (if rule_id \<noteq> 0 then MCP_GUARD_REASON_POLICY else MCP_GUARD_REASON_DEFAULT),
          d_event = (action \<noteq> MCP_GUARD_ACTION_ALLOW)\<rparr>)" for rule hook_id
    by (simp add: policy_decision_def in_force_config(3) [OF s] found_rule_def
        split: option.split)
  note found = path_rule_spec [OF h s] command_rule_spec [OF h s] network_found_spec [OF h s]
    resource_found_spec [OF s]
  have safe: "file_safe f hook_id s = safe_class (cfg_flags config) f hook_id" for f hook_id
    by (simp add: file_safe_spec in_force_config(4) [OF s])
  show ?thesis
  proof (cases req)
    case (Req_exec bprm)
    then show ?thesis
      by (simp only: policy_verdict.simps spec_verdict_def spec_safe.simps spec_rule.simps
          request_hook.simps found names_no_nul decide not_False_eq_True split: if_split) simp
  next
    case (Req_open f)
    then show ?thesis
      by (simp only: policy_verdict.simps spec_verdict_def spec_safe.simps spec_rule.simps
          request_hook.simps found names_no_nul decide not_False_eq_True safe)
  next
    case (Req_permission ctx)
    then show ?thesis
      by (simp only: policy_verdict.simps spec_verdict_def spec_safe.simps spec_rule.simps
          request_hook.simps found decide safe)
  next
    case (Req_connect address)
    then show ?thesis
      by (simp only: policy_verdict.simps spec_verdict_def spec_rule.simps request_hook.simps
          socket_safe_spec [of address "cfg_flags config"] socket_policy_def found decide
          case_prod_beta Let_def)
  qed
qed

end
