(* ===== verification/List_Kernel.thy ===== *)
theory List_Kernel
  imports Atomic_Reload
begin

text \<open>
  A kernel that keeps the laws: its maps are lists, an update replaces the entry of the same name,
  a map at its limit refuses new entries, and the system calls whose numbers are \<open>faulty\<close> fail.  The
  properties of a reload are evaluated on it.
\<close>

fun key_after :: "'k \<Rightarrow> ('k \<times> 'v) list \<Rightarrow> 'k option" where
  "key_after k [] = None"
| "key_after k ((k', v) # m) =
     (if k = k' then (case m of [] \<Rightarrow> None | e # _ \<Rightarrow> Some (fst e)) else key_after k m)"

definition list_ops ::
  "nat \<Rightarrow> (nat \<Rightarrow> bool) \<Rightarrow> ('k \<Rightarrow> 'k \<Rightarrow> bool) \<Rightarrow> ('k, 'v) map_ops" where
  "list_ops limit faulty same =
     \<lparr>mo_update = (\<lambda>n m k v.
        let m' = (k, v) # filter (\<lambda>e. \<not> same k (fst e)) m in
        if faulty n then (5, m)
        else if limit < length m' then (28, m)
        else (0, m')),
      mo_delete = (\<lambda>n m k. (0, filter (\<lambda>e. fst e \<noteq> k) m)),
      mo_next = (\<lambda>n m key.
        case key of
          None \<Rightarrow> (case m of [] \<Rightarrow> None | e # _ \<Rightarrow> Some (fst e))
        | Some k \<Rightarrow> key_after k m),
      mo_lookup = map_of\<rparr>"

lemma entries_distinct:
  assumes "reflp same" and "entries_ok same m"
  shows "distinct (map fst m)"
  using assms by (fastforce simp: entries_ok_def distinct_map inj_on_def reflp_def)

lemma key_after_nth:
  "distinct (map fst m) \<Longrightarrow> i < length m \<Longrightarrow>
   key_after (fst (m ! i)) m = (if Suc i < length m then Some (fst (m ! Suc i)) else None)"
proof (induction m arbitrary: i)
  case Nil
  then show ?case by simp
next
  case (Cons e m)
  obtain k v where e: "e = (k, v)" by (cases e)
  show ?case
  proof (cases i)
    case 0
    then show ?thesis by (cases m) (auto simp: e)
  next
    case (Suc j)
    then have "fst (m ! j) \<noteq> k" using Cons.prems by (auto simp: e)
    then show ?thesis using Cons Suc by (simp add: e)
  qed
qed

lemma list_ops_law:
  fixes same :: "'k \<Rightarrow> 'k \<Rightarrow> bool"
  assumes "reflp same" and "symp same"
  shows "map_law same (list_ops limit faulty same :: ('k, 'v) map_ops)"
proof -
  have "update_law same (list_ops limit faulty same :: ('k, 'v) map_ops)"
    using assms
    by (auto simp: update_law_def list_ops_def Let_def entries_ok_def put_def reflp_def
        dest: sympD)
  moreover have "delete_law same (list_ops limit faulty same :: ('k, 'v) map_ops)"
    using assms(1) by (fastforce simp: delete_law_def list_ops_def entries_ok_def reflp_def)
  moreover have "next_law same (list_ops limit faulty same :: ('k, 'v) map_ops)"
    unfolding next_law_def
  proof (intro allI impI conjI)
    fix n and m :: "('k \<times> 'v) list" assume m: "entries_ok same m"
    show "mo_next (list_ops limit faulty same) n m None =
        (if m = [] then None else Some (fst (m ! 0)))"
      by (cases m) (simp_all add: list_ops_def)
    show "mo_next (list_ops limit faulty same) n m (Some (fst (m ! i))) =
        (if Suc i < length m then Some (fst (m ! Suc i)) else None)" if "i < length m" for i
      using key_after_nth [OF entries_distinct [OF assms(1) m] that] by (simp add: list_ops_def)
  qed
  moreover have "lookup_law same (list_ops limit faulty same :: ('k, 'v) map_ops)"
    using entries_distinct [OF assms(1)]
    by (auto simp: lookup_law_def list_ops_def intro: map_of_is_SomeI)
  ultimately show ?thesis by (simp add: map_law_def)
qed

lemma list_ops_room:
  fixes same :: "'k \<Rightarrow> 'k \<Rightarrow> bool"
  assumes "reflp same" and "\<forall>n. faulty n \<longrightarrow> n = fault"
  shows "room_law limit fault same (list_ops limit faulty same :: ('k, 'v) map_ops)"
proof -
  have "fst (mo_update (list_ops limit faulty same) n m k v) = 0"
    if "n \<noteq> fault" "entries_ok same m" "card (put same (k, v) (set m)) \<le> limit" for n m k and v :: 'v
  proof -
    have "distinct ((k, v) # filter (\<lambda>e. \<not> same k (fst e)) m)"
      using that(2) assms(1) by (auto simp: entries_ok_def reflp_def)
    moreover have "put same (k, v) (set m) = set ((k, v) # filter (\<lambda>e. \<not> same k (fst e)) m)"
      by (auto simp: put_def)
    ultimately have "length ((k, v) # filter (\<lambda>e. \<not> same k (fst e)) m) \<le> limit"
      using that(3) by (metis distinct_card)
    then show ?thesis using that(1) assms(2) by (auto simp: list_ops_def Let_def)
  qed
  then show ?thesis by (simp add: room_law_def)
qed

definition list_kernel :: "(nat \<Rightarrow> bool) \<Rightarrow> policy_kernel" where
  "list_kernel faulty =
     \<lparr>k_path = list_ops (MCP_GUARD_MAX_RULES * 2) faulty (same_lpm plk_prefixlen path_key_bits),
      k_command = list_ops (MCP_GUARD_MAX_RULES * 2) faulty (same_lpm clk_prefixlen command_key_bits),
      k_network = list_ops (MCP_GUARD_MAX_RULES * 2) faulty (same_lpm nlk_prefixlen network_key_bits),
      k_resource = list_ops (MCP_GUARD_MAX_RULES * 2) faulty (=),
      k_comm = list_ops MCP_GUARD_MAX_SCOPES faulty (=),
      k_pid = list_ops MCP_GUARD_MAX_SCOPES faulty (=),
      k_tgid = list_ops MCP_GUARD_MAX_SCOPES faulty (=),
      k_array = (\<lambda>n. if faulty n then 5 else 0)\<rparr>"

lemma same_lpm_equivalence: "reflp (same_lpm plen kbits)" "symp (same_lpm plen kbits)"
  by (auto simp: same_lpm_def reflp_def symp_def)

lemma list_kernel_law:
  assumes "\<forall>n. faulty n \<longrightarrow> n = fault"
  shows "kernel_law fault (list_kernel faulty)"
proof -
  have eq: "reflp ((=) :: 'a \<Rightarrow> 'a \<Rightarrow> bool)" "symp ((=) :: 'a \<Rightarrow> 'a \<Rightarrow> bool)"
    by (simp_all add: reflp_def symp_def)
  show ?thesis
    unfolding kernel_law_def list_kernel_def policy_kernel.simps
    by (intro conjI list_ops_law list_ops_room same_lpm_equivalence eq assms) (use assms in auto)
qed

definition sample_fds :: policy_fds where
  "sample_fds =
     \<lparr>fd_rules = 4, fd_path = 5, fd_command = 6, fd_network = 7, fd_resource = 8, fd_comm = 9,
      fd_pid = 10, fd_tgid = 11, fd_config = 12, fd_epoch = 13\<rparr>"

lemma sample_fds_ok: "fds_ok sample_fds"
  by (simp add: fds_ok_def sample_fds_def)

lemma dom_array_of: "dom (array_of n v) = {i. unat i < n}"
  by (auto simp: array_of_def dom_def)

lemma array_indexes:
  assumes "n < 2 ^ 32"
  shows "{i :: u32. unat i < n} = of_nat ` {..<n}"
proof
  show "{i :: u32. unat i < n} \<subseteq> of_nat ` {..<n}"
  proof
    fix i :: u32 assume "i \<in> {i. unat i < n}"
    then show "i \<in> of_nat ` {..<n}" by (intro image_eqI [of _ _ "unat i"]) simp_all
  qed
  show "of_nat ` {..<n} \<subseteq> {i :: u32. unat i < n}"
    using assms by (auto simp: unat_of_nat take_bit_nat_eq_self)
qed

lemma loaded_maps_ok: "policy_maps_ok loaded_maps" "sizes_ok loaded_maps"
proof -
  have "dom (policy_rules loaded_maps) = of_nat ` {..<MCP_GUARD_MAX_RULES}"
    using array_indexes [of 32] by (simp add: loaded_maps_def created_maps_def dom_array_of)
  moreover have "{i :: u32. unat i < 1} = {0}" by (auto simp: unat_eq_zero)
  ultimately show "policy_maps_ok loaded_maps"
    by (simp add: policy_maps_ok_def loaded_maps_def created_maps_def dom_array_of entries_ok_def
        path_index.index.sound_def command_index.index.sound_def network_index.index.sound_def
        resource_index.sound_def)
  show "sizes_ok loaded_maps" by (simp add: sizes_ok_def loaded_maps_def created_maps_def)
qed


text \<open>The sample directory can be loaded; with a fault in the first system call it is refused.\<close>

abbreviation healthy :: policy_kernel where
  "healthy \<equiv> list_kernel (\<lambda>n. False)"

abbreviation broken :: policy_kernel where
  "broken \<equiv> list_kernel (\<lambda>n. n = 0)"

lemma sample_loadable: "loadable sample_dir ''/p'' loaded_maps"
  unfolding loadable_def using sample_read loaded_maps_ok(2) by (auto simp: default_config_def)

lemma broken_fails:
  "\<exists>y. mcp_policy_load_dir broken sample_fds sample_dir ''/p'' (0, loaded_maps) = Some (Inl (- 5), y)"
proof -
  have "map_option fst (mcp_policy_load_dir broken sample_fds sample_dir ''/p'' (0, loaded_maps)) =
      Some (Inl (- 5))"
    by code_simp
  then show ?thesis by auto
qed

end
