(* ===== verification/Guarantees.thy ===== *)
theory Guarantees
  imports Policy_Spec List_Kernel
begin

text \<open>
  The promises of a policy reload: it ends, it is all or nothing, and after a success the guard
  decides exactly by the rules that were read, with no decision cached under the old policy left
  in use.
\<close>

section \<open>What a committed reload leaves\<close>

lemma loaded_rules_count:
  assumes "load_state_ok state"
  shows "length (loaded_rules state) = unat (pls_next_index state)"
    "i < unat (pls_next_index state) \<Longrightarrow> loaded_rules state ! i = pls_rules state ! i"
  using assms by (simp_all add: load_state_ok_def loaded_rules_def)

lemma loaded_text: "load_state_ok state \<Longrightarrow> r \<in> set (loaded_rules state) \<Longrightarrow> rule_text r \<noteq> []"
  by (erule (1) loaded_rule) (simp add: parsed_ok_def)

lemma committed_in_force:
  assumes state: "load_state_ok (rl_rules rl)"
    and count: "cfg_rule_count (rl_config rl) = pls_next_index (rl_rules rl)"
    and s: "committed rl s"
  shows "in_force (rl_config rl) (rl_scope rl) (loaded_rules (rl_rules rl)) s"
proof -
  note rules = loaded_rules_count [OF state]
  note entry = loaded_entries [OF state]
  have "unat (pls_next_index (rl_rules rl)) \<le> 32" using state by (simp add: load_state_ok_def)
  then show ?thesis
    using s entry loaded_text [OF state]
    by (auto simp: in_force_def commit_frame rules count path_index.trie.holds_rules_def
        command_index.trie.holds_rules_def network_index.holds_rules_def
        path_index.index.sound_def command_index.index.sound_def network_index.index.sound_def
        resource_index.sound_def)
qed

lemma new_policy_facts:
  assumes "new_policy fs dir s res s'"
  obtains rl config scope state where
    "read_policy_dir fs dir = Inr (config, scope, state)"
    "rl_start rl = s" "committed rl s'" "policy_maps_ok s"
    "rl_config rl = config\<lparr>cfg_active_generation := plr_active_generation res\<rparr>"
    "res = load_result (rl_config rl) (mcp_current_epoch s')"
    "in_force (config\<lparr>cfg_active_generation := plr_active_generation res\<rparr>) scope
       (loaded_rules state) s'"
    "plr_active_generation res \<noteq> 0"
    "\<forall>old. policy_config s MCP_GUARD_CONFIG_KEY = Some old \<longrightarrow>
       plr_active_generation res \<noteq> cfg_active_generation old"
proof -
  from assms obtain rl config where rl: "reload_ok rl" "rl_start rl = s" "committed rl s'"
    "read_policy_dir fs dir = Inr (config, rl_scope rl, rl_rules rl)"
    "rl_config rl = config\<lparr>cfg_active_generation := next_generation (rl_snap rl)\<rparr>"
    "res = load_result (rl_config rl) (mcp_current_epoch s')"
    by (auto simp: new_policy_def)
  have gen: "plr_active_generation res = next_generation (rl_snap rl)"
    by (simp add: rl(5,6) load_result_def)
  have have_config: "snap_have_config (rl_snap rl)"
    using rl(1) by (simp add: reload_ok_def snapshot_of_def)
  have count: "cfg_rule_count (rl_config rl) = pls_next_index (rl_rules rl)"
    using read_policy_ok [OF rl(4)] rl(5) by simp
  have "load_state_ok (rl_rules rl)" using read_policy_ok [OF rl(4)] by simp
  from committed_in_force [OF this count rl(3)]
  have force: "in_force (config\<lparr>cfg_active_generation := plr_active_generation res\<rparr>)
      (rl_scope rl) (loaded_rules (rl_rules rl)) s'"
    by (simp add: rl(5) gen)
  show thesis
    using that [OF rl(4,2,3) _ _ rl(6) force] rl(1,2,5) gen next_generation_fresh [OF have_config]
    by (auto simp: reload_ok_def snapshot_of_def)
qed

lemma load_success:
  assumes "kernel_law fault kern" and "fds_ok fds" and "policy_maps_ok s"
    and "mcp_policy_load_dir kern fds fs dir (n, s) = Some (Inr res, n', s')"
  shows "new_policy fs dir s res s'"
  using load_dir_cases [OF assms(1-3), of fs dir n] assms(4) by auto

lemma load_failure:
  assumes "kernel_law fault kern" and "fds_ok fds" and "policy_maps_ok s"
    and "mcp_policy_load_dir kern fds fs dir (n, s) = Some (Inl err, n', s')"
  shows "same_policy s s'"
  using load_dir_cases [OF assms(1-3), of fs dir n] assms(4) by auto

lemma load_total:
  assumes "kernel_law fault kern" and "fds_ok fds" and "policy_maps_ok s"
  shows "\<exists>r y. mcp_policy_load_dir kern fds fs dir (n, s) = Some (r, y)"
  using load_dir_cases [OF assms, of fs dir n] by blast

lemma load_possible:
  assumes kern: "\<forall>fault. kernel_law fault kern" and "fds_ok fds" and "policy_maps_ok s"
    and "loadable fs dir s"
  shows "\<exists>res y. mcp_policy_load_dir kern fds fs dir (n, s) = Some (Inr res, y)"
proof -
  obtain r y where load: "mcp_policy_load_dir kern fds fs dir (n, s) = Some (r, y)"
    using load_total [OF kern [rule_format, of 0] assms(2,3)] by blast
  show ?thesis
  proof (cases r)
    case (Inl err)
    have "fst y < fst y"
      using load_dir_cases [OF kern [rule_format, of "fst y"] assms(2,3), of fs dir n] assms(4)
        load Inl by auto
    then show ?thesis by simp
  next
    case (Inr res)
    then show ?thesis using load by blast
  qed
qed

lemma committed_write:
  assumes "committed rl s'" and "policy_maps_ok (rl_start rl)"
  shows "policy_write (rl_start rl) (s'\<lparr>global_epoch := global_epoch (rl_start rl)\<rparr>)"
    "epoch_bumped (s'\<lparr>global_epoch := global_epoch (rl_start rl)\<rparr>) = s'"
proof -
  show "policy_write (rl_start rl) (s'\<lparr>global_epoch := global_epoch (rl_start rl)\<rparr>)"
    by (rule policy_writeI) (use assms(1) in \<open>simp_all add: commit_frame\<close>)
  have "global_epoch s' = (global_epoch (rl_start rl))(MCP_GUARD_EPOCH_KEY \<mapsto>
      next_epoch (mcp_current_epoch (rl_start rl)))"
  proof -
    have "dom (global_epoch (rl_start rl)) = {MCP_GUARD_EPOCH_KEY}"
      using assms(2) by (simp add: policy_maps_ok_def)
    then have "global_epoch (rl_start rl) key = None" if "key \<noteq> MCP_GUARD_EPOCH_KEY" for key
      using that by (metis domIff singletonD)
    then show ?thesis using assms(1) by (auto simp: committed_def)
  qed
  then show "epoch_bumped (s'\<lparr>global_epoch := global_epoch (rl_start rl)\<rparr>) = s'"
    by (simp add: epoch_bumped_def mcp_current_epoch_def)
qed

lemmas healthy_law = list_kernel_law [of "\<lambda>n. False", simplified]
lemmas broken_law = list_kernel_law [of "\<lambda>n. n = 0" 0, simplified]

lemma healthy_load:
  obtains res n s where
    "mcp_policy_load_dir healthy sample_fds sample_dir ''/p'' (0, loaded_maps) =
       Some (Inr res, n, s)"
  using load_possible [OF _ sample_fds_ok loaded_maps_ok(1) sample_loadable, of healthy 0]
    healthy_law by auto

section \<open>Properties\<close>

text \<open>C13. A reload ends: with the kernel's maps in order and at most one failing system call,
  \<open>mcp_policy_load_dir\<close> returns, whatever the directory holds; none of its loops over the maps
  runs forever.\<close>

theorem reload_ends:
  assumes "kernel_law fault kern" and "fds_ok fds" and "policy_maps_ok s"
  shows "\<exists>r n' s'. mcp_policy_load_dir kern fds fs dir (n, s) = Some (r, n', s')"
  using load_total [OF assms, of fs dir n] by auto

theorem reload_ends_witness:
  "\<exists>r n' s'. mcp_policy_load_dir broken sample_fds sample_dir ''/p'' (0, loaded_maps) =
     Some (r, n', s')"
  using reload_ends [OF broken_law sample_fds_ok loaded_maps_ok(1)] .



text \<open>C12. A successful reload puts in force just what it read: afterwards the maps hold the
  configuration, the rules and the scopes of the files, under a generation that is neither 0 nor
  the old one, the epoch is the next one, and the result reports them.\<close>

theorem reload_commits:
  assumes "kernel_law fault kern" and "fds_ok fds" and "policy_maps_ok s"
    and "mcp_policy_load_dir kern fds fs dir (n, s) = Some (Inr res, n', s')"
  shows "\<exists>config scope state. read_policy_dir fs dir = Inr (config, scope, state) \<and>
    in_force (config\<lparr>cfg_active_generation := plr_active_generation res\<rparr>) scope
      (loaded_rules state) s' \<and>
    plr_active_generation res \<noteq> 0 \<and>
    (\<forall>old. policy_config s MCP_GUARD_CONFIG_KEY = Some old \<longrightarrow>
       plr_active_generation res \<noteq> cfg_active_generation old) \<and>
    mcp_current_epoch s' = next_epoch (mcp_current_epoch s) \<and>
    res = load_result (config\<lparr>cfg_active_generation := plr_active_generation res\<rparr>)
      (mcp_current_epoch s') \<and>
    other_maps s' = other_maps s"
proof -
  from load_success [OF assms] obtain rl config scope state where
    read: "read_policy_dir fs dir = Inr (config, scope, state)" and start: "rl_start rl = s"
    and written: "committed rl s'" and "policy_maps_ok s"
    and config: "rl_config rl = config\<lparr>cfg_active_generation := plr_active_generation res\<rparr>"
    and res: "res = load_result (rl_config rl) (mcp_current_epoch s')"
    and force: "in_force (config\<lparr>cfg_active_generation := plr_active_generation res\<rparr>) scope
       (loaded_rules state) s'"
    and gen: "plr_active_generation res \<noteq> 0"
      "\<forall>old. policy_config s MCP_GUARD_CONFIG_KEY = Some old \<longrightarrow>
         plr_active_generation res \<noteq> cfg_active_generation old"
    by (rule new_policy_facts) blast
  have frame: "mcp_current_epoch s' = next_epoch (mcp_current_epoch s)"
    "other_maps s' = other_maps s"
    using written start by (simp_all add: committed_def mcp_current_epoch_def)
  show ?thesis
    by (rule exI [of _ config], rule exI [of _ scope], rule exI [of _ state], intro conjI)
      (fact read force gen frame res [unfolded config])+
qed

theorem reload_commits_witness:
  "\<exists>res n' s'. mcp_policy_load_dir healthy sample_fds sample_dir ''/p'' (0, loaded_maps) =
       Some (Inr res, n', s') \<and>
     in_force (default_config\<lparr>cfg_rule_count := 1, cfg_active_generation := plr_active_generation res\<rparr>)
       empty_scope (loaded_rules sample_state) s' \<and>
     mcp_current_epoch s' = next_epoch (mcp_current_epoch loaded_maps)"
proof -
  obtain res n' s' where load:
    "mcp_policy_load_dir healthy sample_fds sample_dir ''/p'' (0, loaded_maps) =
       Some (Inr res, n', s')"
    by (rule healthy_load)
  from reload_commits [OF healthy_law sample_fds_ok loaded_maps_ok(1) load]
  have "in_force (default_config\<lparr>cfg_rule_count := 1,
        cfg_active_generation := plr_active_generation res\<rparr>) empty_scope
        (loaded_rules sample_state) s'"
      "mcp_current_epoch s' = next_epoch (mcp_current_epoch loaded_maps)"
    by (auto simp: sample_read)
  then show ?thesis using load by blast
qed

lemma spec_generation:
  "spec_verdict (config\<lparr>cfg_active_generation := g\<rparr>) rules req = spec_verdict config rules req"
proof -
  have "spec_default (config\<lparr>cfg_active_generation := g\<rparr>) = spec_default config"
    by (simp add: spec_default_def)
  then show ?thesis unfolding spec_verdict_def by (simp only:) simp
qed

lemma load_implements:
  assumes "new_policy fs dir s res s'" and "tries_law h"
    and "read_policy_dir fs dir = Inr (config, scope, state)"
  shows "policy_verdict h req s' = spec_verdict config (loaded_rules state) req"
proof -
  from assms(1) obtain config' scope' state' where
    "read_policy_dir fs dir = Inr (config', scope', state')"
    "in_force (config'\<lparr>cfg_active_generation := plr_active_generation res\<rparr>) scope'
       (loaded_rules state') s'"
    by (rule new_policy_facts) blast
  with guard_implements_spec [OF assms(2)] assms(3) show ?thesis
    by (simp add: spec_generation)
qed

text \<open>C3. The maps implement the rules: after a successful reload the guard's decision on any
  request, cache aside, is the one the rules of the files specify: the longest command or path
  prefix, the last rule for an inode, the smallest address block with the exact port first,
  else the default action.\<close>

theorem reload_implements_spec:
  assumes "kernel_law fault kern" and "fds_ok fds" and "policy_maps_ok s" and "tries_law h"
    and "mcp_policy_load_dir kern fds fs dir (n, s) = Some (Inr res, n', s')"
    and "read_policy_dir fs dir = Inr (config, scope, state)"
  shows "policy_verdict h req s' = spec_verdict config (loaded_rules state) req"
  using load_success [OF assms(1-3,5)] assms(4,6) by (rule load_implements)

definition root_file :: "kfile option" where
  "root_file = Some \<lparr>f_inode = Some \<lparr>i_ino = 99, i_mode = 0x81A4\<rparr>, f_path = ''/root/.ssh/id''\<rparr>"

lemma root_file_audited:
  "d_action (spec_verdict (default_config\<lparr>cfg_rule_count := 1\<rparr>) (loaded_rules sample_state)
     (Req_open root_file)) = MCP_GUARD_ACTION_AUDIT"
  by code_simp

theorem reload_implements_spec_witness:
  "\<exists>res n' s'. mcp_policy_load_dir healthy sample_fds sample_dir ''/p'' (0, loaded_maps) =
       Some (Inr res, n', s') \<and>
     d_action (policy_verdict reference_helpers (Req_open root_file) s') = MCP_GUARD_ACTION_AUDIT"
proof -
  obtain res n' s' where load:
    "mcp_policy_load_dir healthy sample_fds sample_dir ''/p'' (0, loaded_maps) =
       Some (Inr res, n', s')"
    by (rule healthy_load)
  from reload_implements_spec [OF healthy_law sample_fds_ok loaded_maps_ok(1)
      reference_tries_law load sample_read, of "Req_open root_file"]
  show ?thesis using load root_file_audited by metis
qed

text \<open>C14. A reload that can succeed does: a directory whose files are in order and name a profile
  and an agent is loaded, when no system call fails and no map holds more than it may.\<close>

theorem reload_succeeds:
  assumes "\<forall>fault. kernel_law fault kern" and "fds_ok fds" and "policy_maps_ok s" and "sizes_ok s"
    and "read_policy_dir fs dir = Inr (config, scope, state)"
    and "cfg_profile_id config \<noteq> 0" and "cfg_agent_id config \<noteq> 0"
  shows "\<exists>res n' s'. mcp_policy_load_dir kern fds fs dir (n, s) = Some (Inr res, n', s')"
proof -
  have "loadable fs dir s" using assms(4-7) by (auto simp: loadable_def)
  from load_possible [OF assms(1-3) this, of n] show ?thesis by auto
qed

theorem reload_succeeds_witness:
  "\<exists>res n' s'. mcp_policy_load_dir healthy sample_fds sample_dir ''/p'' (7, loaded_maps) =
     Some (Inr res, n', s')"
  using reload_succeeds [OF _ sample_fds_ok loaded_maps_ok sample_read] healthy_law
  by (simp add: default_config_def)

section \<open>Reloads of a running guard\<close>

lemma reload_reach:
  assumes "new_policy fs dir s res s'" and "guard_reach h n current s"
  shows "guard_reach h (Suc n) True s'"
  using assms(1)
proof (rule new_policy_facts)
  fix rl assume rl: "rl_start rl = s" "committed rl s'" "policy_maps_ok s"
  note w = committed_write [OF rl(2), unfolded rl(1), OF rl(3)]
  from bumped [OF written [OF assms(2) w(1)]] show ?thesis by (simp add: w(2))
qed

text \<open>Reloads leave no stale decision behind: a reload of a running guard leads to a state that
  writes and one epoch bump reach, with no write since, when it succeeds; when it fails, to
  a state that is as current as the one before.\<close>

theorem reload_keeps_reach:
  assumes "kernel_law fault kern" and "fds_ok fds" and "policy_maps_ok s" and "tries_law h"
    and "guard_reach h k current s"
    and "mcp_policy_load_dir kern fds fs dir (n, s) = Some (r, n', s')"
  shows "case r of Inl err \<Rightarrow> guard_reach h k current s' | Inr res \<Rightarrow> guard_reach h (Suc k) True s'"
proof (cases r)
  case (Inl err)
  note same = load_failure [OF assms(1-3) assms(6) [unfolded Inl]]
  from retired [OF assms(5) same_policy_facts(1) [OF same assms(3)]]
    same_policy_facts(8) [OF same assms(3,4)]
  show ?thesis by (simp add: Inl)
next
  case (Inr res)
  from reload_reach [OF load_success [OF assms(1-3) assms(6) [unfolded Inr]] assms(5)]
  show ?thesis by (simp add: Inr)
qed

lemma loaded_reach: "guard_reach h 0 True loaded_maps"
  by (rule booted [OF sample_boot])

theorem reload_keeps_reach_witness:
  "\<exists>res n' s'. mcp_policy_load_dir healthy sample_fds sample_dir ''/p'' (0, loaded_maps) =
       Some (Inr res, n', s') \<and> guard_reach reference_helpers 1 True s'"
proof -
  obtain res n' s' where load:
    "mcp_policy_load_dir healthy sample_fds sample_dir ''/p'' (0, loaded_maps) =
       Some (Inr res, n', s')"
    by (rule healthy_load)
  from reload_keeps_reach [OF healthy_law sample_fds_ok loaded_maps_ok(1) reference_tries_law
      loaded_reach load]
  show ?thesis using load by simp
qed

text \<open>End to end, from the rule files to the system call: on a running guard, right after a
  successful reload, \<^verbatim>\<open>connect\<close> of a task in scope returns what the network rules of the files say
  of the address, whatever earlier policies have left in the caches.\<close>

theorem reloaded_connects:
  assumes "kernel_law fault kern" and "fds_ok fds" and "policy_maps_ok s" and "tries_law h"
    and "strings_law h" and "lru_law (h_cache_update h)"
    and "guard_reach h k current s" and "Suc k < 2 ^ 64"
    and "mcp_policy_load_dir kern fds fs dir (n, s) = Some (Inr res, n', s')"
    and "read_policy_dir fs dir = Inr (config, scope, state)" and "mcp_scope_matches tk s'"
  shows "fst (run_socket_connect h tk address 0 s') =
    mcp_action_ret
      (d_action (spec_verdict config (loaded_rules state) (Req_connect address))) s'"
proof -
  note new = load_success [OF assms(1-3,9)]
  show ?thesis
    using reach_socket [OF assms(5,6) reload_reach [OF new assms(7)] assms(8,11), of address]
    by (simp only: load_implements [OF new assms(4,10)])
qed

lemma system_wide:
  assumes "policy_config s MCP_GUARD_CONFIG_KEY = Some config"
    and "cfg_scope_mode config = MCP_GUARD_SCOPE_SYSTEM_WIDE"
  shows "mcp_scope_matches tk s"
  using assms by (simp add: mcp_scope_matches_def mcp_config_def)

theorem reloaded_connects_witness:
  "\<exists>s'. fst (run_socket_connect reference_helpers sample_task sample_address 0 s') =
     mcp_action_ret (d_action (spec_verdict (default_config\<lparr>cfg_rule_count := 1\<rparr>)
       (loaded_rules sample_state) (Req_connect sample_address))) s'"
proof -
  obtain res n' s' where load:
    "mcp_policy_load_dir healthy sample_fds sample_dir ''/p'' (0, loaded_maps) =
       Some (Inr res, n', s')"
    by (rule healthy_load)
  from load_success [OF healthy_law sample_fds_ok loaded_maps_ok(1) load]
  obtain config scope state where "read_policy_dir sample_dir ''/p'' = Inr (config, scope, state)"
    "in_force (config\<lparr>cfg_active_generation := plr_active_generation res\<rparr>) scope
       (loaded_rules state) s'"
    by (rule new_policy_facts) blast
  then have "mcp_scope_matches sample_task s'"
    by (intro system_wide) (auto simp: sample_read in_force_def default_config_def)
  from reloaded_connects [OF healthy_law sample_fds_ok loaded_maps_ok(1) reference_tries_law
      reference_strings_law reference_lru_law loaded_reach _ load sample_read this]
  show ?thesis by auto
qed

end
