(* ===== verification/Baseline_Loader.thy ===== *)
theory Baseline_Loader
  imports Baseline Guarantees
begin

text \<open>
  The loader of the naive baseline, \<^verbatim>\<open>experiments/baselines/naive_ebpf_lsm/naive_guard_loader.c\<close>:
  it writes seven fixed rules into the maps, attaches the programs, waits, and prints the
  metrics.  After it the baseline decides every request by these rules (\<open>baseline_configured\<close>).

  The kernel's operations on the maps are those of the guard's loader (\<open>policy_kernel\<close>), and so is
  the count of calls.
\<close>

section \<open>Helpers of the loader\<close>

text \<open>\<open>getenv\<close> is a parameter.\<close>

definition env_u32 :: "(string \<Rightarrow> string option) \<Rightarrow> string \<Rightarrow> u32 \<Rightarrow> u32" where
  "env_u32 getenv name fallback =
     (case getenv name of
        None \<Rightarrow> fallback
      | Some val \<Rightarrow>
          if val = [] then fallback
          else
            let (errno, parsed, endp) = strtoul 0 val in
            if errno \<noteq> 0 \<or> endp \<noteq> [] then fallback else of_nat parsed)"

definition naive_path_resource_id :: "file_system \<Rightarrow> string \<Rightarrow> u64" where
  "naive_path_resource_id fs val = (case fs_stat fs val of None \<Rightarrow> 0 | Some ino \<Rightarrow> ino)"

definition naive_path_prefix_bits :: "string \<Rightarrow> u32" where
  "naive_path_prefix_bits path = 32 + of_nat (c_strnlen path MCP_GUARD_PATH_LPM_LEN) * 8"

definition naive_command_prefix_bits :: "string \<Rightarrow> u32" where
  "naive_command_prefix_bits command = 32 + of_nat (c_strnlen command MCP_GUARD_RULE_VALUE_LEN) * 8"

definition naive_ipv4_prefix_bits :: "u32 \<Rightarrow> u32" where
  "naive_ipv4_prefix_bits netmask = 32 + 32 + of_nat (leading_ones (bswap32 netmask) 32 0)"

definition naive_parse_ipv4_cidr :: "string \<Rightarrow> c_int + u32 \<times> u32" where
  "naive_parse_ipv4_cidr val =
     (let copy = take 63 (cstr val);
          (addr_text, prefix) =
            (case strchr copy (CHR ''/'') of
               None \<Rightarrow> (copy, 32)
             | Some slash \<Rightarrow> (take (length copy - length slash) copy, c_atoi (tl slash)))
      in
      if prefix < 0 \<or> 32 < prefix then Inl (- 22)
      else
        case inet_pton addr_text of
          None \<Rightarrow> Inl (- 22)
        | Some parsed \<Rightarrow>
            let host_mask =
                  (if prefix = 0 then 0 else push_bit (nat (32 - prefix)) (0xffffffff :: u32))
            in Inr (parsed, bswap32 host_mask))"

text \<open>\<^verbatim>\<open>"baseline-rule-%u"\<close>.\<close>

definition baseline_rule_name :: "u32 \<Rightarrow> buffer" where
  "baseline_rule_name rule_id =
     snprintf_s (zeroed MCP_GUARD_RULE_NAME_LEN) MCP_GUARD_RULE_NAME_LEN
       (''baseline-rule-'' @ decimal (unat rule_id))"

definition fill_indexed_value ::
  "u32 \<Rightarrow> u32 \<Rightarrow> u32 \<Rightarrow> string \<Rightarrow> u32 \<Rightarrow> u32 \<Rightarrow> u32 \<Rightarrow> u64 \<Rightarrow> mcp_indexed_policy_value" where
  "fill_indexed_value rule_id hook_mask action val port ipv4_addr ipv4_mask resource_id =
     \<lparr>ipv_enabled = 1, ipv_rule_id = rule_id, ipv_action = action, ipv_hook_mask = hook_mask,
      ipv_flags = 0, ipv_value_len = of_nat (c_strnlen val MCP_GUARD_RULE_VALUE_LEN),
      ipv_port = port, ipv_ipv4_addr = ipv4_addr, ipv_ipv4_mask = ipv4_mask,
      ipv_resource_id = resource_id, ipv_name = baseline_rule_name rule_id\<rparr>"

section \<open>Writing the rules\<close>

record naive_fds =
  nf_config :: c_int
  nf_path :: c_int
  nf_command :: c_int
  nf_network :: c_int
  nf_resource :: c_int

type_synonym naive_loader = "nat \<times> naive_state"
type_synonym naive_step = "naive_loader \<Rightarrow> c_int \<times> naive_loader"

text \<open>One \<^verbatim>\<open>bpf_map_update_elem\<close>, with \<^verbatim>\<open>-errno\<close> as its result.\<close>

definition naive_update ::
  "(naive_state \<Rightarrow> ('k \<times> 'v) list) \<Rightarrow>
   ((('k \<times> 'v) list \<Rightarrow> ('k \<times> 'v) list) \<Rightarrow> naive_state \<Rightarrow> naive_state) \<Rightarrow>
   c_int \<Rightarrow> ('k, 'v) map_ops \<Rightarrow> 'k \<Rightarrow> 'v \<Rightarrow> naive_step" where
  "naive_update sel upd fd ops k v x =
     (let (n, b) = x; (errno, m) = sys_update fd ops n (sel b) k v
      in (- errno, Suc n, upd (\<lambda>_. m) b))"

text \<open>\<^verbatim>\<open>if (err) return err;\<close>\<close>

definition and_on_success :: "naive_step \<Rightarrow> naive_step \<Rightarrow> naive_step" where
  "and_on_success a b x = (case a x of (err, y) \<Rightarrow> if err \<noteq> 0 then (err, y) else b y)"

definition put_command_rule :: "policy_kernel \<Rightarrow> c_int \<Rightarrow> u32 \<Rightarrow> string \<Rightarrow> naive_step" where
  "put_command_rule kern command_fd rule_id command =
     naive_update nv_command nv_command_update command_fd (k_command kern)
       \<lparr>clk_prefixlen = naive_command_prefix_bits command, clk_generation = 1,
        clk_command = snprintf_s (zeroed MCP_GUARD_RULE_VALUE_LEN) MCP_GUARD_RULE_VALUE_LEN command\<rparr>
       (fill_indexed_value rule_id (mcp_guard_hook_mask MCP_GUARD_HOOK_EXEC)
         MCP_GUARD_ACTION_DENY command 0 0 0 0)"

text \<open>\<^verbatim>\<open>memcpy\<close> of the text into the zeroed key.\<close>

definition put_path_rule ::
  "policy_kernel \<Rightarrow> file_system \<Rightarrow> c_int \<Rightarrow> c_int \<Rightarrow> u32 \<Rightarrow> string \<Rightarrow> naive_step" where
  "put_path_rule kern fs path_fd resource_fd rule_id path =
     (let resource_id = naive_path_resource_id fs path;
          hook_mask = mcp_guard_hook_mask MCP_GUARD_HOOK_FILE_OPEN OR
            mcp_guard_hook_mask MCP_GUARD_HOOK_FILE_READ OR
            mcp_guard_hook_mask MCP_GUARD_HOOK_FILE_WRITE
      in
      and_on_success
        (naive_update nv_path nv_path_update path_fd (k_path kern)
          \<lparr>plk_prefixlen = naive_path_prefix_bits path, plk_generation = 1,
           plk_path = padded MCP_GUARD_PATH_LPM_LEN (cstr path)\<rparr>
          \<lparr>ppv_enabled = 1, ppv_rule_id = rule_id, ppv_action = MCP_GUARD_ACTION_DENY,
           ppv_hook_mask = hook_mask, ppv_flags = 0,
           ppv_value_len = of_nat (c_strnlen path MCP_GUARD_RULE_VALUE_LEN),
           ppv_resource_id = resource_id, ppv_name = baseline_rule_name rule_id\<rparr>)
        (if resource_id \<noteq> 0
         then naive_update nv_resource nv_resource_update resource_fd (k_resource kern)
           \<lparr>rpk_generation = 1, rpk_rule_type = MCP_GUARD_RULE_PATH_PREFIX,
            rpk_resource_id = resource_id\<rparr>
           (fill_indexed_value rule_id hook_mask MCP_GUARD_ACTION_DENY path 0 0 0 resource_id)
         else Pair 0))"

definition put_network_rule ::
  "policy_kernel \<Rightarrow> c_int \<Rightarrow> u32 \<Rightarrow> string \<Rightarrow> u32 \<Rightarrow> naive_step" where
  "put_network_rule kern network_fd rule_id cidr port =
     (case naive_parse_ipv4_cidr cidr of
        Inl err \<Rightarrow> Pair err
      | Inr (ipv4_addr, ipv4_mask) \<Rightarrow>
          naive_update nv_network nv_network_update network_fd (k_network kern)
            \<lparr>nlk_prefixlen = naive_ipv4_prefix_bits ipv4_mask, nlk_generation = 1,
             nlk_port = port, nlk_ipv4_addr = ipv4_addr\<rparr>
            (fill_indexed_value rule_id (mcp_guard_hook_mask MCP_GUARD_HOOK_SOCKET_CONNECT)
              MCP_GUARD_ACTION_DENY cidr port ipv4_addr ipv4_mask 0))"

definition put_baseline_config :: "policy_kernel \<Rightarrow> c_int \<Rightarrow> baseline_config \<Rightarrow> naive_step" where
  "put_baseline_config kern config_fd cfg x =
     (let (n, b) = x; (errno, a) = array_update kern config_fd n (nv_config b) 0 cfg
      in (- errno, Suc n, b\<lparr>nv_config := a\<rparr>))"

definition configure_policy ::
  "policy_kernel \<Rightarrow> (string \<Rightarrow> string option) \<Rightarrow> file_system \<Rightarrow> naive_fds \<Rightarrow> naive_step" where
  "configure_policy kern getenv fs fds =
     (let cfg = \<lparr>bc_enforce = env_u32 getenv ''NAIVE_EBPF_ENFORCE'' 1,
                 bc_default_action = MCP_GUARD_ACTION_ALLOW, bc_active_generation = 1,
                 bc_reserved = 0\<rparr>
      in
      and_on_success (put_command_rule kern (nf_command fds) 1 ''/usr/bin/curl'')
     (and_on_success (put_command_rule kern (nf_command fds) 2 ''/usr/bin/wget'')
     (and_on_success (put_command_rule kern (nf_command fds) 3 ''/usr/bin/nc'')
     (and_on_success (put_path_rule kern fs (nf_path fds) (nf_resource fds) 4 ''/etc/shadow'')
     (and_on_success (put_path_rule kern fs (nf_path fds) (nf_resource fds) 5 ''/root/'')
     (and_on_success (put_path_rule kern fs (nf_path fds) (nf_resource fds) 6 ''/home/demo/.ssh/'')
     (and_on_success (put_network_rule kern (nf_network fds) 7 ''0.0.0.0/0''
        (env_u32 getenv ''NAIVE_EBPF_DENY_PORT'' 4444))
       (put_baseline_config kern (nf_config fds) cfg))))))))"

section \<open>Metrics and main\<close>

definition naive_decode_metric_index :: "u32 \<Rightarrow> u32 \<times> u32 \<times> u32" where
  "naive_decode_metric_index index =
     (drop_bit 5 index AND 0x7, drop_bit 2 index AND 0x7, index AND 0x3)"

text \<open>One CPU's value added to the total.\<close>

definition add_metric :: "mcp_metric_value \<Rightarrow> mcp_metric_value \<Rightarrow> mcp_metric_value" where
  "add_metric v tot =
     tot\<lparr>mv_count := mv_count tot + mv_count v,
           mv_total_ns := mv_total_ns tot + mv_total_ns v,
           mv_min_ns :=
             (if mv_min_ns v \<noteq> 0 \<and> (mv_min_ns tot = 0 \<or> mv_min_ns v < mv_min_ns tot)
              then mv_min_ns v else mv_min_ns tot),
           mv_max_ns := (if mv_max_ns v > mv_max_ns tot then mv_max_ns v else mv_max_ns tot),
           mv_buckets := map2 (+) (mv_buckets tot) (mv_buckets v)\<rparr>"

text \<open>\<open>cpus\<close> and \<open>calloc_ok\<close> are what \<^verbatim>\<open>libbpf_num_possible_cpus\<close> and \<^verbatim>\<open>calloc\<close> return.\<close>

definition read_metric_slot ::
  "c_int \<Rightarrow> bool \<Rightarrow> naive_state \<Rightarrow> u32 \<Rightarrow> c_int + mcp_metric_value" where
  "read_metric_slot cpus calloc_ok b index =
     (if cpus \<le> 0 then Inl (- 22)
      else if \<not> calloc_ok then Inl (- 12)
      else if nv_metrics b 0 index = None then Inl (- 2)
      else Inr (fold (\<lambda>cpu. add_metric (the (nv_metrics b cpu index))) [0..<nat cpus] zero_metric))"

text \<open>The first loop of \<open>print_metrics_summary\<close>: the counts of all slots and of the layers.\<close>

definition summary_slot ::
  "c_int \<Rightarrow> bool \<Rightarrow> naive_state \<Rightarrow> nat \<Rightarrow> u64 \<times> u64 \<times> u64 \<times> u64 \<Rightarrow> u64 \<times> u64 \<times> u64 \<times> u64" where
  "summary_slot cpus calloc_ok b i counts =
     (case read_metric_slot cpus calloc_ok b (of_nat i) of
        Inl err \<Rightarrow> counts
      | Inr slot \<Rightarrow>
          if mv_count slot = 0 then counts
          else
            let (total_count, l1, l2, l3) = counts; c = mv_count slot;
                (hook, layer, action) = naive_decode_metric_index (of_nat i)
            in (total_count + c,
                if layer = MCP_GUARD_LAYER_L1 then l1 + c else l1,
                if layer = MCP_GUARD_LAYER_L2 then l2 + c else l2,
                if layer = MCP_GUARD_LAYER_L3 then l3 + c else l3))"

definition metrics_summary :: "c_int \<Rightarrow> bool \<Rightarrow> naive_state \<Rightarrow> u64 \<times> u64 \<times> u64 \<times> u64" where
  "metrics_summary cpus calloc_ok b =
     fold (summary_slot cpus calloc_ok b) [0..<MCP_GUARD_METRIC_SLOTS] (0, 0, 0, 0)"

text \<open>\<^verbatim>\<open>main\<close> up to its wait: the exit status, or the maps under the attached programs.  \<open>loaded\<close> and
  \<open>attach\<close> are what the generated skeleton returns.\<close>

definition naive_main ::
  "policy_kernel \<Rightarrow> (string \<Rightarrow> string option) \<Rightarrow> file_system \<Rightarrow> naive_fds \<Rightarrow> naive_state option \<Rightarrow>
   c_int \<Rightarrow> c_int + naive_state" where
  "naive_main kern getenv fs fds loaded attach =
     (case loaded of
        None \<Rightarrow> Inl 1
      | Some b \<Rightarrow>
          (case configure_policy kern getenv fs fds (0, b) of
             (err, n, b') \<Rightarrow> if err \<noteq> 0 then Inl 1 else if attach \<noteq> 0 then Inl 1 else Inr b'))"

section \<open>The seven rules\<close>

text \<open>The rules that the loader writes, in the terms of the specification.\<close>

definition deny_rule ::
  "u32 \<Rightarrow> u32 \<Rightarrow> u32 \<Rightarrow> string \<Rightarrow> u32 \<Rightarrow> u32 \<times> u32 \<Rightarrow> u64 \<Rightarrow> mcp_policy_rule" where
  "deny_rule rule_id rule_type hook_mask text port addr resource_id =
     \<lparr>rule_enabled = 1, rule_rule_id = rule_id, rule_rule_type = rule_type,
      rule_action = MCP_GUARD_ACTION_DENY, rule_hook_mask = hook_mask, rule_flags = 0,
      rule_value_len = of_nat (length text), rule_port = port, rule_ipv4_addr = fst addr,
      rule_ipv4_mask = snd addr, rule_resource_id = resource_id,
      rule_value = padded MCP_GUARD_RULE_VALUE_LEN text, rule_name = baseline_rule_name rule_id\<rparr>"

definition exec_rule :: "u32 \<Rightarrow> string \<Rightarrow> mcp_policy_rule" where
  "exec_rule rule_id text =
     deny_rule rule_id MCP_GUARD_RULE_COMMAND_PREFIX (mcp_guard_hook_mask MCP_GUARD_HOOK_EXEC)
       text 0 (0, 0) 0"

definition file_rule :: "file_system \<Rightarrow> u32 \<Rightarrow> string \<Rightarrow> mcp_policy_rule" where
  "file_rule fs rule_id text =
     deny_rule rule_id MCP_GUARD_RULE_PATH_PREFIX
       (mcp_guard_hook_mask MCP_GUARD_HOOK_FILE_OPEN OR mcp_guard_hook_mask MCP_GUARD_HOOK_FILE_READ OR
        mcp_guard_hook_mask MCP_GUARD_HOOK_FILE_WRITE)
       text 0 (0, 0) (naive_path_resource_id fs text)"

definition port_rule :: "u32 \<Rightarrow> u32 \<Rightarrow> mcp_policy_rule" where
  "port_rule rule_id port =
     deny_rule rule_id MCP_GUARD_RULE_IPV4_CONNECT (mcp_guard_hook_mask MCP_GUARD_HOOK_SOCKET_CONNECT)
       ''0.0.0.0/0'' port (0, 0) 0"

definition baseline_rules :: "file_system \<Rightarrow> u32 \<Rightarrow> mcp_policy_rule list" where
  "baseline_rules fs port =
     [exec_rule 1 ''/usr/bin/curl'', exec_rule 2 ''/usr/bin/wget'', exec_rule 3 ''/usr/bin/nc'',
      file_rule fs 4 ''/etc/shadow'', file_rule fs 5 ''/root/'', file_rule fs 6 ''/home/demo/.ssh/'',
      port_rule 7 port]"

lemmas rule_kinds = exec_rule_def file_rule_def port_rule_def deny_rule_def

definition plain_text :: "string \<Rightarrow> bool" where
  "plain_text text \<longleftrightarrow> NUL \<notin> set text \<and> length text < MCP_GUARD_RULE_VALUE_LEN \<and> text \<noteq> []"

lemma plain_facts:
  assumes "plain_text text"
  shows "cstr text = text" "c_strnlen text MCP_GUARD_RULE_VALUE_LEN = length text"
    "cstr (padded MCP_GUARD_RULE_VALUE_LEN text) = text"
    "c_strnlen (padded MCP_GUARD_RULE_VALUE_LEN text) MCP_GUARD_RULE_VALUE_LEN = length text"
    "padded MCP_GUARD_RULE_VALUE_LEN text ! 0 = hd text" "hd text \<noteq> NUL"
proof -
  note plain = assms [unfolded plain_text_def]
  show "cstr text = text" "cstr (padded MCP_GUARD_RULE_VALUE_LEN text) = text"
    using plain by (simp_all add: cstr_id cstr_padded)
  then show "c_strnlen text MCP_GUARD_RULE_VALUE_LEN = length text"
    "c_strnlen (padded MCP_GUARD_RULE_VALUE_LEN text) MCP_GUARD_RULE_VALUE_LEN = length text"
    using plain by (simp_all add: c_strnlen_eq)
  have "padded MCP_GUARD_RULE_VALUE_LEN text ! 0 = (text @ zeroed MCP_GUARD_RULE_VALUE_LEN) ! 0"
    unfolding padded_def by (rule nth_take) simp
  then show "padded MCP_GUARD_RULE_VALUE_LEN text ! 0 = hd text"
    using plain by (simp add: nth_append hd_conv_nth)
  show "hd text \<noteq> NUL" using plain by (metis hd_in_set)
qed

lemma snprintf_cstr: "cstr a = cstr b \<Longrightarrow> snprintf_s dst n a = snprintf_s dst n b"
  by (simp add: snprintf_s_def)

lemma snprintf_twice: "snprintf_s dst n (snprintf_s dst' n src) = snprintf_s dst n src"
  unfolding snprintf_s_def [of dst] cstr_snprintf_s by simp

lemma rule_name_twice [simp]:
  "snprintf_s (zeroed MCP_GUARD_RULE_NAME_LEN) MCP_GUARD_RULE_NAME_LEN (baseline_rule_name rule_id) =
     baseline_rule_name rule_id"
  unfolding baseline_rule_name_def by (rule snprintf_twice)

text \<open>What the loader writes for a rule is its entry of generation 1.\<close>

lemma exec_rule_entry:
  assumes "plain_text text"
  shows "command_entry 1 (exec_rule rule_id text) =
    Entry \<lparr>clk_prefixlen = naive_command_prefix_bits text, clk_generation = 1,
        clk_command = snprintf_s (zeroed MCP_GUARD_RULE_VALUE_LEN) MCP_GUARD_RULE_VALUE_LEN text\<rparr>
      (fill_indexed_value rule_id (mcp_guard_hook_mask MCP_GUARD_HOOK_EXEC)
        MCP_GUARD_ACTION_DENY text 0 0 0 0)"
    "path_entry 1 (exec_rule rule_id text) = Skip" "network_entry 1 (exec_rule rule_id text) = Skip"
    "resource_entry 1 (exec_rule rule_id text) = Skip"
  using plain_facts [OF assms]
    snprintf_cstr [of "padded MCP_GUARD_RULE_VALUE_LEN text" "text"]
  by (simp_all add: command_entry_def path_entry_def network_entry_def resource_entry_def rule_kinds
      command_prefix_bits_def naive_command_prefix_bits_def indexed_value_from_rule_def
      fill_indexed_value_def)

lemma file_rule_entry:
  assumes "plain_text text" and "hd text = CHR ''/''"
  shows "path_entry 1 (file_rule fs rule_id text) =
    Entry \<lparr>plk_prefixlen = naive_path_prefix_bits text, plk_generation = 1,
        plk_path = padded MCP_GUARD_PATH_LPM_LEN (cstr text)\<rparr>
      \<lparr>ppv_enabled = 1, ppv_rule_id = rule_id, ppv_action = MCP_GUARD_ACTION_DENY,
       ppv_hook_mask = mcp_guard_hook_mask MCP_GUARD_HOOK_FILE_OPEN OR
         mcp_guard_hook_mask MCP_GUARD_HOOK_FILE_READ OR mcp_guard_hook_mask MCP_GUARD_HOOK_FILE_WRITE,
       ppv_flags = 0, ppv_value_len = of_nat (c_strnlen text MCP_GUARD_RULE_VALUE_LEN),
       ppv_resource_id = naive_path_resource_id fs text, ppv_name = baseline_rule_name rule_id\<rparr>"
    "resource_entry 1 (file_rule fs rule_id text) =
      (if naive_path_resource_id fs text = 0 then Skip
       else Entry \<lparr>rpk_generation = 1, rpk_rule_type = MCP_GUARD_RULE_PATH_PREFIX,
           rpk_resource_id = naive_path_resource_id fs text\<rparr>
         (fill_indexed_value rule_id
           (mcp_guard_hook_mask MCP_GUARD_HOOK_FILE_OPEN OR mcp_guard_hook_mask MCP_GUARD_HOOK_FILE_READ OR
            mcp_guard_hook_mask MCP_GUARD_HOOK_FILE_WRITE) MCP_GUARD_ACTION_DENY text 0 0 0
           (naive_path_resource_id fs text)))"
    "command_entry 1 (file_rule fs rule_id text) = Skip"
    "network_entry 1 (file_rule fs rule_id text) = Skip"
  using plain_facts [OF assms(1)] assms(2)
  by (simp_all add: command_entry_def path_entry_def network_entry_def resource_entry_def rule_kinds
      path_prefix_bits_def naive_path_prefix_bits_def indexed_value_from_rule_def
      path_value_from_rule_def fill_indexed_value_def)

lemma any_address: "naive_parse_ipv4_cidr ''0.0.0.0/0'' = Inr (0, 0)"
  by code_simp

lemma port_rule_entry:
  "network_entry 1 (port_rule rule_id port) =
    Entry \<lparr>nlk_prefixlen = naive_ipv4_prefix_bits 0, nlk_generation = 1, nlk_port = port,
        nlk_ipv4_addr = 0\<rparr>
      (fill_indexed_value rule_id (mcp_guard_hook_mask MCP_GUARD_HOOK_SOCKET_CONNECT)
        MCP_GUARD_ACTION_DENY ''0.0.0.0/0'' port 0 0 0)"
  "command_entry 1 (port_rule rule_id port) = Skip" "path_entry 1 (port_rule rule_id port) = Skip"
  "resource_entry 1 (port_rule rule_id port) = Skip"
  by (simp_all add: command_entry_def path_entry_def network_entry_def resource_entry_def rule_kinds
      ipv4_prefix_bits_def naive_ipv4_prefix_bits_def indexed_value_from_rule_def
      fill_indexed_value_def c_strnlen_eq)

section \<open>Maps that hold the rules\<close>

definition holding :: "mcp_policy_rule list \<Rightarrow> naive_state \<Rightarrow> naive_state \<Rightarrow> bool" where
  "holding rules b0 b \<longleftrightarrow>
     nv_config b = nv_config b0 \<and> nv_scratch b = nv_scratch b0 \<and>
     entries_ok (same_lpm plk_prefixlen path_key_bits) (nv_path b) \<and>
     set (nv_path b) = fold (put (same_lpm plk_prefixlen path_key_bits)) (entries_of (path_entry 1) rules) {} \<and>
     entries_ok (same_lpm clk_prefixlen command_key_bits) (nv_command b) \<and>
     set (nv_command b) =
       fold (put (same_lpm clk_prefixlen command_key_bits)) (entries_of (command_entry 1) rules) {} \<and>
     entries_ok (same_lpm nlk_prefixlen network_key_bits) (nv_network b) \<and>
     set (nv_network b) =
       fold (put (same_lpm nlk_prefixlen network_key_bits)) (entries_of (network_entry 1) rules) {} \<and>
     entries_ok (=) (nv_resource b) \<and>
     set (nv_resource b) = fold (put (=)) (entries_of (resource_entry 1) rules) {}"

lemma naive_update_ok:
  assumes law: "map_law same ops" and room: "\<forall>fault. room_law 64 fault same ops" and fd: "0 \<le> fd"
    and ok: "entries_ok same (sel b)"
    and held: "set (sel b) = fold (put same) (entries_of entry rules) {}"
    and size: "length rules < 32" and new: "entry r = Entry k v"
  obtains m where "naive_update sel upd fd ops k v (n, b) = (0, Suc n, upd (\<lambda>_. m) b)"
    "entries_ok same m" "set m = fold (put same) (entries_of entry (rules @ [r])) {}"
proof -
  obtain errno m where up: "sys_update fd ops n (sel b) k v = (errno, m)"
    by (cases "sys_update fd ops n (sel b) k v")
  have "card (set (sel b)) \<le> card (set (entries_of entry rules))"
    unfolding held using fold_put_subset [of same "entries_of entry rules" "{}"]
    by (intro card_mono) auto
  also have "\<dots> \<le> 32"
    using card_length [of "entries_of entry rules"] entries_of_length [of entry rules] size by linarith
  finally have "card (insert (k, v) (set (sel b))) \<le> 64"
    using card_insert_le_m1 [of 64 "set (sel b)" "(k, v)"] by simp
  from sys_update_room [OF law room [rule_format, of "Suc n"] fd ok this up]
  have "errno = 0" "entries_ok same m" "set m = put same (k, v) (set (sel b))" by auto
  moreover have "entries_of entry (rules @ [r]) = entries_of entry rules @ [(k, v)]"
    using new by (simp add: entries_of_snoc)
  ultimately show thesis using that up held by (simp add: naive_update_def)
qed

lemma and_on_success_ok:
  "a x = (0, y) \<Longrightarrow> and_on_success a b x = b y"
  by (simp add: and_on_success_def)

lemma put_command_ok:
  assumes kern: "\<forall>fault. kernel_law fault kern" and fd: "0 \<le> fd" and b: "holding rules b0 b"
    and size: "length rules < 32" and "plain_text text"
  obtains n' b' where "put_command_rule kern fd rule_id text (n, b) = (0, n', b')"
    "holding (rules @ [exec_rule rule_id text]) b0 b'"
proof -
  note entry = exec_rule_entry [OF assms(5), of rule_id]
  note laws = kernel_laws [OF kern [rule_format]]
  have held: "entries_ok (same_lpm clk_prefixlen command_key_bits) (nv_command b)"
    "set (nv_command b) =
      fold (put (same_lpm clk_prefixlen command_key_bits)) (entries_of (command_entry 1) rules) {}"
    using b by (simp_all add: holding_def)
  from naive_update_ok [where sel = nv_command and upd = nv_command_update and n = n,
      OF laws(2) _ fd held size entry(1)] laws(9)
  obtain m where m: "put_command_rule kern fd rule_id text (n, b) = (0, Suc n, b\<lparr>nv_command := m\<rparr>)"
    "entries_ok (same_lpm clk_prefixlen command_key_bits) m"
    "set m = fold (put (same_lpm clk_prefixlen command_key_bits))
      (entries_of (command_entry 1) (rules @ [exec_rule rule_id text])) {}"
    unfolding put_command_rule_def by blast
  moreover have "holding (rules @ [exec_rule rule_id text]) b0 (b\<lparr>nv_command := m\<rparr>)"
    using b m(2,3) entry(2-4) by (simp add: holding_def entries_of_snoc)
  ultimately show thesis using that by blast
qed

lemma put_path_ok:
  assumes kern: "\<forall>fault. kernel_law fault kern" and fd: "0 \<le> fd" "0 \<le> fd'"
    and b: "holding rules b0 b" and size: "length rules < 32"
    and "plain_text text" and "hd text = CHR ''/''"
  obtains n' b' where "put_path_rule kern fs fd fd' rule_id text (n, b) = (0, n', b')"
    "holding (rules @ [file_rule fs rule_id text]) b0 b'"
proof -
  note entry = file_rule_entry [OF assms(6,7), of fs rule_id]
  note laws = kernel_laws [OF kern [rule_format]]
  have held: "entries_ok (same_lpm plk_prefixlen path_key_bits) (nv_path b)"
    "set (nv_path b) =
      fold (put (same_lpm plk_prefixlen path_key_bits)) (entries_of (path_entry 1) rules) {}"
    "entries_ok (=) (nv_resource b)"
    "set (nv_resource b) = fold (put (=)) (entries_of (resource_entry 1) rules) {}"
    using b by (simp_all add: holding_def)
  from naive_update_ok [where sel = nv_path and upd = nv_path_update and n = n,
      OF laws(1) _ fd(1) held(1,2) size entry(1)] laws(8)
  obtain m where m: "naive_update nv_path nv_path_update fd (k_path kern)
      \<lparr>plk_prefixlen = naive_path_prefix_bits text, plk_generation = 1,
        plk_path = padded MCP_GUARD_PATH_LPM_LEN (cstr text)\<rparr>
      \<lparr>ppv_enabled = 1, ppv_rule_id = rule_id, ppv_action = MCP_GUARD_ACTION_DENY,
       ppv_hook_mask = mcp_guard_hook_mask MCP_GUARD_HOOK_FILE_OPEN OR
         mcp_guard_hook_mask MCP_GUARD_HOOK_FILE_READ OR mcp_guard_hook_mask MCP_GUARD_HOOK_FILE_WRITE,
       ppv_flags = 0, ppv_value_len = of_nat (c_strnlen text MCP_GUARD_RULE_VALUE_LEN),
       ppv_resource_id = naive_path_resource_id fs text, ppv_name = baseline_rule_name rule_id\<rparr>
      (n, b) = (0, Suc n, b\<lparr>nv_path := m\<rparr>)"
    "entries_ok (same_lpm plk_prefixlen path_key_bits) m"
    "set m = fold (put (same_lpm plk_prefixlen path_key_bits))
      (entries_of (path_entry 1) (rules @ [file_rule fs rule_id text])) {}" by blast
  show thesis
  proof (cases "naive_path_resource_id fs text = 0")
    case True
    then have "holding (rules @ [file_rule fs rule_id text]) b0 (b\<lparr>nv_path := m\<rparr>)"
      using b m(2,3) entry(2-4) by (simp add: holding_def entries_of_snoc)
    moreover have "put_path_rule kern fs fd fd' rule_id text (n, b) = (0, Suc n, b\<lparr>nv_path := m\<rparr>)"
      using True m(1) by (simp add: put_path_rule_def and_on_success_def)
    ultimately show thesis using that by blast
  next
    case False
    have "entries_ok (=) (nv_resource (b\<lparr>nv_path := m\<rparr>))"
      "set (nv_resource (b\<lparr>nv_path := m\<rparr>)) = fold (put (=)) (entries_of (resource_entry 1) rules) {}"
      using held(3,4) by simp_all
    from naive_update_ok [where sel = nv_resource and upd = nv_resource_update and n = "Suc n",
        OF laws(4) _ fd(2) this size entry(2) [unfolded if_not_P [OF False]]] laws(11)
    obtain m' where m': "naive_update nv_resource nv_resource_update fd' (k_resource kern)
        \<lparr>rpk_generation = 1, rpk_rule_type = MCP_GUARD_RULE_PATH_PREFIX,
         rpk_resource_id = naive_path_resource_id fs text\<rparr>
        (fill_indexed_value rule_id
          (mcp_guard_hook_mask MCP_GUARD_HOOK_FILE_OPEN OR mcp_guard_hook_mask MCP_GUARD_HOOK_FILE_READ OR
           mcp_guard_hook_mask MCP_GUARD_HOOK_FILE_WRITE) MCP_GUARD_ACTION_DENY text 0 0 0
          (naive_path_resource_id fs text)) (Suc n, b\<lparr>nv_path := m\<rparr>) =
        (0, Suc (Suc n), b\<lparr>nv_path := m, nv_resource := m'\<rparr>)"
      "entries_ok (=) m'"
      "set m' = fold (put (=)) (entries_of (resource_entry 1) (rules @ [file_rule fs rule_id text])) {}"
      by blast
    have "holding (rules @ [file_rule fs rule_id text]) b0 (b\<lparr>nv_path := m, nv_resource := m'\<rparr>)"
      using b m(2,3) m'(2,3) entry(3,4) by (simp add: holding_def entries_of_snoc)
    moreover have "put_path_rule kern fs fd fd' rule_id text (n, b) =
        (0, Suc (Suc n), b\<lparr>nv_path := m, nv_resource := m'\<rparr>)"
      using False m(1) m'(1) by (simp add: put_path_rule_def and_on_success_def Let_def)
    ultimately show thesis using that by blast
  qed
qed

lemma put_network_ok:
  assumes kern: "\<forall>fault. kernel_law fault kern" and fd: "0 \<le> fd" and b: "holding rules b0 b"
    and size: "length rules < 32"
  obtains n' b' where "put_network_rule kern fd rule_id ''0.0.0.0/0'' port (n, b) = (0, n', b')"
    "holding (rules @ [port_rule rule_id port]) b0 b'"
proof -
  note entry = port_rule_entry [of rule_id port]
  note laws = kernel_laws [OF kern [rule_format]]
  have held: "entries_ok (same_lpm nlk_prefixlen network_key_bits) (nv_network b)"
    "set (nv_network b) =
      fold (put (same_lpm nlk_prefixlen network_key_bits)) (entries_of (network_entry 1) rules) {}"
    using b by (simp_all add: holding_def)
  from naive_update_ok [where sel = nv_network and upd = nv_network_update and n = n,
      OF laws(3) _ fd held size entry(1)] laws(10)
  obtain m where m: "put_network_rule kern fd rule_id ''0.0.0.0/0'' port (n, b) =
      (0, Suc n, b\<lparr>nv_network := m\<rparr>)"
    "entries_ok (same_lpm nlk_prefixlen network_key_bits) m"
    "set m = fold (put (same_lpm nlk_prefixlen network_key_bits))
      (entries_of (network_entry 1) (rules @ [port_rule rule_id port])) {}"
    unfolding put_network_rule_def any_address sum.case prod.case by blast
  moreover have "holding (rules @ [port_rule rule_id port]) b0 (b\<lparr>nv_network := m\<rparr>)"
    using b m(2,3) entry(2-4) by (simp add: holding_def entries_of_snoc)
  ultimately show thesis using that by blast
qed

end
