(* ===== verification/Baseline_Policy.thy ===== *)
theory Baseline_Policy
  imports Baseline_Loader
begin

text \<open>
  The naive baseline from its loader to its decisions: \<open>configure_policy\<close> leaves maps that hold the
  seven rules (\<open>configured_holds\<close>); these maps are compared with the guard's under the same
  rules (\<open>configured_mirror\<close>), so the specification of rules decides what the baseline denies.
\<close>

section \<open>The loader leaves the seven rules\<close>

definition naive_fds_ok :: "naive_fds \<Rightarrow> bool" where
  "naive_fds_ok fds \<longleftrightarrow>
     0 \<le> nf_config fds \<and> 0 \<le> nf_path fds \<and> 0 \<le> nf_command fds \<and> 0 \<le> nf_network fds \<and>
     0 \<le> nf_resource fds"

text \<open>The maps of a baseline that has just been loaded.\<close>

definition naive_created :: "naive_state \<Rightarrow> bool" where
  "naive_created b \<longleftrightarrow>
     dom (nv_config b) = {0} \<and> nv_path b = [] \<and> nv_command b = [] \<and> nv_network b = [] \<and>
     nv_resource b = []"

lemma created_holding: "naive_created b \<Longrightarrow> holding [] b b"
  by (simp add: naive_created_def holding_def entries_ok_def)

definition naive_config :: "u32 \<Rightarrow> baseline_config" where
  "naive_config enforce =
     \<lparr>bc_enforce = enforce, bc_default_action = MCP_GUARD_ACTION_ALLOW, bc_active_generation = 1,
      bc_reserved = 0\<rparr>"

lemma put_config_ok:
  assumes "\<forall>fault. kernel_law fault kern" and "0 \<le> fd" and "0 \<in> dom (nv_config b)"
  shows "put_baseline_config kern fd cfg (n, b) =
    (0, Suc n, b\<lparr>nv_config := (nv_config b)(0 \<mapsto> cfg)\<rparr>)"
proof -
  have "k_array kern n = 0"
    using kernel_laws(15) [OF assms(1) [rule_format, of "Suc n"]] by simp
  then show ?thesis using assms(2,3) by (auto simp: put_baseline_config_def array_update_def)
qed

text \<open>A step that always succeeds, and the rules that the maps hold before and after it.\<close>

definition writes ::
  "naive_state \<Rightarrow> mcp_policy_rule list \<Rightarrow> naive_step \<Rightarrow> naive_state \<Rightarrow> mcp_policy_rule list \<Rightarrow> bool"
where
  "writes b0 rules step b1 rules' \<longleftrightarrow>
     (\<forall>n b. holding rules b0 b \<longrightarrow>
        (\<exists>n' b'. step (n, b) = (0, n', b') \<and> holding rules' b1 b'))"

lemma writes_and_on_success:
  "writes b0 rules a b1 rules1 \<Longrightarrow> writes b1 rules1 b b2 rules2 \<Longrightarrow>
   writes b0 rules (and_on_success a b) b2 rules2"
proof (unfold writes_def, intro allI impI)
  fix n s
  assume "\<forall>n b. holding rules b0 b \<longrightarrow> (\<exists>n' b'. a (n, b) = (0, n', b') \<and> holding rules1 b1 b')"
    and b: "\<forall>n s. holding rules1 b1 s \<longrightarrow> (\<exists>n' b'. b (n, s) = (0, n', b') \<and> holding rules2 b2 b')"
    and "holding rules b0 s"
  then obtain n1 s1 where "a (n, s) = (0, n1, s1)" "holding rules1 b1 s1" by blast
  with b show "\<exists>n' b'. and_on_success a b (n, s) = (0, n', b') \<and> holding rules2 b2 b'"
    by (simp add: and_on_success_def)
qed

lemma writes_command:
  assumes "\<forall>fault. kernel_law fault kern" and "0 \<le> fd" and "length rules < 32"
    and "plain_text text" and "rules' = rules @ [exec_rule rule_id text]"
  shows "writes b0 rules (put_command_rule kern fd rule_id text) b0 rules'"
  unfolding writes_def assms(5) by (metis put_command_ok [OF assms(1,2) _ assms(3,4)])

lemma writes_path:
  assumes "\<forall>fault. kernel_law fault kern" and "0 \<le> fd" and "0 \<le> fd'" and "length rules < 32"
    and "plain_text text" and "hd text = CHR ''/''" and "rules' = rules @ [file_rule fs rule_id text]"
  shows "writes b0 rules (put_path_rule kern fs fd fd' rule_id text) b0 rules'"
  unfolding writes_def assms(7) by (metis put_path_ok [OF assms(1-3) _ assms(4-6)])

lemma writes_network:
  assumes "\<forall>fault. kernel_law fault kern" and "0 \<le> fd" and "length rules < 32"
    and "rules' = rules @ [port_rule rule_id port]"
  shows "writes b0 rules (put_network_rule kern fd rule_id ''0.0.0.0/0'' port) b0 rules'"
  unfolding writes_def assms(4) by (metis put_network_ok [OF assms(1,2) _ assms(3)])

lemma writes_config:
  assumes "\<forall>fault. kernel_law fault kern" and "0 \<le> fd" and "0 \<in> dom (nv_config b0)"
  shows "writes b0 rules (put_baseline_config kern fd cfg)
    (b0\<lparr>nv_config := (nv_config b0)(0 \<mapsto> cfg)\<rparr>) rules"
  unfolding writes_def
proof (intro allI impI)
  fix n b assume b: "holding rules b0 b"
  then have "0 \<in> dom (nv_config b)" using assms(3) by (simp add: holding_def)
  moreover have "holding rules (b0\<lparr>nv_config := (nv_config b0)(0 \<mapsto> cfg)\<rparr>)
      (b\<lparr>nv_config := (nv_config b)(0 \<mapsto> cfg)\<rparr>)"
    using b by (simp add: holding_def)
  ultimately show "\<exists>n' b'. put_baseline_config kern fd cfg (n, b) = (0, n', b') \<and>
      holding rules (b0\<lparr>nv_config := (nv_config b0)(0 \<mapsto> cfg)\<rparr>) b'"
    using put_config_ok [OF assms(1,2)] by blast
qed

lemma rule_texts:
  "plain_text ''/usr/bin/curl''" "plain_text ''/usr/bin/wget''" "plain_text ''/usr/bin/nc''"
  "plain_text ''/etc/shadow''" "plain_text ''/root/''" "plain_text ''/home/demo/.ssh/''"
  by (simp_all add: plain_text_def)

lemma configured_holds:
  assumes kern: "\<forall>fault. kernel_law fault kern" and fds: "naive_fds_ok fds"
    and b: "naive_created b"
  obtains n' b' where "configure_policy kern getenv fs fds (n, b) = (0, n', b')"
    "holding (baseline_rules fs (env_u32 getenv ''NAIVE_EBPF_DENY_PORT'' 4444))
       (b\<lparr>nv_config := (nv_config b)(0 \<mapsto> naive_config (env_u32 getenv ''NAIVE_EBPF_ENFORCE'' 1))\<rparr>) b'"
proof -
  have fd: "0 \<le> nf_config fds" "0 \<le> nf_path fds" "0 \<le> nf_command fds" "0 \<le> nf_network fds"
    "0 \<le> nf_resource fds" using fds by (simp_all add: naive_fds_ok_def)
  have dom: "0 \<in> dom (nv_config b)" using b by (simp add: naive_created_def)
  have "writes b [] (configure_policy kern getenv fs fds)
    (b\<lparr>nv_config := (nv_config b)(0 \<mapsto> naive_config (env_u32 getenv ''NAIVE_EBPF_ENFORCE'' 1))\<rparr>)
    (baseline_rules fs (env_u32 getenv ''NAIVE_EBPF_DENY_PORT'' 4444))"
    unfolding configure_policy_def Let_def naive_config_def [symmetric] baseline_rules_def
    by (rule writes_and_on_success
        writes_command [OF kern fd(3) _ rule_texts(1) refl] writes_command [OF kern fd(3) _ rule_texts(2) refl]
        writes_command [OF kern fd(3) _ rule_texts(3) refl] writes_path [OF kern fd(2,5) _ rule_texts(4) _ refl]
        writes_path [OF kern fd(2,5) _ rule_texts(5) _ refl] writes_path [OF kern fd(2,5) _ rule_texts(6) _ refl]
        writes_network [OF kern fd(4) _ refl] writes_config [OF kern fd(1) dom] | simp)+
  then show thesis using that created_holding [OF b] by (auto simp: writes_def)
qed

section \<open>The guard's maps with the same rules\<close>

text \<open>The guard's configuration and maps under which it would hold what the baseline holds.\<close>

definition mirror_config :: "u32 \<Rightarrow> mcp_policy_config" where
  "mirror_config enforce =
     zero_config\<lparr>cfg_default_action := MCP_GUARD_ACTION_ALLOW, cfg_enforce := enforce,
       cfg_rule_count := 7, cfg_flags := MCP_GUARD_POLICY_F_SKIP_L2_SAFE,
       cfg_active_generation := 1\<rparr>"

definition mirror_maps :: "u32 \<Rightarrow> mcp_policy_rule list \<Rightarrow> naive_state \<Rightarrow> bpf_state" where
  "mirror_maps enforce rules b =
     loaded_maps
       \<lparr>policy_config := [0 \<mapsto> mirror_config enforce],
        policy_rules := (\<lambda>i. Some (if unat i < length rules then rules ! unat i else zero_rule)),
        path_policy_trie := nv_path b, command_policy_trie := nv_command b,
        network_policy_trie := nv_network b, resource_policy_hash := nv_resource b\<rparr>"

text \<open>All entries of a list of rules are of the generation they are made for.\<close>

context lpm_index
begin

lemma all_visible:
  assumes "S = fold (put same) (entries_of (entry g) rules) {}"
  shows "visible gen g S = S" "e \<in> S \<Longrightarrow> 32 \<le> unat (plen (fst e))"
proof -
  have "gen (fst e) = g \<and> 32 \<le> unat (plen (fst e))" if "e \<in> S" for e
  proof -
    have "e \<in> set (entries_of (entry g) rules)"
      using that assms fold_put_subset [of same "entries_of (entry g) rules" "{}"] by auto
    then obtain r where "entry g r = Entry (fst e) (snd e)"
      by (auto simp: entries_of_def split: write_step.splits)
    then show ?thesis by (rule key_entry)
  qed
  then show "visible gen g S = S" "e \<in> S \<Longrightarrow> 32 \<le> unat (plen (fst e))"
    by (auto simp: visible_def)
qed

end

lemma resource_visible:
  assumes "S = fold (put same) (entries_of (resource_entry g) rules) {}"
  shows "visible rpk_generation g S = S"
proof -
  have "set (entries_of (resource_entry g) rules) \<subseteq> {e. rpk_generation (fst e) = g}"
    by (auto simp: entries_of_def resource_entry_def split: write_step.splits if_splits)
  then show ?thesis
    using assms fold_put_subset [of same "entries_of (resource_entry g) rules" "{}"]
    by (auto simp: visible_def)
qed

lemma baseline_rule_facts:
  assumes "r \<in> set (baseline_rules fs port)"
  shows "rule_text r \<noteq> []" "terminated_rule r" "path_entry 1 r \<noteq> Fail e"
    "command_entry 1 r \<noteq> Fail e" "network_entry 1 r \<noteq> Fail e"
    "rule_enabled r = 1" "rule_action r = MCP_GUARD_ACTION_DENY"
proof -
  note texts = rule_texts [THEN plain_facts(3)]
  have port: "cstr (padded MCP_GUARD_RULE_VALUE_LEN ''0.0.0.0/0'') = ''0.0.0.0/0''"
    by (rule plain_facts) (simp add: plain_text_def)
  note entries = file_rule_entry exec_rule_entry port_rule_entry rule_texts
  show "rule_text r \<noteq> []" "terminated_rule r"
    using assms texts port by (auto simp: baseline_rules_def rule_kinds terminated_rule_def)
  show "path_entry 1 r \<noteq> Fail e" "command_entry 1 r \<noteq> Fail e" "network_entry 1 r \<noteq> Fail e"
    using assms entries by (auto simp: baseline_rules_def)
  show "rule_enabled r = 1" "rule_action r = MCP_GUARD_ACTION_DENY"
    using assms by (auto simp: baseline_rules_def rule_kinds)
qed

lemma mirror_in_force:
  assumes b: "holding (baseline_rules fs port) b0 b"
  shows "in_force (mirror_config enforce) empty_scope (baseline_rules fs port)
    (mirror_maps enforce (baseline_rules fs port) b)"
proof -
  note h = b [unfolded holding_def]
  have count: "length (baseline_rules fs port) = 7" by (simp add: baseline_rules_def)
  have tries: "path_index.trie.holds_rules 1 (baseline_rules fs port) (nv_path b)"
    "command_index.trie.holds_rules 1 (baseline_rules fs port) (nv_command b)"
    "network_index.holds_rules 1 (baseline_rules fs port) (nv_network b)"
    using h baseline_rule_facts path_index.all_visible command_index.all_visible
      network_index.all_visible
    by (auto simp: path_index.trie.holds_rules_def command_index.trie.holds_rules_def
        network_index.holds_rules_def)
  have resources: "visible rpk_generation 1 (set (nv_resource b)) =
      fold (put (=)) (entries_of (resource_entry 1) (baseline_rules fs port)) {}"
    using h resource_visible by metis
  show ?thesis
    using tries resources h baseline_rule_facts(1)
    by (simp add: in_force_def mirror_maps_def mirror_config_def count loaded_maps_def
        created_maps_def empty_scope_def zero_config_def unat_of_nat take_bit_nat_eq_self)
qed

section \<open>What the baseline denies\<close>

definition denied_commands :: "string list" where
  "denied_commands = [''/usr/bin/curl'', ''/usr/bin/wget'', ''/usr/bin/nc'']"

definition denied_paths :: "string list" where
  "denied_paths = [''/etc/shadow'', ''/root/'', ''/home/demo/.ssh/'']"

text \<open>Port 0 stands for every port.\<close>

fun baseline_denies :: "file_system \<Rightarrow> u32 \<Rightarrow> request \<Rightarrow> bool" where
  "baseline_denies fs port (Req_exec bprm) \<longleftrightarrow>
     (\<exists>text \<in> set denied_commands. is_prefix text (exec_name bprm))"
| "baseline_denies fs port (Req_open f) \<longleftrightarrow>
     (\<exists>text \<in> set denied_paths. is_prefix text (file_name f))"
| "baseline_denies fs port (Req_permission ctx) \<longleftrightarrow>
     mcp_file_resource_id (fst ctx) \<noteq> 0 \<and>
     (\<exists>text \<in> set denied_paths. naive_path_resource_id fs text = mcp_file_resource_id (fst ctx)) \<and>
     snd ctx AND (MCP_GUARD_MAY_WRITE OR MCP_GUARD_MAY_APPEND OR MCP_GUARD_MAY_READ) \<noteq> 0"
| "baseline_denies fs port (Req_connect address) \<longleftrightarrow>
     (case address of
        None \<Rightarrow> False
      | Some a \<Rightarrow> sa_family a = MCP_GUARD_AF_INET \<and>
          (port = 0 \<or> port = ucast (bswap16 (sin_port a))))"

lemma spec_verdict_deny:
  assumes "\<forall>r \<in> set rules. rule_enabled r = 1 \<and> rule_action r = MCP_GUARD_ACTION_DENY"
    and "\<forall>r. spec_rule rules req = Some r \<longrightarrow>
      r \<in> set rules \<and> rule_hook_mask r AND mcp_guard_hook_mask (request_hook req) \<noteq> 0"
    and "spec_safe (cfg_flags config) req = None"
    and "cfg_default_action config = MCP_GUARD_ACTION_ALLOW"
  shows "d_action (spec_verdict config rules req) =
    (if spec_rule rules req = None then MCP_GUARD_ACTION_ALLOW else MCP_GUARD_ACTION_DENY)"
  using assms
  by (auto simp: spec_verdict_def spec_default_def mcp_guard_action_valid_def live_rule_def
      rule_verdict_def split: option.split)

lemma best_rule_mem: "best_rule covers weight rs = Some r \<Longrightarrow> r \<in> set rs \<and> covers r"
  using best_rule_max [of covers weight rs r] best_rule_last [of covers weight rs r]
  by (metis in_set_conv_decomp)

lemma any_block: "same_block (mask_length (port_rule rule_id port)) a b"
proof -
  have "leading_ones (bswap32 0) 32 0 = 0" by code_simp
  moreover have "drop_bit 32 (x :: u32) = 0" for x
    by (intro bit_word_eqI) (auto simp: bit_simps dest: bit_imp_le_length)
  ultimately show ?thesis by (simp add: same_block_def mask_length_def rule_kinds)
qed

lemmas baseline_rule_texts = rule_texts [THEN plain_facts(3)]

lemma baseline_spec_None:
  "longest_prefix_rule MCP_GUARD_RULE_COMMAND_PREFIX (baseline_rules fs port) name = None \<longleftrightarrow>
     \<not> (\<exists>text \<in> set denied_commands. is_prefix text name)"
  "longest_prefix_rule MCP_GUARD_RULE_PATH_PREFIX (baseline_rules fs port) name = None \<longleftrightarrow>
     \<not> (\<exists>text \<in> set denied_paths. is_prefix text name)"
  "rid \<noteq> 0 \<Longrightarrow> resource_rule MCP_GUARD_RULE_PATH_PREFIX rid (baseline_rules fs port) = None \<longleftrightarrow>
     \<not> (\<exists>text \<in> set denied_paths. naive_path_resource_id fs text = rid)"
  "address_rule p addr (baseline_rules fs port) = None \<longleftrightarrow> \<not> (port = 0 \<or> port = p)"
  using baseline_rule_texts any_block [of 7 port 0 addr]
  by (auto simp: longest_prefix_rule_def best_rule_None rule_covers_def resource_rule_def
      address_rule_def block_rule_def network_covers_def find_None_iff baseline_rules_def rule_kinds
      denied_commands_def denied_paths_def split: option.split)

text \<open>A rule that the specification picks is of the kind of the request, so it names its hook.\<close>

lemma baseline_hooks:
  assumes "r \<in> set (baseline_rules fs port)"
  shows "rule_rule_type r = MCP_GUARD_RULE_COMMAND_PREFIX \<Longrightarrow> rule_hook_mask r = 2"
    "rule_rule_type r = MCP_GUARD_RULE_PATH_PREFIX \<Longrightarrow> rule_hook_mask r = 4 OR 8 OR 16"
    "rule_rule_type r = MCP_GUARD_RULE_IPV4_CONNECT \<Longrightarrow> rule_hook_mask r = 32"
  using assms by (auto simp: baseline_rules_def rule_kinds)

lemma find_mem: "find P xs = Some r \<Longrightarrow> r \<in> set xs \<and> P r"
  by (induction xs) (auto split: if_splits)

lemma spec_rule_hook:
  assumes "spec_rule (baseline_rules fs port) req = Some r"
  shows "r \<in> set (baseline_rules fs port) \<and>
    rule_hook_mask r AND mcp_guard_hook_mask (request_hook req) \<noteq> 0"
proof (cases req)
  case (Req_exec bprm)
  then have "r \<in> set (baseline_rules fs port)" "rule_rule_type r = MCP_GUARD_RULE_COMMAND_PREFIX"
    using assms by (auto simp: longest_prefix_rule_def rule_covers_def dest!: best_rule_mem)
  then show ?thesis using baseline_hooks(1) Req_exec by auto
next
  case (Req_open f)
  then have "r \<in> set (baseline_rules fs port)" "rule_rule_type r = MCP_GUARD_RULE_PATH_PREFIX"
    using assms by (auto simp: longest_prefix_rule_def rule_covers_def dest!: best_rule_mem)
  then show ?thesis using baseline_hooks(2) Req_open by auto
next
  case (Req_permission ctx)
  then have "r \<in> set (baseline_rules fs port)" "rule_rule_type r = MCP_GUARD_RULE_PATH_PREFIX"
    using assms by (auto simp: resource_rule_def split: if_splits dest!: find_mem)
  then show ?thesis using baseline_hooks(2) Req_permission by (auto simp: permission_hook_def)
next
  case (Req_connect address)
  then have "r \<in> set (baseline_rules fs port)" "rule_rule_type r = MCP_GUARD_RULE_IPV4_CONNECT"
    using assms by (auto simp: address_rule_def block_rule_def network_covers_def case_prod_beta
        split: option.splits dest!: best_rule_mem)
  then show ?thesis using baseline_hooks(3) Req_connect by auto
qed

text \<open>The requests that the comparison leaves out.\<close>

lemma naive_others:
  assumes config: "nv_config b 0 = Some (naive_config enforce)"
    and path: "get_baseline_scratch tk b = Some path" "length path = MCP_GUARD_PATH_LEN"
    and h: "strings_law h" and req: "\<not> comparable (mirror_maps enforce' rules b') req"
  shows "fst (run_naive h tk req 0 b) = 0 \<and> \<not> baseline_denies fs port req"
proof -
  have allow: "naive_action_ret c MCP_GUARD_ACTION_ALLOW = 0" for c
    by (simp add: naive_action_ret_def)
  have default: "baseline_default_action (get_baseline_config b) = MCP_GUARD_ACTION_ALLOW"
    using config by (simp add: get_baseline_config_def baseline_default_action_def naive_config_def
        baseline_action_valid_def)
  have safe: "file_safe f hook_id (mirror_maps enforce' rules b') = None" for f hook_id
    by (simp add: file_safe_def mcp_l2_file_decide_def mcp_l2_policy_flags_def mirror_maps_def
        mirror_config_def Let_def split: option.split)
  show ?thesis
  proof (cases req)
    case (Req_exec bprm)
    then have name: "exec_name bprm = []" using req by simp
    define path2 where "path2 = mcp_read_bprm_filename h bprm path"
    have "path2 ! 0 = NUL"
      using read_bprm_name [OF h path(2), of bprm] name nth_0_nul [of path2]
      by (fastforce simp: path2_def)
    then have "fst (baseline_command_decide h b2 (get_baseline_config b) (Some path2)) = 0" for b2
      using default by (simp add: baseline_command_decide_def)
    then have "fst (run_naive h tk req 0 b) = 0"
      using path(1) Req_exec allow
      by (simp add: naive_bprm_check_security_def path2_def mcp_read_bprm_filename_def Let_def
          case_prod_beta cong: option.case_cong)
    then show ?thesis using Req_exec name by (auto simp: denied_commands_def)
  next
    case (Req_open f)
    then show ?thesis using req safe by simp
  next
    case (Req_permission ctx)
    obtain f acc where ctx: "ctx = (f, acc)" by (cases ctx)
    have "acc AND 14 = (acc AND 10) OR (acc AND 4)"
      using word_ao_dist2 [of acc 10 4] by simp
    then have "mcp_file_resource_id f = 0 \<or> acc AND 10 = 0 \<and> acc AND 4 = 0"
      using req safe Req_permission by (auto simp: ctx or_eq_0_iff)
    then show ?thesis
      using Req_permission default allow
      by (auto simp: ctx naive_file_permission_def naive_reads Let_def case_prod_beta
          baseline_resource_decide_def \<open>acc AND 14 = (acc AND 10) OR (acc AND 4)\<close>)
  next
    case (Req_connect address)
    then show ?thesis
      using req allow by (simp add: naive_socket_connect_def case_prod_beta)
  qed
qed

section \<open>A running baseline\<close>

text \<open>Each CPU has its buffer, and no program changes the rules.\<close>

definition naive_ready :: "naive_state \<Rightarrow> bool" where
  "naive_ready b \<longleftrightarrow>
     (\<forall>cpu. \<exists>path. nv_scratch b cpu 0 = Some path \<and> length path = MCP_GUARD_PATH_LEN)"

lemma ready_scratch:
  assumes "naive_ready b"
  obtains path where "get_baseline_scratch tk b = Some path" "length path = MCP_GUARD_PATH_LEN"
  using assms unfolding naive_ready_def get_baseline_scratch_def by blast

lemma ready_updates [simp]:
  "naive_ready (snd (naive_ktime h b)) \<longleftrightarrow> naive_ready b"
  "naive_ready (record_metric h tk hook action start b) \<longleftrightarrow> naive_ready b"
  by (simp_all add: naive_ready_def naive_ktime_def record_metric_def Let_def split: option.split)

lemma ready_put:
  "naive_ready b \<Longrightarrow> length path = MCP_GUARD_PATH_LEN \<Longrightarrow> naive_ready (put_baseline_scratch tk path b)"
  by (simp add: naive_ready_def put_baseline_scratch_def)

lemma run_naive_keeps:
  assumes h: "strings_law h" and b: "naive_ready b"
  shows "same_rules b (snd (run_naive h tk req ret b))" "naive_ready (snd (run_naive h tk req ret b))"
proof -
  obtain path where path: "get_baseline_scratch tk b = Some path" "length path = MCP_GUARD_PATH_LEN"
    using b by (rule ready_scratch)
  have lengths: "length (mcp_read_bprm_filename h bprm path) = MCP_GUARD_PATH_LEN"
    "length (snd (mcp_read_file_path h f path)) = MCP_GUARD_PATH_LEN" for bprm f
    using read_bprm_name [OF h path(2)] read_file_path_name [OF h path(2)] by simp_all
  show "same_rules b (snd (run_naive h tk req ret b))"
    by (cases req) (simp_all add: naive_bprm_check_security_def naive_file_open_def
        naive_file_permission_def naive_socket_connect_def naive_reads Let_def case_prod_beta
        split: option.split)
  show "naive_ready (snd (run_naive h tk req ret b))"
  proof (cases req)
    case (Req_exec bprm)
    then show ?thesis
      using b lengths(1) [of bprm] path
      by (simp add: naive_bprm_check_security_def mcp_read_bprm_filename_def ready_put Let_def
          case_prod_beta)
  next
    case (Req_open f)
    then show ?thesis
      using b lengths(2) [of f] path
      by (simp add: naive_file_open_def naive_reads ready_put Let_def case_prod_beta)
  qed (use b in \<open>simp_all add: naive_file_permission_def naive_socket_connect_def Let_def
      case_prod_beta\<close>)
qed

definition run_naives :: "helpers \<Rightarrow> (task \<times> request \<times> c_int) list \<Rightarrow> naive_state \<Rightarrow> naive_state" where
  "run_naives h past b = fold (\<lambda>(tk, req, ret) b. snd (run_naive h tk req ret b)) past b"

lemma run_naives_keep:
  assumes "strings_law h"
  shows "naive_ready b \<Longrightarrow> same_rules b (run_naives h past b) \<and> naive_ready (run_naives h past b)"
proof (induction past arbitrary: b)
  case Nil
  then show ?case by (simp add: run_naives_def)
next
  case (Cons p past)
  obtain tk req ret where p: "p = (tk, req, ret)" by (cases p)
  note step = run_naive_keeps [OF assms Cons.prems, of tk req ret]
  from Cons.IH [OF step(2)] step(1) show ?case
    by (simp add: run_naives_def p same_rules_def)
qed

lemma configured_mirrors:
  assumes "holding rules b0 b" and "nv_config b0 0 = Some (naive_config enforce)"
    and "same_rules b b'"
  shows "mirrors b' (mirror_maps enforce rules b)" "nv_config b' 0 = Some (naive_config enforce)"
  using assms
  by (auto simp: mirrors_def holding_def same_rules_def naive_config_def mirror_maps_def
      mirror_config_def zero_config_def mcp_config_def mcp_guard_action_valid_def)

lemma mirror_verdict:
  assumes "tries_law h" and "holding (baseline_rules fs port) b0 b"
    and req: "comparable (mirror_maps enforce (baseline_rules fs port) b) req"
  shows "d_action (policy_verdict h req (mirror_maps enforce (baseline_rules fs port) b)) =
    (if baseline_denies fs port req then MCP_GUARD_ACTION_DENY else MCP_GUARD_ACTION_ALLOW)"
proof -
  let ?rules = "baseline_rules fs port"
  have safe: "safe_class MCP_GUARD_POLICY_F_SKIP_L2_SAFE f hook_id = None" for f hook_id
    by (simp add: safe_class_def l2_safe_file_def split: option.split)
  have spec: "policy_verdict h req (mirror_maps enforce ?rules b) =
      spec_verdict (mirror_config enforce) ?rules req"
    by (rule guard_implements_spec [OF assms(1) mirror_in_force [OF assms(2)]])
  have decide: "d_action (spec_verdict (mirror_config enforce) ?rules req) =
      (if spec_rule ?rules req = None then MCP_GUARD_ACTION_ALLOW else MCP_GUARD_ACTION_DENY)"
    if "spec_safe (cfg_flags (mirror_config enforce)) req = None"
    using that baseline_rule_facts(6,7) spec_rule_hook
    by (intro spec_verdict_deny) (auto simp: mirror_config_def)
  have flags: "cfg_flags (mirror_config enforce) = MCP_GUARD_POLICY_F_SKIP_L2_SAFE"
    by (simp add: mirror_config_def)
  show ?thesis
  proof (cases req)
    case (Req_connect address)
    then obtain a where a: "address = Some a" using req by auto
    show ?thesis
    proof (cases "sa_family a = MCP_GUARD_AF_INET")
      case True
      then have "spec_rule ?rules req = None \<longleftrightarrow> \<not> baseline_denies fs port req"
        using baseline_spec_None(4) by (simp add: Req_connect a mcp_socket_resource_id_def)
      with spec decide True show ?thesis by (simp add: Req_connect a)
    next
      case False
      then show ?thesis
        using spec by (simp add: Req_connect a spec_verdict_def safe_decision_def)
    qed
  qed (use spec decide req safe baseline_spec_None(1-3) in \<open>auto simp: flags\<close>)
qed

lemma mirror_ret:
  "mcp_action_ret (if P then MCP_GUARD_ACTION_DENY else MCP_GUARD_ACTION_ALLOW)
     (mirror_maps enforce rules b) = (if enforce \<noteq> 0 \<and> P then - MCP_GUARD_DENY_ERRNO else 0)"
  by (auto simp: mcp_action_ret_def mcp_should_block_def mcp_guard_action_valid_def
      mcp_policy_enforced_def mcp_config_def mirror_maps_def mirror_config_def)

text \<open>C32. What the naive baseline enforces: once its loader has configured it, it denies exactly the
  listed programs, files, inodes and port, for every request that follows and whatever ran
  before, and it denies nothing when \<^verbatim>\<open>NAIVE_EBPF_ENFORCE\<close> is 0.\<close>

theorem baseline_configured:
  assumes h: "strings_law h" "tries_law h" and kern: "\<forall>fault. kernel_law fault kern"
    and fds: "naive_fds_ok fds" and b: "naive_created b" "naive_ready b"
  shows "\<exists>b'. naive_main kern getenv fs fds (Some b) 0 = Inr b' \<and>
    (\<forall>past tk req. fst (run_naive h tk req 0 (run_naives h past b')) =
       (if env_u32 getenv ''NAIVE_EBPF_ENFORCE'' 1 \<noteq> 0 \<and>
           baseline_denies fs (env_u32 getenv ''NAIVE_EBPF_DENY_PORT'' 4444) req
        then - MCP_GUARD_DENY_ERRNO else 0))"
proof -
  let ?enforce = "env_u32 getenv ''NAIVE_EBPF_ENFORCE'' 1"
  let ?rules = "baseline_rules fs (env_u32 getenv ''NAIVE_EBPF_DENY_PORT'' 4444)"
  obtain n' b' where conf: "configure_policy kern getenv fs fds (0, b) = (0, n', b')"
    and held: "holding ?rules (b\<lparr>nv_config := (nv_config b)(0 \<mapsto> naive_config ?enforce)\<rparr>) b'"
    by (rule configured_holds [OF kern fds b(1)])
  have ready: "naive_ready b'" using held b(2) by (simp add: holding_def naive_ready_def)
  have "fst (run_naive h tk req 0 (run_naives h past b')) =
      (if ?enforce \<noteq> 0 \<and> baseline_denies fs (env_u32 getenv ''NAIVE_EBPF_DENY_PORT'' 4444) req
       then - MCP_GUARD_DENY_ERRNO else 0)" for past tk req
  proof -
    note keep = run_naives_keep [OF h(1) ready, of past]
    note mirror = configured_mirrors [OF held _ conjunct1 [OF keep], of ?enforce, simplified]
    obtain path where path: "get_baseline_scratch tk (run_naives h past b') = Some path"
      "length path = MCP_GUARD_PATH_LEN" using keep ready_scratch by blast
    let ?s = "mirror_maps ?enforce ?rules b'"
    show ?thesis
    proof (cases "comparable ?s req")
      case True
      from naive_agrees [OF h(1) mirror(1) True path] show ?thesis
        by (simp only: mirror_verdict [OF h(2) held True] mirror_ret)
    next
      case False
      from naive_others [OF mirror(2) path h(1) False] show ?thesis by auto
    qed
  qed
  then show ?thesis using conf by (simp add: naive_main_def)
qed

definition sample_naive_fds :: naive_fds where
  "sample_naive_fds =
     \<lparr>nf_config = 4, nf_path = 5, nf_command = 6, nf_network = 7, nf_resource = 8\<rparr>"

theorem baseline_configured_witness:
  "\<exists>b'. naive_main healthy (\<lambda>name. None) sample_dir sample_naive_fds (Some sample_naive) 0 = Inr b' \<and>
     fst (run_naive reference_helpers sample_task (Req_connect (Some
       \<lparr>sa_family = 2, sin_port = bswap16 4444, sin_addr = 1\<rparr>)) 0 b') = - 13 \<and>
     fst (run_naive reference_helpers sample_task (Req_connect (Some
       \<lparr>sa_family = 2, sin_port = bswap16 443, sin_addr = 1\<rparr>)) 0 b') = 0"
proof -
  have fds: "naive_fds_ok sample_naive_fds" by (simp add: naive_fds_ok_def sample_naive_fds_def)
  have created: "naive_created sample_naive" "naive_ready sample_naive"
    by (simp_all add: naive_created_def naive_ready_def sample_naive_def)
  have law: "\<forall>fault. kernel_law fault healthy" using healthy_law by blast
  from baseline_configured [OF reference_strings_law reference_tries_law law fds created,
      of "\<lambda>name. None" sample_dir]
  obtain b' where "naive_main healthy (\<lambda>name. None) sample_dir sample_naive_fds (Some sample_naive) 0 =
      Inr b'"
    and run: "\<forall>past tk req. fst (run_naive reference_helpers tk req 0
        (run_naives reference_helpers past b')) =
      (if env_u32 (\<lambda>name. None) ''NAIVE_EBPF_ENFORCE'' 1 \<noteq> 0 \<and>
          baseline_denies sample_dir (env_u32 (\<lambda>name. None) ''NAIVE_EBPF_DENY_PORT'' 4444) req
       then - MCP_GUARD_DENY_ERRNO else 0)" by blast
  moreover have "bswap16 (bswap16 4444) = 4444" "bswap16 (bswap16 443) = 443" by code_simp+
  ultimately show ?thesis
    using run [rule_format, where past = "[]"]
    by (intro exI [of _ b']) (simp add: run_naives_def env_u32_def del: run_naive.simps)
qed

end
