(* ===== verification/Ptrace_Monitor.thy ===== *)
theory Ptrace_Monitor
  imports Common
begin

text \<open>
  The ptrace baseline, \<^verbatim>\<open>experiments/baselines/ptrace_monitor/ptrace_monitor.c\<close>: it runs a command
  under \<^verbatim>\<open>ptrace\<close>, follows every process and thread the command creates, and counts their system
  calls by kind.  A tracee stops at the entry and at the exit of a call; the table of tracees
  remembers which of the two comes next.

  What the kernel reports (\<^verbatim>\<open>waitpid\<close>, the event message, the registers) is an input of each step,
  and so is whether \<^verbatim>\<open>realloc\<close> finds memory.  The calls that go to the kernel are logged in their
  order; the program ignores their results, but for a warning on stderr.
\<close>

section \<open>State\<close>

record traced_proc =
  tp_pid :: c_int
  tp_in_syscall :: bool

record counters =
  co_total :: u64
  co_read :: u64
  co_write :: u64
  co_open :: u64
  co_exec :: u64
  co_connect :: u64

datatype ptrace_call =
    Set_options c_int
  | Resume c_int c_int

text \<open>\<open>tr_procs\<close> is the used part of the table: its length is \<^verbatim>\<open>proc_count\<close>.\<close>

record tracer =
  tr_procs :: "traced_proc list"
  tr_cap :: nat
  tr_counters :: counters
  tr_calls :: "ptrace_call list"

definition zero_counters :: counters where
  "zero_counters =
     \<lparr>co_total = 0, co_read = 0, co_write = 0, co_open = 0, co_exec = 0, co_connect = 0\<rparr>"

section \<open>The table of tracees\<close>

fun find_proc :: "c_int \<Rightarrow> traced_proc list \<Rightarrow> nat option" where
  "find_proc pid [] = None"
| "find_proc pid (p # ps) = (if tp_pid p = pid then Some 0 else map_option Suc (find_proc pid ps))"

text \<open>The result is the index of the tracee, or \<open>None\<close> for a null pointer.\<close>

definition add_proc :: "bool \<Rightarrow> c_int \<Rightarrow> tracer \<Rightarrow> nat option \<times> tracer" where
  "add_proc realloc_ok pid t =
     (case find_proc pid (tr_procs t) of
        Some i \<Rightarrow> (Some i, t)
      | None \<Rightarrow>
          let cap =
                (if length (tr_procs t) = tr_cap t
                 then (if \<not> realloc_ok then None
                       else Some (if tr_cap t \<noteq> 0 then tr_cap t * 2 else 16))
                 else Some (tr_cap t))
          in
          (case cap of
             None \<Rightarrow> (None, t)
           | Some next_cap \<Rightarrow>
               (Some (length (tr_procs t)),
                t\<lparr>tr_cap := next_cap,
                  tr_procs := tr_procs t @ [\<lparr>tp_pid = pid, tp_in_syscall = False\<rparr>]\<rparr>)))"

definition remove_proc :: "c_int \<Rightarrow> tracer \<Rightarrow> tracer" where
  "remove_proc pid t =
     (case find_proc pid (tr_procs t) of
        None \<Rightarrow> t
      | Some i \<Rightarrow> t\<lparr>tr_procs := butlast ((tr_procs t)[i := last (tr_procs t)])\<rparr>)"

section \<open>Counting\<close>

text \<open>The call numbers of x86-64, the only machine whose registers the program reads.\<close>

abbreviation (input) SYS_read :: int where "SYS_read \<equiv> 0"
abbreviation (input) SYS_write :: int where "SYS_write \<equiv> 1"
abbreviation (input) SYS_open :: int where "SYS_open \<equiv> 2"
abbreviation (input) SYS_connect :: int where "SYS_connect \<equiv> 42"
abbreviation (input) SYS_execve :: int where "SYS_execve \<equiv> 59"
abbreviation (input) SYS_openat :: int where "SYS_openat \<equiv> 257"
abbreviation (input) SYS_execveat :: int where "SYS_execveat \<equiv> 322"
abbreviation (input) SYS_openat2 :: int where "SYS_openat2 \<equiv> 437"

definition count_syscall :: "int \<Rightarrow> counters \<Rightarrow> counters" where
  "count_syscall nr c0 =
     (let c = c0\<lparr>co_total := co_total c0 + 1\<rparr> in
      if nr = SYS_read then c\<lparr>co_read := co_read c + 1\<rparr>
      else if nr = SYS_write then c\<lparr>co_write := co_write c + 1\<rparr>
      else if nr = SYS_open then c\<lparr>co_open := co_open c + 1\<rparr>
      else if nr = SYS_openat then c\<lparr>co_open := co_open c + 1\<rparr>
      else if nr = SYS_openat2 then c\<lparr>co_open := co_open c + 1\<rparr>
      else if nr = SYS_execve \<or> nr = SYS_execveat then c\<lparr>co_exec := co_exec c + 1\<rparr>
      else if nr = SYS_connect then c\<lparr>co_connect := co_connect c + 1\<rparr>
      else c)"

definition set_options :: "c_int \<Rightarrow> tracer \<Rightarrow> tracer" where
  "set_options pid t = t\<lparr>tr_calls := tr_calls t @ [Set_options pid]\<rparr>"

definition resume_tracee :: "c_int \<Rightarrow> c_int \<Rightarrow> tracer \<Rightarrow> tracer" where
  "resume_tracee pid signal_to_deliver t =
     t\<lparr>tr_calls := tr_calls t @ [Resume pid signal_to_deliver]\<rparr>"

section \<open>The event loop\<close>

text \<open>The status word of \<^verbatim>\<open>waitpid\<close>, as the macros of \<^verbatim>\<open>sys/wait.h\<close> take it apart.\<close>

definition wtermsig :: "u32 \<Rightarrow> u32" where
  "wtermsig status = status AND 0x7f"

definition wexitstatus :: "u32 \<Rightarrow> u32" where
  "wexitstatus status = drop_bit 8 (status AND 0xff00)"

definition wifexited :: "u32 \<Rightarrow> bool" where
  "wifexited status \<longleftrightarrow> wtermsig status = 0"

definition wifsignaled :: "u32 \<Rightarrow> bool" where
  "wifsignaled status \<longleftrightarrow> wtermsig status \<noteq> 0 \<and> wtermsig status \<noteq> 0x7f"

definition wifstopped :: "u32 \<Rightarrow> bool" where
  "wifstopped status \<longleftrightarrow> status AND 0xff = 0x7f"

abbreviation (input) SIGTRAP :: u32 where "SIGTRAP \<equiv> 5"

text \<open>
  What one turn of the loop learns: the tracee and its status; the event message and the number in
  \<^verbatim>\<open>orig_rax\<close>, \<open>None\<close> when the request fails; and whether memory is found for the tracee itself
  and for a new one.
\<close>

record wait_event =
  we_pid :: c_int
  we_status :: u32
  we_msg :: "u64 option"
  we_nr :: "int option"
  we_mem :: bool
  we_mem_new :: bool

text \<open>The parts of the loop's body.\<close>

definition event_stop :: "wait_event \<Rightarrow> tracer \<Rightarrow> tracer" where
  "event_stop ev t =
     (let t1 =
            (case we_msg ev of
               None \<Rightarrow> t
             | Some new_pid \<Rightarrow>
                 if new_pid = 0 then t
                 else
                   let pid = sint (ucast new_pid :: u32) in
                   resume_tracee pid 0 (set_options pid (snd (add_proc (we_mem_new ev) pid t))))
      in resume_tracee (we_pid ev) 0 t1)"

definition syscall_stop :: "wait_event \<Rightarrow> nat option \<Rightarrow> tracer \<Rightarrow> tracer" where
  "syscall_stop ev proc t =
     (case proc of
        None \<Rightarrow> resume_tracee (we_pid ev) 0 t
      | Some i \<Rightarrow>
          let p = tr_procs t ! i;
              t1 =
                (if \<not> tp_in_syscall p
                 then
                   (let t1 =
                          (case we_nr ev of
                             None \<Rightarrow> t
                           | Some nr \<Rightarrow> t\<lparr>tr_counters := count_syscall nr (tr_counters t)\<rparr>)
                    in t1\<lparr>tr_procs := (tr_procs t1)[i := p\<lparr>tp_in_syscall := True\<rparr>]\<rparr>)
                 else t\<lparr>tr_procs := (tr_procs t)[i := p\<lparr>tp_in_syscall := False\<rparr>]\<rparr>)
          in resume_tracee (we_pid ev) 0 t1)"

definition tracee :: "wait_event \<Rightarrow> tracer \<Rightarrow> nat option \<times> tracer" where
  "tracee ev t =
     (case find_proc (we_pid ev) (tr_procs t) of
        Some i \<Rightarrow> (Some i, t)
      | None \<Rightarrow>
          let (proc, t1) = add_proc (we_mem ev) (we_pid ev) t
          in (proc, set_options (we_pid ev) t1))"

definition handle_event :: "c_int \<Rightarrow> wait_event \<Rightarrow> tracer \<times> c_int \<Rightarrow> tracer \<times> c_int" where
  "handle_event child ev x =
     (let (t0, exit_status) = x; pid = we_pid ev; status = we_status ev;
          (proc, t) = tracee ev t0
      in
      if wifexited status
      then (remove_proc pid t,
            if pid = child then uint (wexitstatus status) else exit_status)
      else if wifsignaled status
      then (remove_proc pid t,
            if pid = child then 128 + uint (wtermsig status) else exit_status)
      else if \<not> wifstopped status then (resume_tracee pid 0 t, exit_status)
      else if drop_bit 16 status \<noteq> 0 then (event_stop ev t, exit_status)
      else if wexitstatus status = SIGTRAP OR 0x80 then (syscall_stop ev proc t, exit_status)
      else (resume_tracee pid
              (if wexitstatus status = SIGTRAP then 0 else uint (wexitstatus status)) t, exit_status))"

datatype wait_result =
    Wait_error c_int
  | Wait_event wait_event

text \<open>The loop ends without tracees or by an error other than \<^verbatim>\<open>EINTR\<close>; \<open>None\<close> when the reports
  run out, so that it still waits.\<close>

fun event_loop :: "c_int \<Rightarrow> wait_result list \<Rightarrow> tracer \<times> c_int \<Rightarrow> (tracer \<times> c_int) option" where
  "event_loop child [] (t, exit_status) =
     (if tr_procs t = [] then Some (t, exit_status) else None)"
| "event_loop child (Wait_error errno # results) (t, exit_status) =
     (if tr_procs t = [] then Some (t, exit_status)
      else if errno = 4 then event_loop child results (t, exit_status)
      else if errno = 10 then Some (t, exit_status)
      else Some (t, 1))"
| "event_loop child (Wait_event ev # results) (t, exit_status) =
     (if tr_procs t = [] then Some (t, exit_status)
      else event_loop child results (handle_event child ev (t, exit_status)))"

text \<open>
  \<^verbatim>\<open>main\<close> up to its summary, as the final table and the exit status.  \<open>child\<close> is the result of
  \<^verbatim>\<open>fork\<close>, \<open>first_wait\<close> whether the first \<^verbatim>\<open>waitpid\<close> succeeds, \<open>memory\<close> whether there is
  memory for the first entry.
\<close>

definition monitor ::
  "string list \<Rightarrow> c_int \<Rightarrow> bool \<Rightarrow> bool \<Rightarrow> wait_result list \<Rightarrow> (tracer \<times> c_int) option" where
  "monitor argv child first_wait memory results =
     (let t = \<lparr>tr_procs = [], tr_cap = 0, tr_counters = zero_counters, tr_calls = []\<rparr> in
      if length argv < 3 \<or> argv ! 1 \<noteq> ''--'' then Some (t, 2)
      else if child < 0 \<or> \<not> first_wait then Some (t, 1)
      else
        let t = snd (add_proc memory child t); t = set_options child t; t = resume_tracee child 0 t
        in event_loop child results (t, 0))"

section \<open>What it counts\<close>

text \<open>The kinds of report, and the calls in the order of the reports, latest first: a tracee that is
  not in a call enters one at its next stop of that kind.\<close>

definition is_gone :: "wait_event \<Rightarrow> bool" where
  "is_gone ev \<longleftrightarrow> wifexited (we_status ev) \<or> wifsignaled (we_status ev)"

definition is_syscall_stop :: "wait_event \<Rightarrow> bool" where
  "is_syscall_stop ev \<longleftrightarrow> wifstopped (we_status ev) \<and> drop_bit 16 (we_status ev) = 0 \<and>
     wexitstatus (we_status ev) = SIGTRAP OR 0x80"

fun in_call :: "wait_event list \<Rightarrow> c_int \<Rightarrow> bool" where
  "in_call [] pid \<longleftrightarrow> False"
| "in_call (ev # past) pid \<longleftrightarrow>
     (if we_pid ev \<noteq> pid then in_call past pid
      else \<not> is_gone ev \<and> (in_call past pid \<noteq> is_syscall_stop ev))"

fun entered :: "wait_event list \<Rightarrow> int list" where
  "entered [] = []"
| "entered (ev # past) =
     (if is_syscall_stop ev \<and> \<not> in_call past (we_pid ev)
      then (case we_nr ev of None \<Rightarrow> entered past | Some nr \<Rightarrow> nr # entered past)
      else entered past)"

abbreviation pids :: "tracer \<Rightarrow> c_int list" where
  "pids t \<equiv> map tp_pid (tr_procs t)"

definition tracks :: "wait_event list \<Rightarrow> tracer \<Rightarrow> bool" where
  "tracks past t \<longleftrightarrow>
     distinct (pids t) \<and> length (tr_procs t) \<le> tr_cap t \<and>
     (\<forall>p \<in> set (tr_procs t). tp_in_syscall p = in_call past (tp_pid p)) \<and>
     (\<forall>pid. pid \<notin> set (pids t) \<longrightarrow> \<not> in_call past pid) \<and>
     tr_counters t = foldr count_syscall (entered past) zero_counters"

lemma find_proc_None: "find_proc pid ps = None \<longleftrightarrow> pid \<notin> tp_pid ` set ps"
  by (induction ps) auto

lemma find_proc_Some: "find_proc pid ps = Some i \<Longrightarrow> i < length ps \<and> tp_pid (ps ! i) = pid"
  by (induction ps arbitrary: i) (auto split: if_splits simp: nth_Cons split: nat.split)

lemma tracks_calls [simp]:
  "tracks past (set_options pid t) \<longleftrightarrow> tracks past t"
  "tracks past (resume_tracee pid sig t) \<longleftrightarrow> tracks past t"
  "tr_procs (set_options pid t) = tr_procs t" "tr_procs (resume_tracee pid sig t) = tr_procs t"
  by (simp_all add: tracks_def set_options_def resume_tracee_def)

lemma add_proc_tracks:
  assumes "tracks past t"
  shows "tracks past (snd (add_proc mem pid t))"
    "mem \<Longrightarrow> \<exists>i. fst (add_proc mem pid t) = Some i \<and> i < length (tr_procs (snd (add_proc mem pid t))) \<and>
       tp_pid (tr_procs (snd (add_proc mem pid t)) ! i) = pid"
proof -
  have "pid \<notin> set (pids t)" if "find_proc pid (tr_procs t) = None"
    using that by (simp add: find_proc_None)
  then show "tracks past (snd (add_proc mem pid t))"
    using assms by (auto simp: add_proc_def tracks_def Let_def split: option.split)
  show "\<exists>i. fst (add_proc mem pid t) = Some i \<and> i < length (tr_procs (snd (add_proc mem pid t))) \<and>
       tp_pid (tr_procs (snd (add_proc mem pid t)) ! i) = pid" if mem
    using that by (auto simp: add_proc_def Let_def nth_append dest: find_proc_Some split: option.split)
qed

text \<open>The last entry takes the place of the removed one.\<close>

lemma fill_hole:
  assumes "distinct (map f xs)" and "i < length xs"
  shows "distinct (map f (butlast (xs[i := last xs])))"
    "set (butlast (xs[i := last xs])) = set xs - {xs ! i}"
proof -
  obtain ys y where xs: "xs = ys @ [y]" using assms(2) by (cases xs rule: rev_cases) auto
  have d: "distinct ys" "y \<notin> set ys" "f y \<notin> f ` set ys" "distinct (map f ys)"
    using assms(1) by (auto simp: xs distinct_map)
  show "set (butlast (xs[i := last xs])) = set xs - {xs ! i}"
    using assms(2) d by (auto simp: xs butlast_list_update nth_append set_update_distinct)
  show "distinct (map f (butlast (xs[i := last xs])))"
  proof (cases "i = length ys")
    case True
    then show ?thesis using d by (simp add: xs butlast_list_update)
  next
    case False
    then have "distinct ((map f ys)[i := f y])" using d by (intro distinct_list_update) auto
    then show ?thesis using False by (simp add: xs butlast_list_update map_update)
  qed
qed

lemma stopped_status: "wifstopped status \<Longrightarrow> wtermsig status = 0x7f"
proof -
  assume "wifstopped status"
  then have "(status AND 0xff) AND 0x7f = 0x7f" by (simp add: wifstopped_def)
  then show "wtermsig status = 0x7f" unfolding wtermsig_def by (subst (asm) and.assoc) simp
qed

lemma gone_no_stop: "is_gone ev \<Longrightarrow> \<not> wifstopped (we_status ev)"
  using stopped_status by (auto simp: is_gone_def wifexited_def wifsignaled_def)

lemma tracks_gone:
  assumes "is_gone ev"
  shows "entered (ev # past) = entered past"
    "in_call (ev # past) pid \<longleftrightarrow> pid \<noteq> we_pid ev \<and> in_call past pid"
  using assms gone_no_stop [of ev] by (auto simp: is_syscall_stop_def)

lemma remove_proc_tracks:
  assumes t: "tracks past t" and gone: "is_gone ev"
  shows "tracks (ev # past) (remove_proc (we_pid ev) t)"
proof (cases "find_proc (we_pid ev) (tr_procs t)")
  case None
  then have "we_pid ev \<notin> set (pids t)" by (simp add: find_proc_None)
  then show ?thesis
    using t None
    by (auto simp: tracks_def remove_proc_def tracks_gone [OF gone] simp del: in_call.simps entered.simps)
next
  case (Some i)
  note found = find_proc_Some [OF Some]
  have d: "distinct (pids t)" using t by (simp add: tracks_def)
  note hole = fill_hole [OF d conjunct1 [OF found]]
  have rest: "tp_pid p \<noteq> we_pid ev" if "p \<in> set (tr_procs t) - {tr_procs t ! i}" for p
    using that found d by (auto simp: distinct_map inj_on_def)
  have "\<not> in_call past pid"
    if "pid \<notin> tp_pid ` (set (tr_procs t) - {tr_procs t ! i})" "pid \<noteq> we_pid ev" for pid
  proof -
    have "pid \<notin> set (pids t)" using that found by auto
    then show ?thesis using t by (simp add: tracks_def)
  qed
  then show ?thesis
    using t hole rest
    by (auto simp: tracks_def remove_proc_def Some tracks_gone [OF gone]
        simp del: in_call.simps entered.simps)
qed

text \<open>A report that is no stop at a call leaves the table as it is.\<close>

lemma tracks_other:
  assumes "\<not> is_gone ev" and "\<not> is_syscall_stop ev"
  shows "tracks (ev # past) t \<longleftrightarrow> tracks past t"
  using assms by (auto simp: tracks_def)

lemma syscall_stop_tracks:
  assumes t: "tracks past t" and i: "i < length (tr_procs t)" "tp_pid (tr_procs t ! i) = we_pid ev"
    and ev: "is_syscall_stop ev" "\<not> is_gone ev"
  shows "tracks (ev # past) (syscall_stop ev (Some i) t)"
proof -
  let ?p = "tr_procs t ! i"
  have p: "tp_in_syscall ?p = in_call past (we_pid ev)"
    using t i by (auto simp: tracks_def)
  define procs where "procs = (tr_procs t)[i := ?p\<lparr>tp_in_syscall := \<not> tp_in_syscall ?p\<rparr>]"
  have pids: "map tp_pid procs = pids t"
    using i by (intro nth_equalityI) (auto simp: procs_def nth_list_update)
  have state: "tp_in_syscall q = in_call (ev # past) (tp_pid q)" if "q \<in> set procs" for q
  proof -
    from that obtain j where j: "j < length (tr_procs t)" "q = procs ! j"
      by (auto simp: in_set_conv_nth procs_def)
    show ?thesis
    proof (cases "j = i")
      case True
      then show ?thesis using j i p ev by (simp add: procs_def)
    next
      case False
      have "distinct (pids t)" using t by (simp add: tracks_def)
      from nth_eq_iff_index_eq [OF this, of j i] False
      have "tp_pid (tr_procs t ! j) \<noteq> we_pid ev" using i j(1) by simp
      moreover have "tp_in_syscall (tr_procs t ! j) = in_call past (tp_pid (tr_procs t ! j))"
        using t j by (simp add: tracks_def)
      ultimately show ?thesis using False j by (simp add: procs_def)
    qed
  qed
  have others: "\<not> in_call (ev # past) pid" if "pid \<notin> set (pids t)" for pid
  proof -
    have "we_pid ev \<in> set (pids t)" using i nth_mem [of i "pids t"] by simp
    then have "pid \<noteq> we_pid ev" using that by blast
    then show ?thesis using that t by (simp add: tracks_def)
  qed
  define t' where "t' = syscall_stop ev (Some i) t"
  have "tr_procs t' = procs" "tr_cap t' = tr_cap t"
    "tr_counters t' = foldr count_syscall (entered (ev # past)) zero_counters"
    using t p ev
    by (auto simp: t'_def syscall_stop_def Let_def procs_def resume_tracee_def tracks_def
        split: option.split)
  moreover have "length procs = length (tr_procs t)" by (simp add: procs_def)
  ultimately show ?thesis
    using t pids state others unfolding t'_def [symmetric] tracks_def
    by (metis (no_types, lifting))
qed

lemma event_stop_tracks: "tracks past t \<Longrightarrow> tracks past (event_stop ev t)"
  by (auto simp: event_stop_def Let_def add_proc_tracks split: option.split)

lemma handle_event_tracks:
  assumes t: "tracks past t" and mem: "we_mem ev"
  shows "tracks (ev # past) (fst (handle_event child ev (t, exit_status)))"
proof -
  obtain i t1 where look: "tracee ev t = (Some i, t1)" and t1: "tracks past t1"
    and i: "i < length (tr_procs t1)" "tp_pid (tr_procs t1 ! i) = we_pid ev"
  proof (cases "find_proc (we_pid ev) (tr_procs t)")
    case None
    with add_proc_tracks [OF t, of "we_mem ev" "we_pid ev"] mem that show thesis
      by (auto simp: tracee_def case_prod_beta)
  next
    case (Some i)
    then show thesis using that t find_proc_Some [OF Some] by (simp add: tracee_def)
  qed
  have "tracks (ev # past) (fst (handle_event child ev (t, exit_status)))" if "is_gone ev"
    using remove_proc_tracks [OF t1 that] that
    by (auto simp: handle_event_def Let_def look is_gone_def)
  moreover have "tracks (ev # past) (fst (handle_event child ev (t, exit_status)))"
    if "\<not> is_gone ev" "is_syscall_stop ev"
    using syscall_stop_tracks [OF t1 i that(2,1)] that
    by (auto simp: handle_event_def Let_def look is_gone_def is_syscall_stop_def)
  moreover have "tracks (ev # past) (fst (handle_event child ev (t, exit_status)))"
    if "\<not> is_gone ev" "\<not> is_syscall_stop ev"
    using t1 event_stop_tracks [OF t1] that tracks_other [OF that]
    by (auto simp: handle_event_def Let_def look is_gone_def is_syscall_stop_def)
  ultimately show ?thesis by blast
qed

fun events_of_results :: "wait_result list \<Rightarrow> wait_event list" where
  "events_of_results [] = []"
| "events_of_results (Wait_error errno # rs) = events_of_results rs"
| "events_of_results (Wait_event ev # rs) = ev # events_of_results rs"

text \<open>Why the loop has ended.\<close>

definition wait_failed :: "wait_result list \<Rightarrow> bool" where
  "wait_failed results \<longleftrightarrow>
     (case results of Wait_error errno # _ \<Rightarrow> errno \<noteq> 4 | _ \<Rightarrow> False)"

lemma event_loop_tracks:
  assumes "event_loop child results (t, st) = Some (t', st')" and "tracks past t"
    and "\<forall>ev \<in> set (events_of_results results). we_mem ev"
  shows "\<exists>handled rest. results = handled @ rest \<and>
    tracks (rev (events_of_results handled) @ past) t' \<and> (tr_procs t' = [] \<or> wait_failed rest)"
  using assms
proof (induction child results "(t, st)" arbitrary: t st past rule: event_loop.induct)
  case (1 child t st)
  then show ?case by (auto split: if_splits)
next
  case (2 child errno results t st)
  show ?case
  proof (cases "tr_procs t \<noteq> [] \<and> errno = 4")
    case True
    then have again: "tr_procs t \<noteq> []" "errno = 4" by simp_all
    have loop: "event_loop child results (t, st) = Some (t', st')" using 2(2) again by simp
    have "\<forall>ev \<in> set (events_of_results results). we_mem ev" using 2(4) by simp
    from "2.hyps" [OF again loop 2(3) this] obtain handled rest where "results = handled @ rest"
      "tracks (rev (events_of_results handled) @ past) t'" "tr_procs t' = [] \<or> wait_failed rest"
      by blast
    then show ?thesis by (intro exI [of _ "Wait_error errno # handled"] exI [of _ rest]) simp
  next
    case False
    then have "t' = t" "tr_procs t = [] \<or> errno \<noteq> 4"
      using 2 by (auto split: if_splits)
    then show ?thesis
      using 2 by (intro exI [of _ "[]"] exI [of _ "Wait_error errno # results"])
        (auto simp: wait_failed_def)
  qed
next
  case (3 child ev results t st)
  show ?case
  proof (cases "tr_procs t = []")
    case True
    then show ?thesis
      using 3 by (intro exI [of _ "[]"] exI [of _ "Wait_event ev # results"]) auto
  next
    case False
    obtain t1 st1 where step: "handle_event child ev (t, st) = (t1, st1)"
      by (cases "handle_event child ev (t, st)")
    have t1: "tracks (ev # past) t1"
      using handle_event_tracks [OF 3(3), of ev child st] 3(4) step by simp
    have loop: "event_loop child results (t1, st1) = Some (t', st')"
      using 3(2) False step by simp
    have "\<forall>ev \<in> set (events_of_results results). we_mem ev" using 3(4) by simp
    from "3.hyps" [OF False step loop t1 this] obtain handled rest
      where "results = handled @ rest"
      "tracks (rev (events_of_results handled) @ ev # past) t'" "tr_procs t' = [] \<or> wait_failed rest"
      by blast
    then show ?thesis by (intro exI [of _ "Wait_event ev # handled"] exI [of _ rest]) simp
  qed
qed

text \<open>No tracee is left stopped: the last call of a turn resumes the tracee that reported.  A signal
  other than \<^verbatim>\<open>SIGTRAP\<close> is passed on, the \<^verbatim>\<open>SIGSTOP\<close> that a new tracee starts with included.\<close>

definition signal_passed :: "wait_event \<Rightarrow> c_int" where
  "signal_passed ev =
     (if wifstopped (we_status ev) \<and> drop_bit 16 (we_status ev) = 0 \<and> \<not> is_syscall_stop ev \<and>
         wexitstatus (we_status ev) \<noteq> SIGTRAP
      then uint (wexitstatus (we_status ev)) else 0)"

lemma resume_last:
  "last (tr_calls (resume_tracee pid sig t)) = Resume pid sig"
  "last (tr_calls (event_stop ev t)) = Resume (we_pid ev) 0"
  "last (tr_calls (syscall_stop ev proc t)) = Resume (we_pid ev) 0"
  by (simp_all add: resume_tracee_def event_stop_def syscall_stop_def Let_def split: option.split)

lemma report_resumes:
  assumes "\<not> is_gone ev"
  shows "last (tr_calls (fst (handle_event child ev (t, st)))) = Resume (we_pid ev) (signal_passed ev)"
  using assms
  by (auto simp: handle_event_def signal_passed_def is_syscall_stop_def is_gone_def Let_def
      case_prod_beta resume_last)

lemma new_tracee_stops_itself:
  assumes "we_status ev = 0x137f"
  shows "last (tr_calls (fst (handle_event child ev (t, st)))) = Resume (we_pid ev) 19"
proof -
  have "wifstopped 0x137f" "\<not> wifexited 0x137f" "\<not> wifsignaled 0x137f" "wexitstatus 0x137f = 19"
    by (simp_all add: wifstopped_def wifexited_def wifsignaled_def wtermsig_def wexitstatus_def)
  then show ?thesis
    using report_resumes [of ev child t st] assms
    by (simp add: is_gone_def signal_passed_def is_syscall_stop_def)
qed

text \<open>The counters, spelled out.\<close>

lemma counters_of:
  fixes nrs :: "int list"
  defines "c \<equiv> foldr count_syscall nrs zero_counters"
  shows "co_total c = of_nat (length nrs)"
    "co_read c = of_nat (count_list nrs SYS_read)"
    "co_write c = of_nat (count_list nrs SYS_write)"
    "co_open c = of_nat (count_list nrs SYS_open + count_list nrs SYS_openat + count_list nrs SYS_openat2)"
    "co_exec c = of_nat (count_list nrs SYS_execve + count_list nrs SYS_execveat)"
    "co_connect c = of_nat (count_list nrs SYS_connect)"
  unfolding c_def by (induction nrs) (simp_all add: count_syscall_def zero_counters_def Let_def)

text \<open>C33. What the ptrace baseline reports: of the reports it has handled when its loop ends, it has
  counted each call of each tracee once, at its entry, under the right kind; the loop ends when no
  tracee is left or a wait fails, and the table never holds a tracee twice.\<close>

theorem ptrace_counts:
  assumes run: "monitor argv child True True results = Some (t, status)"
    and "length argv \<ge> 3" and "argv ! 1 = ''--''" and "0 \<le> child"
    and mem: "\<forall>ev \<in> set (events_of_results results). we_mem ev"
  shows "\<exists>handled rest. results = handled @ rest \<and> (tr_procs t = [] \<or> wait_failed rest) \<and>
    distinct (map tp_pid (tr_procs t)) \<and>
    (let nrs = entered (rev (events_of_results handled)); c = tr_counters t in
       co_total c = of_nat (length nrs) \<and>
       co_read c = of_nat (count_list nrs SYS_read) \<and>
       co_write c = of_nat (count_list nrs SYS_write) \<and>
       co_open c = of_nat (count_list nrs SYS_open + count_list nrs SYS_openat +
         count_list nrs SYS_openat2) \<and>
       co_exec c = of_nat (count_list nrs SYS_execve + count_list nrs SYS_execveat) \<and>
       co_connect c = of_nat (count_list nrs SYS_connect))"
proof -
  define t0 where "t0 = resume_tracee child 0 (set_options child (snd (add_proc True child
    \<lparr>tr_procs = [], tr_cap = 0, tr_counters = zero_counters, tr_calls = []\<rparr>)))"
  have "tracks [] \<lparr>tr_procs = [], tr_cap = 0, tr_counters = zero_counters, tr_calls = []\<rparr>"
    by (simp add: tracks_def)
  then have "tracks [] t0" by (simp add: t0_def add_proc_tracks(1))
  moreover have "event_loop child results (t0, 0) = Some (t, status)"
    using assms(1-4) by (simp add: monitor_def t0_def Let_def)
  ultimately obtain handled rest where "results = handled @ rest" "tr_procs t = [] \<or> wait_failed rest"
    "tracks (rev (events_of_results handled)) t"
    using event_loop_tracks [of child results t0 0 t status "[]"] mem by auto
  then show ?thesis
    by (intro exI [of _ handled] exI [of _ rest]) (simp add: tracks_def counters_of)
qed

text \<open>A command that enters \<^verbatim>\<open>openat\<close>, leaves it, and exits with status 3.\<close>

definition sample_reports :: "wait_result list" where
  "sample_reports =
     [Wait_event \<lparr>we_pid = 7, we_status = 0x857f, we_msg = None, we_nr = Some 257, we_mem = True,
        we_mem_new = True\<rparr>,
      Wait_event \<lparr>we_pid = 7, we_status = 0x857f, we_msg = None, we_nr = Some 257, we_mem = True,
        we_mem_new = True\<rparr>,
      Wait_event \<lparr>we_pid = 7, we_status = 0x300, we_msg = None, we_nr = None, we_mem = True,
        we_mem_new = True\<rparr>]"

theorem ptrace_counts_witness:
  "\<exists>t. monitor [''ptrace_monitor'', ''--'', ''true''] 7 True True sample_reports = Some (t, 3) \<and>
     (\<exists>handled rest. sample_reports = handled @ rest \<and> (tr_procs t = [] \<or> wait_failed rest) \<and>
        co_total (tr_counters t) = of_nat (length (entered (rev (events_of_results handled)))))"
proof -
  have "map_option snd (monitor [''ptrace_monitor'', ''--'', ''true''] 7 True True sample_reports) = Some 3"
    by code_simp
  then obtain t where t: "monitor [''ptrace_monitor'', ''--'', ''true''] 7 True True sample_reports =
      Some (t, 3)" by auto
  moreover have "\<forall>ev \<in> set (events_of_results sample_reports). we_mem ev"
    by (simp add: sample_reports_def)
  ultimately show ?thesis
    using ptrace_counts [OF t] by (auto simp: Let_def)
qed

end
