(* ===== verification/Workload.thy ===== *)
theory Workload
  imports Json
begin

text \<open>
  The file workload of the experiments,
  \<^verbatim>\<open>experiments/baselines/workloads/baseline_file_io_workload.c\<close>: it opens files and reads or
  writes one byte at a time, and counts what the guard under test allows and denies.

  The system calls are an oracle: a call's result is a function of its number.  \<^verbatim>\<open>getopt_long\<close> is
  its sequence of results, and whether \<^verbatim>\<open>mkdtemp\<close> succeeds is an argument.
\<close>

section \<open>Options\<close>

datatype workload_mode = MODE_WARM | MODE_COLD

record workload_options =
  wo_events :: u64
  wo_followup_per_open :: u64
  wo_mode :: workload_mode

definition parse_u64 :: "string \<Rightarrow> u64 \<Rightarrow> u64" where
  "parse_u64 val fallback =
     (if val = [] then fallback
      else
        let (errno, parsed, endp) = strtoul 10 val in
        if errno \<noteq> 0 \<or> endp \<noteq> [] then fallback else of_nat parsed)"

text \<open>The loop over the options: \<open>Inl 0\<close> when \<^verbatim>\<open>--help\<close> ends the program, \<open>Inl (- 1)\<close> for an error.\<close>

fun workload_args_loop ::
  "(char \<times> string) list \<Rightarrow> workload_options \<Rightarrow> c_int + workload_options" where
  "workload_args_loop [] opts = Inr opts"
| "workload_args_loop ((ch, optarg) # rest) opts =
     (if ch = CHR ''e''
      then workload_args_loop rest (opts\<lparr>wo_events := parse_u64 optarg (wo_events opts)\<rparr>)
      else if ch = CHR ''w'' then
        if optarg = ''warm'' then workload_args_loop rest (opts\<lparr>wo_mode := MODE_WARM\<rparr>)
        else if optarg = ''cold'' then workload_args_loop rest (opts\<lparr>wo_mode := MODE_COLD\<rparr>)
        else Inl (- 1)
      else if ch = CHR ''f''
      then workload_args_loop rest
        (opts\<lparr>wo_followup_per_open := parse_u64 optarg (wo_followup_per_open opts)\<rparr>)
      else if ch = CHR ''h'' then Inl 0
      else Inl (- 1))"

definition parse_workload_args :: "(char \<times> string) list \<Rightarrow> c_int + workload_options" where
  "parse_workload_args args =
     (case workload_args_loop args
             \<lparr>wo_events = 10000, wo_followup_per_open = 10000, wo_mode = MODE_WARM\<rparr> of
        Inl code \<Rightarrow> Inl code
      | Inr opts \<Rightarrow>
          let opts = (if wo_events opts = 0 then opts\<lparr>wo_events := 1\<rparr> else opts)
          in Inr (if wo_followup_per_open opts = 0 then opts\<lparr>wo_followup_per_open := 1\<rparr> else opts))"

section \<open>The workload\<close>

record workload_counts =
  wc_allow :: u64
  wc_deny :: u64
  wc_fail :: u64
  wc_open_events :: u64
  wc_read_events :: u64
  wc_write_events :: u64

text \<open>\<^verbatim>\<open>open\<close>, \<^verbatim>\<open>read\<close> and \<^verbatim>\<open>write\<close> return their value and \<^verbatim>\<open>errno\<close>; \<open>io_seek\<close> is whether \<^verbatim>\<open>lseek\<close> succeeds.\<close>

record workload_io =
  io_open :: "nat \<Rightarrow> string \<Rightarrow> c_int \<times> c_int"
  io_seek :: "nat \<Rightarrow> bool"
  io_transfer :: "nat \<Rightarrow> int \<times> c_int"

type_synonym workload = "nat \<times> workload_counts"

abbreviation (input) EACCES :: c_int where "EACCES \<equiv> 13"

definition count_refused :: "c_int \<Rightarrow> workload_counts \<Rightarrow> workload_counts" where
  "count_refused errno c =
     (if errno = EACCES then c\<lparr>wc_deny := wc_deny c + 1\<rparr> else c\<lparr>wc_fail := wc_fail c + 1\<rparr>)"

definition do_read_write :: "workload_io \<Rightarrow> u64 \<Rightarrow> workload \<Rightarrow> c_int \<times> workload" where
  "do_read_write io idx x =
     (let (n, c) = x in
      if \<not> io_seek io n then (- 1, Suc n, c)
      else
        let (rc, errno) = io_transfer io (Suc n);
            c = (if idx mod 2 = 0 then c\<lparr>wc_read_events := wc_read_events c + 1\<rparr>
                 else c\<lparr>wc_write_events := wc_write_events c + 1\<rparr>)
        in
        if rc < 0 then (- 1, Suc (Suc n), count_refused errno c)
        else (0, Suc (Suc n), c\<lparr>wc_allow := wc_allow c + 1\<rparr>))"

text \<open>The reads and writes of one open file; their results are ignored.\<close>

definition followups :: "workload_io \<Rightarrow> u64 \<Rightarrow> workload \<Rightarrow> workload" where
  "followups io ops = fold (\<lambda>i x. snd (do_read_write io (of_nat i) x)) [0..<unat ops]"

definition workload_file :: "string \<Rightarrow> string \<Rightarrow> u64 \<Rightarrow> string" where
  "workload_file base kind i = take 511 (base @ ''/'' @ kind @ ''_'' @ decimal (unat i) @ ''.dat'')"

text \<open>A turn ends with \<^verbatim>\<open>close\<close> and \<^verbatim>\<open>unlink\<close>.  The loop need not end when \<open>followup\<close> is 0.\<close>

partial_function (option) run_warm_loop ::
  "workload_io \<Rightarrow> string \<Rightarrow> u64 \<Rightarrow> u64 \<Rightarrow> u64 \<Rightarrow> workload \<Rightarrow> (c_int \<times> workload) option" where
  "run_warm_loop io base followup remaining seq x =
     (let (n, c) = x in
      if remaining > 0 then
        let ops = (if followup > remaining then remaining else followup);
            (fd, errno) = io_open io n (workload_file base ''warm'' seq);
            c = c\<lparr>wc_open_events := wc_open_events c + 1\<rparr>
        in
        if fd < 0 then Some (- 1, Suc n, count_refused errno c)
        else
          let (n, c) = followups io ops (Suc n, c)
          in run_warm_loop io base followup (remaining - ops) (seq + 1) (n + 2, c)
      else Some (if wc_fail c \<noteq> 0 then - 1 else 0, n, c))"

definition run_warm ::
  "workload_io \<Rightarrow> workload_options \<Rightarrow> string \<Rightarrow> workload \<Rightarrow> (c_int \<times> workload) option" where
  "run_warm io opts base x =
     run_warm_loop io base (wo_followup_per_open opts) (wo_events opts) 0 x"

definition cold_event :: "workload_io \<Rightarrow> string \<Rightarrow> nat \<Rightarrow> workload \<Rightarrow> workload" where
  "cold_event io base i x =
     (let (n, c) = x;
          (fd, errno) = io_open io n (workload_file base ''cold'' (of_nat i));
          c = c\<lparr>wc_open_events := wc_open_events c + 1\<rparr>
      in
      if fd < 0 then (Suc n, count_refused errno c)
      else let (n, c) = snd (do_read_write io (of_nat i) (Suc n, c)) in (n + 2, c))"

definition run_cold :: "workload_io \<Rightarrow> workload_options \<Rightarrow> string \<Rightarrow> workload \<Rightarrow> c_int \<times> workload" where
  "run_cold io opts base x =
     (let (n, c) = fold (cold_event io base) [0..<unat (wo_events opts)] x
      in (if wc_fail c \<noteq> 0 then - 1 else 0, n, c))"

definition zero_counts :: workload_counts where
  "zero_counts =
     \<lparr>wc_allow = 0, wc_deny = 0, wc_fail = 0, wc_open_events = 0, wc_read_events = 0,
      wc_write_events = 0\<rparr>"

text \<open>\<^verbatim>\<open>main\<close>: the exit status and the counts it prints.\<close>

definition workload_main ::
  "workload_io \<Rightarrow> (char \<times> string) list \<Rightarrow> string option \<Rightarrow> (c_int \<times> workload_counts) option" where
  "workload_main io args temp_dir =
     (case parse_workload_args args of
        Inl code \<Rightarrow> Some (if code = 0 then 0 else 2, zero_counts)
      | Inr opts \<Rightarrow>
          (case temp_dir of
             None \<Rightarrow> Some (1, zero_counts)
           | Some base \<Rightarrow>
               map_option (\<lambda>(rc, n, c). (if rc = 0 then 0 else 1, c))
                 (if wo_mode opts = MODE_WARM then run_warm io opts base (0, zero_counts)
                  else Some (run_cold io opts base (0, zero_counts)))))"

section \<open>The workload ends\<close>

lemma parsed_options:
  assumes "parse_workload_args args = Inr opts"
  shows "wo_events opts \<noteq> 0" "wo_followup_per_open opts \<noteq> 0"
  using assms by (auto simp: parse_workload_args_def Let_def split: sum.splits if_splits)

text \<open>One turn uses up at least one event.\<close>

lemma turn_decreases:
  fixes followup remaining :: u64
  assumes "followup \<noteq> 0" and "remaining \<noteq> 0"
  shows "unat (remaining - (if followup > remaining then remaining else followup)) < unat remaining"
proof -
  let ?ops = "if followup > remaining then remaining else followup"
  have "?ops \<le> remaining" "unat ?ops \<noteq> 0" using assms by (auto simp: unat_eq_zero)
  moreover have "unat remaining \<noteq> 0" using assms(2) by (simp add: unat_eq_zero)
  ultimately show ?thesis by (simp add: unat_sub word_le_nat_alt)
qed

lemma run_warm_ends:
  assumes "followup \<noteq> 0"
  shows "\<exists>y. run_warm_loop io base followup remaining seq x = Some y"
proof (induction "unat remaining" arbitrary: remaining seq x rule: less_induct)
  case less
  show ?case
  proof (cases "remaining = 0")
    case True
    then show ?thesis by (subst run_warm_loop.simps) (simp add: case_prod_beta)
  next
    case False
    from less [OF turn_decreases [OF assms False]] False show ?thesis
      by (subst run_warm_loop.simps) (auto simp: Let_def case_prod_beta word_gt_0)
  qed
qed

section \<open>What a workload that is allowed counts\<close>

definition adds :: "nat \<Rightarrow> nat \<Rightarrow> nat \<Rightarrow> workload_counts \<Rightarrow> workload_counts" where
  "adds opens reads writes c =
     c\<lparr>wc_allow := wc_allow c + of_nat (reads + writes),
       wc_open_events := wc_open_events c + of_nat opens,
       wc_read_events := wc_read_events c + of_nat reads,
       wc_write_events := wc_write_events c + of_nat writes\<rparr>"

lemma adds_simps [simp]:
  "adds 0 0 0 c = c"
  "adds a b d (adds a' b' d' c) = adds (a + a') (b + b') (d + d') c"
  "wc_fail (adds a b d c) = wc_fail c"
  by (simp_all add: adds_def algebra_simps)

lemma adds_open: "c\<lparr>wc_open_events := wc_open_events c + 1\<rparr> = adds 1 0 0 c"
  by (simp add: adds_def)

definition all_allowed :: "workload_io \<Rightarrow> bool" where
  "all_allowed io \<longleftrightarrow>
     (\<forall>n. io_seek io n \<and> 0 \<le> fst (io_transfer io n) \<and> (\<forall>path. 0 \<le> fst (io_open io n path)))"

lemma do_read_write_allowed:
  assumes "all_allowed io"
  shows "do_read_write io (of_nat i) (n, c) =
    (0, Suc (Suc n), adds 0 (if even i then 1 else 0) (if even i then 0 else 1) c)"
proof -
  have "(of_nat i :: u64) mod 2 = 0 \<longleftrightarrow> even i"
    by (metis even_iff_mod_2_eq_zero even_of_nat)
  then show ?thesis
    using assms
    by (auto simp: do_read_write_def all_allowed_def adds_def Let_def case_prod_beta not_less [symmetric])
qed

lemma followups_allowed:
  assumes "all_allowed io"
  obtains n' where "followups io ops (n, c) = (n', adds 0 ((unat ops + 1) div 2) (unat ops div 2) c)"
proof -
  have "\<exists>n'. fold (\<lambda>i x. snd (do_read_write io (of_nat i) x)) [0..<k] (n, c) =
      (n', adds 0 ((k + 1) div 2) (k div 2) c)" for k
    by (induction k) (auto simp: do_read_write_allowed [OF assms])
  then show thesis using that unfolding followups_def by blast
qed

text \<open>The number of files a warm workload opens.\<close>

definition groups :: "nat \<Rightarrow> nat \<Rightarrow> nat" where
  "groups events followup = (events + followup - 1) div followup"

lemma groups_step:
  assumes "0 < f" and "0 < e"
  shows "groups e f = Suc (groups (e - min f e) f)"
proof -
  have "groups e f = ((e - 1) + f) div f"
    unfolding groups_def by (rule arg_cong [of _ _ "\<lambda>n. n div f"]) (use assms in simp)
  also have "\<dots> = Suc ((e - 1) div f)" using assms(1) div_add_self2 [of f "e - 1"] by simp
  finally have whole: "groups e f = Suc ((e - 1) div f)" .
  show ?thesis
  proof (cases "f < e")
    case True
    then have "e - min f e + f - 1 = e - 1" by simp
    then show ?thesis unfolding whole by (simp only: groups_def)
  next
    case False
    then have "(e - 1) div f = 0" "(e - min f e + f - 1) div f = 0" using assms by simp_all
    then show ?thesis unfolding whole by (simp only: groups_def)
  qed
qed

lemma run_warm_allowed:
  assumes "all_allowed io" and "followup \<noteq> 0"
  shows "\<exists>n' r w. run_warm_loop io base followup remaining seq (n, c) =
      Some (if wc_fail c \<noteq> 0 then - 1 else 0, n', adds (groups (unat remaining) (unat followup)) r w c) \<and>
    r + w = unat remaining"
proof (induction "unat remaining" arbitrary: remaining seq n c rule: less_induct)
  case less
  have f: "0 < unat followup" using assms(2) by (simp add: word_gt_0 unat_gt_0)
  show ?case
  proof (cases "remaining = 0")
    case True
    then show ?thesis using f by (subst run_warm_loop.simps) (simp add: groups_def)
  next
    case False
    define ops where "ops = (if followup > remaining then remaining else followup)"
    have ops: "ops \<le> remaining" "unat ops = min (unat followup) (unat remaining)"
      by (auto simp: ops_def min_def word_less_nat_alt word_le_nat_alt)
    obtain n1 where n1: "followups io ops (Suc n, adds 1 0 0 c) =
        (n1, adds 0 ((unat ops + 1) div 2) (unat ops div 2) (adds 1 0 0 c))"
      using followups_allowed [OF assms(1)] by blast
    have rest: "unat (remaining - ops) = unat remaining - unat ops"
      using ops(1) by (simp add: unat_sub word_le_nat_alt)
    have groups: "groups (unat remaining) (unat followup) =
        Suc (groups (unat (remaining - ops)) (unat followup))"
      using groups_step [OF f, of "unat remaining"] False
      by (simp add: rest ops(2) word_gt_0 unat_gt_0)
    have step: "run_warm_loop io base followup remaining seq (n, c) =
        run_warm_loop io base followup (remaining - ops) (seq + 1)
          (n1 + 2, adds 1 ((unat ops + 1) div 2) (unat ops div 2) c)"
      using assms(1) False n1
      by (subst run_warm_loop.simps)
        (auto simp: ops_def [symmetric] adds_open all_allowed_def Let_def case_prod_beta word_gt_0
          not_less [symmetric])
    from less [OF turn_decreases [OF assms(2) False], folded ops_def,
        of "seq + 1" "n1 + 2" "adds 1 ((unat ops + 1) div 2) (unat ops div 2) c"]
    obtain n' r w where "run_warm_loop io base followup remaining seq (n, c) =
        Some (if wc_fail c \<noteq> 0 then - 1 else 0, n', adds (groups (unat remaining) (unat followup))
          (r + (unat ops + 1) div 2) (w + unat ops div 2) c)"
      and sum: "r + w = unat (remaining - ops)"
      by (auto simp: step groups)
    moreover have "(r + (unat ops + 1) div 2) + (w + unat ops div 2) = unat remaining"
    proof -
      have "(unat ops + 1) div 2 + unat ops div 2 = unat ops" by presburger
      moreover have "unat ops \<le> unat remaining" using ops(1) by (simp add: word_le_nat_alt)
      ultimately show ?thesis using sum rest by linarith
    qed
    ultimately show ?thesis by blast
  qed
qed

lemma run_cold_allowed:
  assumes "all_allowed io"
  shows "\<exists>n' r w. run_cold io opts base (n, c) =
      (if wc_fail c \<noteq> 0 then - 1 else 0, n', adds (unat (wo_events opts)) r w c) \<and>
    r + w = unat (wo_events opts)"
proof -
  have event: "cold_event io base i (n, c) =
      (Suc (Suc (Suc n)) + 2, adds 1 (if even i then 1 else 0) (if even i then 0 else 1) c)" for i n c
    using assms
    by (auto simp: cold_event_def do_read_write_allowed [OF assms] adds_open all_allowed_def Let_def
        case_prod_beta not_less [symmetric])
  have "\<exists>n' r w. fold (cold_event io base) [0..<k] (n, c) = (n', adds k r w c) \<and> r + w = k" for k
  proof (induction k)
    case 0
    show ?case by (auto intro: exI [of _ 0])
  next
    case (Suc k)
    then obtain n' r w where "fold (cold_event io base) [0..<k] (n, c) = (n', adds k r w c)" "r + w = k"
      by blast
    then show ?case
      by (intro exI [of _ "Suc (Suc (Suc n')) + 2"] exI [of _ "r + (if even k then 1 else 0)"]
          exI [of _ "w + (if even k then 0 else 1)"]) (simp add: event)
  qed
  then show ?thesis unfolding run_cold_def by (metis (no_types, lifting) adds_simps(3) old.prod.case)
qed

section \<open>Properties\<close>

text \<open>C34. A workload ends, whatever the guard refuses and whatever numbers are given on the command
  line; and when nothing is refused it succeeds, with one read or write and one allowed event per
  requested event, and a file opened for each event (cold) or for each group of them (warm).\<close>

theorem workload_counts_events:
  assumes args: "parse_workload_args args = Inr opts"
  shows "\<exists>status c. workload_main io args (Some base) = Some (status, c) \<and>
    (all_allowed io \<longrightarrow> status = 0 \<and> wc_allow c = wo_events opts \<and> wc_deny c = 0 \<and>
       wc_fail c = 0 \<and> wc_read_events c + wc_write_events c = wo_events opts \<and>
       wc_open_events c =
         (if wo_mode opts = MODE_COLD then wo_events opts
          else of_nat (groups (unat (wo_events opts)) (unat (wo_followup_per_open opts)))))"
proof -
  define x where "x = (if wo_mode opts = MODE_WARM then run_warm io opts base (0, zero_counts)
    else Some (run_cold io opts base (0, zero_counts)))"
  have "\<exists>y. x = Some y"
    using run_warm_ends [OF parsed_options(2) [OF args], of io base "wo_events opts" 0 "(0, zero_counts)"]
    by (cases "run_cold io opts base (0, zero_counts)") (auto simp: x_def run_warm_def)
  then obtain rc n c where x: "x = Some (rc, n, c)" by auto
  have main: "workload_main io args (Some base) = Some (if rc = 0 then 0 else 1, c)"
    using x by (simp add: workload_main_def args x_def)
  have "rc = 0 \<and> (\<exists>o' r w. c = adds o' r w zero_counts \<and> r + w = unat (wo_events opts) \<and>
      o' = (if wo_mode opts = MODE_COLD then unat (wo_events opts)
            else groups (unat (wo_events opts)) (unat (wo_followup_per_open opts))))"
    if io: "all_allowed io"
  proof (cases "wo_mode opts")
    case MODE_WARM
    then show ?thesis
      using run_warm_allowed [OF io parsed_options(2) [OF args], of base "wo_events opts" 0 0 zero_counts] x
      by (auto simp: x_def run_warm_def zero_counts_def)
  next
    case MODE_COLD
    then show ?thesis
      using run_cold_allowed [OF io, of opts base 0 zero_counts] x
      by (auto simp: x_def zero_counts_def)
  qed
  moreover have "of_nat r + of_nat w = wo_events opts" if "r + w = unat (wo_events opts)" for r w
  proof -
    have "of_nat r + of_nat w = (of_nat (unat (wo_events opts)) :: u64)" by (simp flip: that)
    then show ?thesis by simp
  qed
  ultimately show ?thesis
    using main by (auto simp: adds_def zero_counts_def)
qed

definition sample_io :: workload_io where
  "sample_io = \<lparr>io_open = (\<lambda>n path. (3, 0)), io_seek = (\<lambda>n. True), io_transfer = (\<lambda>n. (1, 0))\<rparr>"

theorem workload_counts_events_witness:
  "\<exists>c. workload_main sample_io [(CHR ''e'', ''25''), (CHR ''f'', ''10'')] (Some ''/tmp/x'') = Some (0, c) \<and>
     wc_allow c = 25 \<and> wc_open_events c = 3"
proof -
  have "parse_workload_args [(CHR ''e'', ''25''), (CHR ''f'', ''10'')] =
      Inr \<lparr>wo_events = 25, wo_followup_per_open = 10, wo_mode = MODE_WARM\<rparr>"
    by (simp add: parse_workload_args_def parse_u64_def strtoul_def skip_sign_def digits_value_def
        is_digit_def digit_value_def c_isspace_def Let_def)
  from workload_counts_events [OF this, of sample_io "''/tmp/x''"] obtain status c
    where "workload_main sample_io [(CHR ''e'', ''25''), (CHR ''f'', ''10'')] (Some ''/tmp/x'') =
      Some (status, c)"
    and "all_allowed sample_io \<Longrightarrow> status = 0 \<and> wc_allow c = 25 \<and>
      wc_open_events c = of_nat (groups 25 10)" by auto
  moreover have "all_allowed sample_io" by (simp add: all_allowed_def sample_io_def)
  moreover have "groups 25 10 = 3" by (simp add: groups_def)
  ultimately show ?thesis by (intro exI [of _ c]) simp
qed

end
