(* ===== verification/Event_Server.thy ===== *)
theory Event_Server
  imports Json Boot "HOL-Library.Multiset"
begin

text \<open>
  \<^verbatim>\<open>loader/unix_socket_server.c\<close>: the Unix socket on which the daemon publishes events,
  metrics and reload results as lines of JSON to at most 16 clients.

  The sockets of the kernel are a record: the connections that wait to be accepted, the outcome
  of each \<^verbatim>\<open>write\<close>, the lines handed to a successful \<^verbatim>\<open>write\<close> so far, the bytes it took of them, and
  the descriptors closed so far.  The program does not ask how many bytes a \<^verbatim>\<open>write\<close> took.
\<close>

section \<open>Names\<close>

definition hook_name :: "u32 \<Rightarrow> string" where
  "hook_name hook_id =
     (if hook_id = MCP_GUARD_HOOK_EXEC then ''exec''
      else if hook_id = MCP_GUARD_HOOK_FILE_OPEN then ''file_open''
      else if hook_id = MCP_GUARD_HOOK_FILE_READ then ''file_read''
      else if hook_id = MCP_GUARD_HOOK_FILE_WRITE then ''file_write''
      else if hook_id = MCP_GUARD_HOOK_SOCKET_CONNECT then ''socket_connect''
      else ''unknown'')"

definition action_name :: "u32 \<Rightarrow> string" where
  "action_name action =
     (if action = MCP_GUARD_ACTION_DENY then ''deny''
      else if action = MCP_GUARD_ACTION_AUDIT then ''audit''
      else if action = MCP_GUARD_ACTION_ALLOW then ''allow''
      else ''unknown'')"

definition layer_name :: "u32 \<Rightarrow> string" where
  "layer_name layer =
     (if layer = MCP_GUARD_LAYER_L1 then ''L1''
      else if layer = MCP_GUARD_LAYER_L2 then ''L2''
      else if layer = MCP_GUARD_LAYER_L3 then ''L3''
      else ''unknown'')"

section \<open>The server\<close>

abbreviation (input) MCP_GUARD_MAX_CLIENTS :: nat where "MCP_GUARD_MAX_CLIENTS \<equiv> 16"

record mcp_unix_socket_server =
  srv_fd :: c_int
  srv_clients :: "c_int list"
  srv_path :: string

record sockets =
  sk_pending :: "c_int list"
  sk_write :: "nat \<Rightarrow> c_int"
  sk_writes :: nat
  sk_lines :: "(c_int \<times> string) list"
  sk_bytes :: "(c_int \<times> string) list"
  sk_closed :: "c_int list"
  sk_unlinked :: "string list"

type_synonym serving = "mcp_unix_socket_server \<times> sockets"

text \<open>The outcomes of the system calls that open the server; an \<open>errno\<close> of 0 is success.\<close>

record server_env =
  se_calloc :: bool
  se_socket :: "c_int + c_int"
  se_bind :: c_int
  se_listen :: c_int
  se_nonblock :: c_int

definition close_client :: "nat \<Rightarrow> serving \<Rightarrow> serving" where
  "close_client index x =
     (let (server, w) = x in
      (server\<lparr>srv_clients := (srv_clients server)[index := - 1]\<rparr>,
       w\<lparr>sk_closed := sk_closed w @ [srv_clients server ! index]\<rparr>))"

fun free_slot :: "c_int list \<Rightarrow> nat option" where
  "free_slot [] = None"
| "free_slot (c # cs) = (if c < 0 then Some 0 else map_option Suc (free_slot cs))"

text \<open>The loop over the waiting connections; it returns when \<^verbatim>\<open>accept\<close> fails.\<close>

fun accept_loop :: "c_int list \<Rightarrow> serving \<Rightarrow> serving" where
  "accept_loop [] (server, w) = (server, w\<lparr>sk_pending := []\<rparr>)"
| "accept_loop (client # pending) (server, w) =
     (if client < 0 then (server, w\<lparr>sk_pending := pending\<rparr>)
      else
        case free_slot (srv_clients server) of
          None \<Rightarrow> accept_loop pending (server, w\<lparr>sk_closed := sk_closed w @ [client]\<rparr>)
        | Some slot \<Rightarrow>
            accept_loop pending
              (server\<lparr>srv_clients := (srv_clients server)[slot := client]\<rparr>, w))"

definition mcp_unix_socket_server_accept :: "serving \<Rightarrow> serving" where
  "mcp_unix_socket_server_accept x = accept_loop (sk_pending (snd x)) x"

text \<open>\<^verbatim>\<open>write\<close> to a client: it returns -1 or the number of bytes that the socket has taken.\<close>

definition write_client :: "string \<Rightarrow> nat \<Rightarrow> serving \<Rightarrow> serving" where
  "write_client line i x =
     (let (server, w) = x;
          client = srv_clients server ! i
      in
      if client < 0 then x
      else
        let ret = sk_write w (sk_writes w);
            w1 = w\<lparr>sk_writes := Suc (sk_writes w)\<rparr>
        in
        if ret < 0 then close_client i (server, w1)
        else (server, w1\<lparr>sk_lines := sk_lines w1 @ [(client, line)],
                         sk_bytes := sk_bytes w1 @ [(client, take (nat ret) line)]\<rparr>))"

definition publish_line :: "string \<Rightarrow> serving \<Rightarrow> serving" where
  "publish_line line x =
     (if line = [] then x
      else fold (write_client line) [0..<MCP_GUARD_MAX_CLIENTS] (mcp_unix_socket_server_accept x))"

definition stop_client :: "nat \<Rightarrow> serving \<Rightarrow> serving" where
  "stop_client i x = (if 0 \<le> srv_clients (fst x) ! i then close_client i x else x)"

definition mcp_unix_socket_server_stop :: "serving \<Rightarrow> sockets" where
  "mcp_unix_socket_server_stop x =
     (let (server, w) =
            fold stop_client [0..<MCP_GUARD_MAX_CLIENTS] x;
          w1 = (if 0 \<le> srv_fd server then w\<lparr>sk_closed := sk_closed w @ [srv_fd server]\<rparr> else w)
      in if srv_path server \<noteq> [] then w1\<lparr>sk_unlinked := sk_unlinked w1 @ [srv_path server]\<rparr>
         else w1)"

text \<open>The size of \<^verbatim>\<open>sun_path\<close> is 108.\<close>

definition mcp_unix_socket_server_start ::
  "server_env \<Rightarrow> string \<Rightarrow> sockets \<Rightarrow> (c_int + mcp_unix_socket_server) \<times> sockets" where
  "mcp_unix_socket_server_start env path w =
     (if \<not> se_calloc env then (Inl (- 12), w)
      else
        case se_socket env of
          Inl errno \<Rightarrow> (Inl (- errno), w)
        | Inr fd \<Rightarrow>
            let server = \<lparr>srv_fd = fd, srv_clients = replicate MCP_GUARD_MAX_CLIENTS (- 1),
                          srv_path = take 107 path\<rparr>;
                w1 = w\<lparr>sk_unlinked := sk_unlinked w @ [srv_path server]\<rparr>
            in
            if se_bind env \<noteq> 0
            then (Inl (- se_bind env), mcp_unix_socket_server_stop (server, w1))
            else if se_listen env \<noteq> 0
            then (Inl (- se_listen env), mcp_unix_socket_server_stop (server, w1))
            else if se_nonblock env \<noteq> 0
            then (Inl (se_nonblock env), mcp_unix_socket_server_stop (server, w1))
            else (Inr server, w1))"

section \<open>Lines\<close>

text \<open>
  \<^verbatim>\<open>snprintf\<close> into a buffer of \<open>n\<close> bytes, of which \<open>len\<close> bytes are written to the clients.  A
  text that does not fit would make them read past the buffer: \<open>None\<close>.
\<close>

definition formatted :: "nat \<Rightarrow> string \<Rightarrow> string option" where
  "formatted n t = (if length t < n then Some t else None)"

definition publish_formatted :: "nat \<Rightarrow> string \<Rightarrow> serving \<Rightarrow> serving option" where
  "publish_formatted n t x = map_option (\<lambda>line. publish_line line x) (formatted n t)"

definition event_line :: "mcp_event \<Rightarrow> string" where
  \<open>event_line event =
     ''{"type":"event","ts_ns":'' @ decimal (unat (ev_ts_ns event)) @
     '',"pid":'' @ decimal (unat (ev_pid event)) @
     '',"uid":'' @ decimal (unat (ev_uid event)) @
     '',"hook":"'' @ hook_name (ev_hook_id event) @
     ''","profile_id":'' @ decimal (unat (ev_profile_id event)) @
     '',"agent_id":'' @ decimal (unat (ev_agent_id event)) @
     '',"action":"'' @ action_name (ev_action event) @
     ''","layer":"'' @ layer_name (ev_layer event) @
     ''","duration_ns":'' @ decimal (unat (ev_duration_ns event)) @
     '',"rule_id":'' @ decimal (unat (ev_rule_id event)) @
     '',"error":'' @ decimal (unat (ev_error event)) @
     '',"path":"'' @ cstr (ev_path event) @
     ''","rule":"'' @ cstr (ev_rule_name event) @
     ''","port":'' @ decimal (unat (ev_port event)) @ ''}'' @ [CHR 0x0A]\<close>

definition mcp_unix_socket_server_publish :: "mcp_event \<Rightarrow> serving \<Rightarrow> serving option" where
  "mcp_unix_socket_server_publish event = publish_formatted 768 (event_line event)"

text \<open>\<open>ratio a b\<close> is what \<^verbatim>\<open>%.6f\<close> prints for the quotient of two counts.\<close>

definition metrics_line ::
  "(u64 \<Rightarrow> u64 \<Rightarrow> string) \<Rightarrow> u64 \<Rightarrow> u64 \<Rightarrow> u64 \<Rightarrow> u64 \<Rightarrow> string" where
  \<open>metrics_line ratio total_count l1_count l2_count l3_count =
     (let share = (\<lambda>count. if total_count \<noteq> 0 then ratio count total_count else ''0.000000'') in
      ''{"type":"metrics_snapshot","total_count":'' @ decimal (unat total_count) @
      '',"layers":{"L1":'' @ decimal (unat l1_count) @ '',"L2":'' @ decimal (unat l2_count) @
      '',"L3":'' @ decimal (unat l3_count) @
      ''},"ratios":{"L1":'' @ share l1_count @ '',"L2":'' @ share l2_count @
      '',"L3":'' @ share l3_count @ ''}}'' @ [CHR 0x0A])\<close>

definition mcp_unix_socket_server_publish_metrics ::
  "(u64 \<Rightarrow> u64 \<Rightarrow> string) \<Rightarrow> u64 \<Rightarrow> u64 \<Rightarrow> u64 \<Rightarrow> u64 \<Rightarrow> serving \<Rightarrow> serving option" where
  "mcp_unix_socket_server_publish_metrics ratio total_count l1_count l2_count l3_count =
     publish_formatted 512 (metrics_line ratio total_count l1_count l2_count l3_count)"

definition reload_line :: "bool \<Rightarrow> u32 \<Rightarrow> u32 \<Rightarrow> u64 \<Rightarrow> string \<Rightarrow> string" where
  \<open>reload_line success rule_count active_generation epoch error =
     ''{"type":"reload_result","success":'' @ (if success then ''true'' else ''false'') @
     '',"rule_count":'' @ decimal (unat rule_count) @
     '',"active_generation":'' @ decimal (unat active_generation) @
     '',"epoch":'' @ decimal (unat epoch) @ '',"error":"'' @ error @ ''"}'' @ [CHR 0x0A]\<close>

definition mcp_unix_socket_server_publish_reload ::
  "bool \<Rightarrow> u32 \<Rightarrow> u32 \<Rightarrow> u64 \<Rightarrow> string \<Rightarrow> serving \<Rightarrow> serving option" where
  "mcp_unix_socket_server_publish_reload success rule_count active_generation epoch error =
     publish_formatted 512 (reload_line success rule_count active_generation epoch error)"

section \<open>Client slots\<close>

abbreviation live :: "c_int list \<Rightarrow> c_int list" where
  "live clients \<equiv> filter (\<lambda>c. 0 \<le> c) clients"

text \<open>The connections one run of \<^verbatim>\<open>accept\<close> takes from the queue.\<close>

definition arriving :: "sockets \<Rightarrow> c_int list" where
  "arriving w = takeWhile (\<lambda>c. 0 \<le> c) (sk_pending w)"

lemma free_slot_Some:
  assumes "free_slot cs = Some i"
  shows "i < length cs" "cs ! i < 0" "\<forall>j < i. 0 \<le> cs ! j"
proof -
  have "i < length cs \<and> cs ! i < 0 \<and> (\<forall>j < i. 0 \<le> cs ! j)"
    using assms
  proof (induction cs arbitrary: i)
    case Nil
    then show ?case by simp
  next
    case (Cons c cs)
    show ?case
    proof (cases "c < 0")
      case True
      then show ?thesis using Cons.prems by simp
    next
      case False
      then obtain k where "free_slot cs = Some k" "i = Suc k" using Cons.prems by auto
      with Cons.IH [of k] False show ?thesis
        by (auto simp: less_Suc_eq_0_disj nth_Cons split: nat.split)
    qed
  qed
  then show "i < length cs" "cs ! i < 0" "\<forall>j < i. 0 \<le> cs ! j" by blast+
qed

lemma live_update:
  assumes "i < length cs"
  shows "mset (live (cs[i := c])) + (if 0 \<le> cs ! i then {#cs ! i#} else {#}) =
    mset (live cs) + (if 0 \<le> c then {#c#} else {#})"
proof -
  have "cs = take i cs @ cs ! i # drop (Suc i) cs" using assms by (rule id_take_nth_drop)
  moreover have "cs[i := c] = take i cs @ c # drop (Suc i) cs"
    using assms by (rule upd_conv_take_nth_drop)
  ultimately have "live (cs[i := c]) = live (take i cs) @ live [c] @ live (drop (Suc i) cs)"
    "live cs = live (take i cs) @ live [cs ! i] @ live (drop (Suc i) cs)"
    by (metis append_Cons append_Nil filter_append)+
  then show ?thesis by simp
qed

text \<open>What the sockets owe: every descriptor is held by a slot or closed.\<close>

definition owned :: "serving \<Rightarrow> c_int multiset" where
  "owned x = mset (live (srv_clients (fst x))) + mset (sk_closed (snd x))"

lemma close_client_owned:
  assumes "i < length (srv_clients server)" and "0 \<le> srv_clients server ! i"
  shows "owned (close_client i (server, w)) = owned (server, w)"
  using live_update [OF assms(1), of "- 1"] assms(2)
  by (simp add: owned_def close_client_def)

lemma accept_loop_ok:
  "length (srv_clients (fst (accept_loop pending x))) = length (srv_clients (fst x)) \<and>
   owned (accept_loop pending x) = owned x + mset (takeWhile (\<lambda>c. 0 \<le> c) pending) \<and>
   sk_lines (snd (accept_loop pending x)) = sk_lines (snd x) \<and>
   sk_bytes (snd (accept_loop pending x)) = sk_bytes (snd x) \<and>
   sk_write (snd (accept_loop pending x)) = sk_write (snd x)"
proof (induction pending x rule: accept_loop.induct)
  case (1 server w)
  then show ?case by (simp add: owned_def)
next
  case (2 client pending server w)
  show ?case
  proof (cases "client < 0")
    case True
    then show ?thesis by (simp add: owned_def)
  next
    case False
    show ?thesis
    proof (cases "free_slot (srv_clients server)")
      case None
      then show ?thesis using 2(1) [OF False None] False by (simp add: owned_def)
    next
      case (Some slot)
      note slot = free_slot_Some [OF Some]
      show ?thesis
        using 2(2) [OF False Some] False slot live_update [OF slot(1), of client]
        by (simp add: Some owned_def)
    qed
  qed
qed

lemma write_client_frame:
  "j \<noteq> i \<Longrightarrow> srv_clients (fst (write_client line i x)) ! j = srv_clients (fst x) ! j"
  "length (srv_clients (fst (write_client line i x))) = length (srv_clients (fst x))"
  by (simp_all add: write_client_def close_client_def Let_def case_prod_beta)

lemma write_client_ok:
  assumes "i < length (srv_clients (fst x))"
  shows "owned (write_client line i x) = owned x \<and>
    sk_lines (snd (write_client line i x)) = sk_lines (snd x) @
      map (\<lambda>c. (c, line)) (live [srv_clients (fst (write_client line i x)) ! i])"
proof (cases x)
  case (Pair server w)
  then show ?thesis
    using assms close_client_owned [of i server] 
    by (auto simp: write_client_def close_client_def owned_def Let_def)
qed

lemma write_all_ok:
  assumes "n \<le> length (srv_clients (fst x))"
  shows "owned (fold (write_client line) [0..<n] x) = owned x \<and>
    length (srv_clients (fst (fold (write_client line) [0..<n] x))) = length (srv_clients (fst x)) \<and>
    sk_lines (snd (fold (write_client line) [0..<n] x)) = sk_lines (snd x) @
      map (\<lambda>c. (c, line)) (live (take n (srv_clients (fst (fold (write_client line) [0..<n] x)))))"
  using assms
proof (induction n)
  case 0
  then show ?case by simp
next
  case (Suc n)
  define y where "y = fold (write_client line) [0..<n] x"
  define z where "z = write_client line n y"
  have y: "owned y = owned x" "length (srv_clients (fst y)) = length (srv_clients (fst x))"
    "sk_lines (snd y) = sk_lines (snd x) @ map (\<lambda>c. (c, line)) (live (take n (srv_clients (fst y))))"
    using Suc by (simp_all add: y_def)
  have n: "n < length (srv_clients (fst y))" using Suc.prems y(2) by simp
  have "take n (srv_clients (fst z)) = take n (srv_clients (fst y))"
    by (rule nth_take_lemma)
      (use n write_client_frame in \<open>auto simp: z_def\<close>)
  then have "take (Suc n) (srv_clients (fst z)) =
      take n (srv_clients (fst y)) @ [srv_clients (fst z) ! n]"
    using n write_client_frame(2) by (simp add: take_Suc_conv_app_nth z_def)
  moreover have "fold (write_client line) [0..<Suc n] x = z" by (simp add: z_def y_def)
  ultimately show ?case
    using write_client_ok [OF n, of line] y write_client_frame(2) [of line n y]
    by (simp add: z_def del: upt_Suc)
qed

lemma accept_ok:
  "length (srv_clients (fst (mcp_unix_socket_server_accept x))) = length (srv_clients (fst x))"
  "owned (mcp_unix_socket_server_accept x) = owned x + mset (arriving (snd x))"
  "sk_lines (snd (mcp_unix_socket_server_accept x)) = sk_lines (snd x)"
  "sk_bytes (snd (mcp_unix_socket_server_accept x)) = sk_bytes (snd x)"
  "sk_write (snd (mcp_unix_socket_server_accept x)) = sk_write (snd x)"
  using accept_loop_ok [of "sk_pending (snd x)" x]
  by (simp_all add: mcp_unix_socket_server_accept_def arriving_def)

lemma stop_clients:
  assumes "n \<le> length (srv_clients (fst x))"
  shows "owned (fold stop_client [0..<n] x) = owned x \<and>
    srv_fd (fst (fold stop_client [0..<n] x)) = srv_fd (fst x) \<and>
    length (srv_clients (fst (fold stop_client [0..<n] x))) = length (srv_clients (fst x)) \<and>
    live (take n (srv_clients (fst (fold stop_client [0..<n] x)))) = []"
  using assms
proof (induction n)
  case 0
  then show ?case by simp
next
  case (Suc n)
  define y where "y = fold stop_client [0..<n] x"
  have y: "owned y = owned x" "srv_fd (fst y) = srv_fd (fst x)"
    "length (srv_clients (fst y)) = length (srv_clients (fst x))"
    "live (take n (srv_clients (fst y))) = []"
    using Suc by (simp_all add: y_def)
  have n: "n < length (srv_clients (fst y))" using Suc.prems y(3) by simp
  obtain server w where yw: "y = (server, w)" by (cases y)
  have "owned (stop_client n y) = owned y"
    using close_client_owned [of n server w] n by (simp add: stop_client_def yw)
  moreover have "srv_fd (fst (stop_client n y)) = srv_fd (fst y)"
    "length (srv_clients (fst (stop_client n y))) = length (srv_clients (fst y))"
    "live (take (Suc n) (srv_clients (fst (stop_client n y)))) = live (take n (srv_clients (fst y)))"
    using n by (simp_all add: stop_client_def yw close_client_def take_Suc_conv_app_nth)
  moreover have "fold stop_client [0..<Suc n] x = stop_client n y" by (simp add: y_def)
  ultimately show ?case using y by (simp del: upt_Suc)
qed

lemma stop_ok:
  assumes "length (srv_clients (fst x)) = MCP_GUARD_MAX_CLIENTS"
  shows "mset (sk_closed (mcp_unix_socket_server_stop x)) =
    owned x + mset (live [srv_fd (fst x)])"
proof -
  define y where "y = fold stop_client [0..<MCP_GUARD_MAX_CLIENTS] x"
  have "16 \<le> length (srv_clients (fst x))" using assms by simp
  note c = stop_clients [OF this, folded y_def]
  have y: "owned y = owned x" "srv_fd (fst y) = srv_fd (fst x)" using c by blast+
  have "length (srv_clients (fst y)) = 16" using c assms by metis
  then have "live (srv_clients (fst y)) = []" using c by (metis order_refl take_all)
  with y(1,2) show ?thesis
    unfolding mcp_unix_socket_server_stop_def y_def [symmetric]
    by (auto simp: owned_def Let_def case_prod_beta)
qed

section \<open>Lengths\<close>

lemma decimal_length: "n < 10 ^ k \<Longrightarrow> 0 < k \<Longrightarrow> length (decimal n) \<le> k"
proof (induction n arbitrary: k rule: decimal.induct)
  case (1 n)
  show ?case
  proof (cases "n < 10")
    case True
    then show ?thesis using 1 by (simp add: decimal.simps)
  next
    case False
    then obtain j where k: "k = Suc j" "0 < j" using 1(2,3) by (cases k; cases "k - 1") auto
    then have "n div 10 < 10 ^ j" using 1(2) by (simp add: less_mult_imp_div_less mult.commute)
    then show ?thesis using 1(1) [OF False _ k(2)] False k(1) by (simp add: decimal.simps [of n])
  qed
qed

lemma decimal_bits:
  "length (decimal (unat (w64 :: u64))) \<le> 20" "length (decimal (unat (w32 :: u32))) \<le> 10"
  "length (decimal (unat (w16 :: u16))) \<le> 5"
proof -
  have "unat w64 < 2 ^ 64" "unat w32 < 2 ^ 32" "unat w16 < 2 ^ 16"
    using unsigned_less [of w64, where ?'a = nat] unsigned_less [of w32, where ?'a = nat]
      unsigned_less [of w16, where ?'a = nat] by simp_all
  then show "length (decimal (unat w64)) \<le> 20" "length (decimal (unat w32)) \<le> 10"
    "length (decimal (unat w16)) \<le> 5"
    by (simp_all add: decimal_length)
qed

lemma name_lengths:
  "length (hook_name h) \<le> 14" "length (action_name a) \<le> 7" "length (layer_name l) \<le> 7"
  by (simp_all add: hook_name_def action_name_def layer_name_def)

lemma event_line_length:
  assumes "length (ev_path event) = MCP_GUARD_PATH_LEN"
    and "length (ev_rule_name event) = MCP_GUARD_RULE_NAME_LEN"
  shows "length (event_line event) < 768"
proof -
  have "length (cstr (ev_path event)) \<le> 256" "length (cstr (ev_rule_name event)) \<le> 64"
    using length_cstr [of "ev_path event"] length_cstr [of "ev_rule_name event"] assms by simp_all
  then show ?thesis
    using name_lengths(1) [of "ev_hook_id event"] name_lengths(2) [of "ev_action event"]
      name_lengths(3) [of "ev_layer event"]
      decimal_bits(1) [of "ev_ts_ns event"] decimal_bits(1) [of "ev_duration_ns event"]
      decimal_bits(2) [of "ev_pid event"] decimal_bits(2) [of "ev_uid event"]
      decimal_bits(2) [of "ev_profile_id event"] decimal_bits(2) [of "ev_agent_id event"]
      decimal_bits(2) [of "ev_rule_id event"] decimal_bits(2) [of "ev_error event"]
      decimal_bits(3) [of "ev_port event"]
    by (simp add: event_line_def)
qed

lemma publish_line_lines:
  assumes "length (srv_clients (fst x)) = MCP_GUARD_MAX_CLIENTS" and "line \<noteq> []"
  shows "sk_lines (snd (publish_line line x)) = sk_lines (snd x) @
    map (\<lambda>c. (c, line)) (live (srv_clients (fst (publish_line line x))))"
  using write_all_ok [of 16 "mcp_unix_socket_server_accept x" line] accept_ok [of x] assms
  by (simp add: publish_line_def)

text \<open>Sockets with room for the whole line take it.\<close>

definition takes_all :: "string \<Rightarrow> sockets \<Rightarrow> bool" where
  "takes_all line w \<longleftrightarrow> (\<forall>n. 0 \<le> sk_write w n \<longrightarrow> length line \<le> nat (sk_write w n))"

lemma write_all_bytes:
  assumes "takes_all line (snd x)"
  shows "\<exists>new. sk_write (snd (fold (write_client line) [0..<n] x)) = sk_write (snd x) \<and>
    sk_lines (snd (fold (write_client line) [0..<n] x)) = sk_lines (snd x) @ new \<and>
    sk_bytes (snd (fold (write_client line) [0..<n] x)) = sk_bytes (snd x) @ new"
proof (induction n)
  case 0
  show ?case by simp
next
  case (Suc n)
  define y where "y = fold (write_client line) [0..<n] x"
  obtain new where y: "sk_write (snd y) = sk_write (snd x)" "sk_lines (snd y) = sk_lines (snd x) @ new"
    "sk_bytes (snd y) = sk_bytes (snd x) @ new"
    using Suc by (auto simp: y_def)
  have "\<exists>more. sk_write (snd (write_client line n y)) = sk_write (snd y) \<and>
      sk_lines (snd (write_client line n y)) = sk_lines (snd y) @ more \<and>
      sk_bytes (snd (write_client line n y)) = sk_bytes (snd y) @ more"
    using assms y(1)
    by (auto simp: write_client_def close_client_def takes_all_def Let_def case_prod_beta not_less)
  moreover have "fold (write_client line) [0..<Suc n] x = write_client line n y"
    by (simp add: y_def)
  ultimately show ?case using y by auto
qed

lemma publish_line_bytes:
  assumes "length (srv_clients (fst x)) = MCP_GUARD_MAX_CLIENTS" and "line \<noteq> []"
    and "takes_all line (snd x)"
  shows "sk_bytes (snd (publish_line line x)) = sk_bytes (snd x) @
    map (\<lambda>c. (c, line)) (live (srv_clients (fst (publish_line line x))))"
proof -
  have "takes_all line (snd (mcp_unix_socket_server_accept x))"
    using assms(3) accept_ok(5) [of x] by (simp add: takes_all_def)
  from write_all_bytes [OF this, of MCP_GUARD_MAX_CLIENTS] obtain new
    where "sk_lines (snd (publish_line line x)) = sk_lines (snd x) @ new"
      "sk_bytes (snd (publish_line line x)) = sk_bytes (snd x) @ new"
    using accept_ok(3,4) [of x] assms(2) by (auto simp: publish_line_def)
  then show ?thesis using publish_line_lines [OF assms(1,2)] by simp
qed

section \<open>Properties\<close>

text \<open>C35. The server loses no descriptor and closes none twice: accepting, publishing a line and
  stopping keep each connection that arrived either in one of the 16 slots or closed once, and
  stopping closes them all together with the listening socket.\<close>

theorem sockets_conserved:
  assumes "length (srv_clients (fst x)) = MCP_GUARD_MAX_CLIENTS"
  shows "owned (mcp_unix_socket_server_accept x) = owned x + mset (arriving (snd x)) \<and>
    (line \<noteq> [] \<longrightarrow> owned (publish_line line x) = owned x + mset (arriving (snd x))) \<and>
    length (srv_clients (fst (publish_line line x))) = MCP_GUARD_MAX_CLIENTS \<and>
    mset (sk_closed (mcp_unix_socket_server_stop x)) = owned x + mset (live [srv_fd (fst x)])"
  using write_all_ok [of 16 "mcp_unix_socket_server_accept x" line] accept_ok [of x]
    stop_ok [OF assms] assms
  by (auto simp: publish_line_def)

definition busy_server :: serving where
  "busy_server =
     (\<lparr>srv_fd = 3, srv_clients = [20, 21] @ replicate 14 (- 1), srv_path = ''/tmp/s''\<rparr>,
      \<lparr>sk_pending = [22], sk_write = (\<lambda>n. if n = 1 then - 1 else 5), sk_writes = 0, sk_lines = [],
       sk_bytes = [], sk_closed = [], sk_unlinked = []\<rparr>)"

theorem sockets_conserved_witness:
  "mset (sk_closed (mcp_unix_socket_server_stop busy_server)) = {#3, 20, 21#} \<and>
   owned (publish_line ''x'' busy_server) = {#20, 21, 22#}"
proof -
  have "length (srv_clients (fst busy_server)) = 16" by (simp add: busy_server_def)
  from sockets_conserved [OF this, of "''x''"] show ?thesis
    by (simp add: busy_server_def owned_def arriving_def numeral_eq_Suc add_mset_commute)
qed



text \<open>The bytes a client has got.  When its socket is full for a moment, the rest of a line is lost
  and the next line follows in its place.\<close>

definition received :: "c_int \<Rightarrow> sockets \<Rightarrow> string" where
  "received client w = concat (map snd (filter (\<lambda>(c, bytes). c = client) (sk_bytes w)))"

lemma short_write_mixes_lines:
  "received 20 (snd (publish_line ''{cd}'' (publish_line ''{ab}''
     (\<lparr>srv_fd = 3, srv_clients = 20 # replicate 15 (- 1), srv_path = ''/tmp/s''\<rparr>,
      \<lparr>sk_pending = [], sk_write = (\<lambda>n. if n = 0 then 2 else 4), sk_writes = 0, sk_lines = [],
       sk_bytes = [], sk_closed = [], sk_unlinked = []\<rparr>)))) = ''{a{cd}''"
  by code_simp

text \<open>C37. An event always fits its line: with the path and the rule name of an event as long as
  their fields allow, the JSON text stays within the 768 bytes that \<^verbatim>\<open>publish\<close> formats it into, so no
  byte behind the buffer is ever sent.\<close>

theorem event_line_fits:
  assumes "length (ev_path event) = MCP_GUARD_PATH_LEN"
    and "length (ev_rule_name event) = MCP_GUARD_RULE_NAME_LEN"
  shows "mcp_unix_socket_server_publish event x = Some (publish_line (event_line event) x)"
  using event_line_length [OF assms]
  by (simp add: mcp_unix_socket_server_publish_def publish_formatted_def formatted_def)

definition sample_event :: mcp_event where
  "sample_event =
     \<lparr>ev_ts_ns = 5, ev_duration_ns = 7, ev_epoch = 1, ev_resource_id = 77, ev_tgid = 9, ev_pid = 9,
      ev_uid = 0, ev_gid = 0, ev_hook_id = 2, ev_action = 1, ev_layer = 3, ev_reason = 1,
      ev_rule_id = 1, ev_profile_id = 1, ev_agent_id = 1, ev_error = 13, ev_data_len = 0,
      ev_family = 0, ev_port = 0, ev_ipv4_addr = 0, ev_comm = zeroed 16,
      ev_path = padded MCP_GUARD_PATH_LEN ''/root/x'',
      ev_rule_name = padded MCP_GUARD_RULE_NAME_LEN ''/root''\<rparr>"

theorem event_line_fits_witness:
  "mcp_unix_socket_server_publish sample_event busy_server =
     Some (publish_line (event_line sample_event) busy_server)"
  by (rule event_line_fits) (simp_all add: sample_event_def)

text \<open>
  The texts are not escaped, so a path can pretend to be more of the line than it is: two events
  with different paths and rule names are published as the same line.
\<close>

lemma event_line_ambiguous:
  \<open>event_line (sample_event\<lparr>ev_path := ''a","rule":"b'', ev_rule_name := []\<rparr>) =
   event_line (sample_event\<lparr>ev_path := ''a'', ev_rule_name := ''b","rule":"''\<rparr>)\<close>
  by (simp add: event_line_def)

end
