(* ===== verification/Launch.thy ===== *)
theory Launch
  imports Event_Server
begin

text \<open>
  The start of the daemon in \<^verbatim>\<open>loader/main.c\<close>: the command line, and the GUI that it may start
  in a child process, with the privileges the child gives up and the signals that end it.

  The operating system is a parameter: the record \<open>launch_env\<close> holds what its calls return.
\<close>

section \<open>The command line\<close>

definition parse_interval_seconds :: "string \<Rightarrow> c_int + u32" where
  "parse_interval_seconds val =
     (let (errno, seconds, endp) = strtoul 10 val in
      if errno \<noteq> 0 \<or> endp = val \<or> 86400 < seconds then Inl (- 22)
      else
        let endp' = (if endp \<noteq> [] \<and> hd endp = CHR ''s'' then tl endp else endp)
        in if endp' \<noteq> [] then Inl (- 22) else Inr (of_nat seconds))"

record cli_options =
  opt_policy_dir :: string
  opt_metrics_interval_sec :: u32
  opt_gui_mode :: c_int

definition default_options :: cli_options where
  "default_options =
     \<lparr>opt_policy_dir = ''policies'', opt_metrics_interval_sec = 0, opt_gui_mode = - 1\<rparr>"

text \<open>The loop over the arguments behind the program's name.\<close>

fun parse_args_loop :: "string list \<Rightarrow> cli_options \<Rightarrow> c_int + cli_options" where
  "parse_args_loop [] options = Inr options"
| "parse_args_loop (arg # rest) options =
     (if arg = ''--gui'' then parse_args_loop rest (options\<lparr>opt_gui_mode := 1\<rparr>)
      else if arg = ''--no-gui'' then parse_args_loop rest (options\<lparr>opt_gui_mode := 0\<rparr>)
      else if arg = ''--metrics-interval'' then
        (case rest of
           [] \<Rightarrow> Inl (- 22)
         | val # rest' \<Rightarrow>
             (case parse_interval_seconds val of
                Inl err \<Rightarrow> Inl (- 22)
              | Inr n \<Rightarrow> parse_args_loop rest' (options\<lparr>opt_metrics_interval_sec := n\<rparr>)))
      else if is_prefix ''--metrics-interval='' arg then
        (case parse_interval_seconds (drop 19 arg) of
           Inl err \<Rightarrow> Inl (- 22)
         | Inr n \<Rightarrow> parse_args_loop rest (options\<lparr>opt_metrics_interval_sec := n\<rparr>))
      else if arg \<noteq> [] \<and> hd arg = CHR ''-'' then Inl (- 22)
      else parse_args_loop rest (options\<lparr>opt_policy_dir := arg\<rparr>))"

definition parse_args :: "string list \<Rightarrow> c_int + cli_options" where
  "parse_args argv = parse_args_loop (drop 1 argv) default_options"

section \<open>Processes\<close>

abbreviation (input) F_OK :: nat where "F_OK \<equiv> 0"
abbreviation (input) X_OK :: nat where "X_OK \<equiv> 1"
abbreviation (input) R_OK :: nat where "R_OK \<equiv> 4"

abbreviation MCP_GUARD_SOCKET_PATH :: string where
  "MCP_GUARD_SOCKET_PATH \<equiv> ''/tmp/mcp-guard.sock''"

text \<open>What the program sees and changes of a process: its environment and its credentials.\<close>

record process =
  pr_env :: "string \<rightharpoonup> string"
  pr_uid :: u32
  pr_gid :: u32
  pr_groups :: "(string \<times> u32) option"

record passwd =
  pw_name :: string
  pw_dir :: string

record launch_env =
  le_access :: "process \<Rightarrow> string \<Rightarrow> nat \<Rightarrow> c_int"
  le_getpwuid :: "u32 \<Rightarrow> passwd option"
  le_initgroups :: "process \<Rightarrow> string \<Rightarrow> u32 \<Rightarrow> c_int"
  le_setgid_errno :: "process \<Rightarrow> u32 \<Rightarrow> c_int"
  le_setuid_errno :: "process \<Rightarrow> u32 \<Rightarrow> c_int"
  le_fork :: c_int
  le_exec_ok :: "process \<Rightarrow> string \<Rightarrow> bool"

definition setenv :: "string \<Rightarrow> string \<Rightarrow> process \<Rightarrow> process" where
  "setenv name val p = p\<lparr>pr_env := (pr_env p)(name \<mapsto> val)\<rparr>"

section \<open>Whether to start the GUI\<close>

definition env_is_disabled :: "string \<Rightarrow> process \<Rightarrow> bool" where
  "env_is_disabled name p =
     (case pr_env p name of
        None \<Rightarrow> False
      | Some val \<Rightarrow> val \<in> {''0'', ''false'', ''off'', ''no''})"

definition is_default_policy_dir :: "string \<Rightarrow> bool" where
  "is_default_policy_dir policy_dir \<longleftrightarrow> policy_dir = ''policies'' \<or> policy_dir = ''./policies''"

definition nonempty_env :: "string \<Rightarrow> process \<Rightarrow> bool" where
  "nonempty_env name p = (case pr_env p name of None \<Rightarrow> False | Some val \<Rightarrow> val \<noteq> [])"

definition graphical_session_available :: "launch_env \<Rightarrow> process \<Rightarrow> bool" where
  "graphical_session_available le p \<longleftrightarrow>
     nonempty_env ''DISPLAY'' p \<or> nonempty_env ''WAYLAND_DISPLAY'' p \<or>
     nonempty_env ''SUDO_UID'' p \<and>
       le_access le p (take 63 (''/run/user/'' @ the (pr_env p ''SUDO_UID''))) X_OK = 0 \<or>
     le_access le p ''/tmp/.X11-unix/X0'' F_OK = 0"

definition gui_entrypoint_available :: "launch_env \<Rightarrow> process \<Rightarrow> bool" where
  "gui_entrypoint_available le p \<longleftrightarrow> le_access le p ''gui/run_gui.py'' R_OK = 0"

definition should_launch_gui :: "launch_env \<Rightarrow> process \<Rightarrow> cli_options \<Rightarrow> bool" where
  "should_launch_gui le p options =
     (if opt_gui_mode options = 0 then False
      else if opt_gui_mode options < 0 \<and> env_is_disabled ''MCP_GUARD_AUTO_GUI'' p then False
      else if opt_gui_mode options < 0 \<and> \<not> is_default_policy_dir (opt_policy_dir options) then False
      else if \<not> graphical_session_available le p then False
      else if \<not> gui_entrypoint_available le p then False
      else True)"

definition gui_python_path :: "launch_env \<Rightarrow> process \<Rightarrow> string" where
  "gui_python_path le p =
     (if le_access le p ''gui/.venv/bin/python3'' X_OK = 0 then ''gui/.venv/bin/python3''
      else if le_access le p ''gui/.venv/bin/python'' X_OK = 0 then ''gui/.venv/bin/python''
      else ''python3'')"

section \<open>Giving up privileges\<close>

definition configure_gui_user_env :: "launch_env \<Rightarrow> u32 \<Rightarrow> process \<Rightarrow> process" where
  "configure_gui_user_env le uid p =
     (case le_getpwuid le uid of
        None \<Rightarrow> p
      | Some pw \<Rightarrow>
          let p1 = setenv ''LOGNAME'' (pw_name pw)
                (setenv ''USER'' (pw_name pw) (setenv ''HOME'' (pw_dir pw) p));
              runtime_dir = take 63 (''/run/user/'' @ decimal (unat uid));
              p2 = (if le_access le p1 runtime_dir X_OK = 0 then
                      let p' = setenv ''XDG_RUNTIME_DIR'' runtime_dir p1;
                          wayland_socket = take 127 (runtime_dir @ ''/wayland-0'')
                      in if pr_env p' ''WAYLAND_DISPLAY'' = None \<and>
                            le_access le p' wayland_socket F_OK = 0
                         then setenv ''WAYLAND_DISPLAY'' ''wayland-0'' p' else p'
                    else p1)
          in if pr_env p2 ''DISPLAY'' = None \<and> le_access le p2 ''/tmp/.X11-unix/X0'' F_OK = 0
             then setenv ''DISPLAY'' '':0'' p2 else p2)"

text \<open>An id of the environment: \<^verbatim>\<open>strtoul\<close> with nothing behind the number.\<close>

definition parse_id :: "string \<Rightarrow> nat option" where
  "parse_id val =
     (let (errno, n, endp) = strtoul 10 val in
      if errno \<noteq> 0 \<or> endp = val \<or> endp \<noteq> [] then None else Some n)"

text \<open>The casts to \<^verbatim>\<open>uid_t\<close> and \<^verbatim>\<open>gid_t\<close> keep the low 32 bits.\<close>

definition drop_to_sudo_user :: "launch_env \<Rightarrow> process \<Rightarrow> c_int \<times> process" where
  "drop_to_sudo_user le p =
     (case (pr_env p ''SUDO_UID'', pr_env p ''SUDO_GID'') of
        (Some uid_env, Some gid_env) \<Rightarrow>
          (case (parse_id uid_env, parse_id gid_env) of
             (Some uid_value, Some gid_value) \<Rightarrow>
               let uid = of_nat uid_value; gid = of_nat gid_value;
                   p1 = (case le_getpwuid le uid of
                           None \<Rightarrow> p
                         | Some pw \<Rightarrow>
                             if le_initgroups le p (pw_name pw) gid = 0
                             then p\<lparr>pr_groups := Some (pw_name pw, gid)\<rparr> else p)
               in
               if le_setgid_errno le p1 gid \<noteq> 0 then (- le_setgid_errno le p1 gid, p1)
               else
                 let p2 = p1\<lparr>pr_gid := gid\<rparr> in
                 if le_setuid_errno le p2 uid \<noteq> 0 then (- le_setuid_errno le p2 uid, p2)
                 else (0, configure_gui_user_env le uid (p2\<lparr>pr_uid := uid\<rparr>))
           | _ \<Rightarrow> (- 22, p))
      | _ \<Rightarrow> (0, p))"

text \<open>The child ends with an exit status or becomes the program it executes.\<close>

datatype child_end = Exited c_int | Executing string "string list" process

definition gui_child :: "launch_env \<Rightarrow> string \<Rightarrow> process \<Rightarrow> child_end" where
  "gui_child le python p =
     (let (err, p') = drop_to_sudo_user le p in
      if err \<noteq> 0 then Exited 127
      else if \<not> le_exec_ok le p' python then Exited 127
      else Executing python [python, ''gui/run_gui.py'', ''--socket'', MCP_GUARD_SOCKET_PATH] p')"

text \<open>The result is the process id that the daemon keeps, and the child's end.\<close>

definition launch_gui_if_needed ::
  "launch_env \<Rightarrow> process \<Rightarrow> cli_options \<Rightarrow> c_int \<times> child_end option" where
  "launch_gui_if_needed le p options =
     (if \<not> should_launch_gui le p options then (0, None)
      else if le_fork le < 0 then (0, None)
      else (le_fork le, Some (gui_child le (gui_python_path le p) p)))"

section \<open>Stopping the GUI\<close>

datatype stop_action = Send_sigterm | Send_sigkill | Wait_blocking

text \<open>\<open>wait i\<close> is what the \<open>i\<close>-th \<^verbatim>\<open>waitpid(WNOHANG)\<close> returns; \<open>k\<close> polls are left.\<close>

fun stop_poll :: "(nat \<Rightarrow> c_int) \<Rightarrow> c_int \<Rightarrow> nat \<Rightarrow> nat \<Rightarrow> stop_action list" where
  "stop_poll wait pid i 0 = [Send_sigkill, Wait_blocking]"
| "stop_poll wait pid i (Suc k) = (if wait i = pid then [] else stop_poll wait pid (Suc i) k)"

definition stop_gui_process :: "(nat \<Rightarrow> c_int) \<Rightarrow> c_int \<Rightarrow> stop_action list" where
  "stop_gui_process wait pid =
     (if pid \<le> 0 then [] else if wait 0 = pid then []
      else Send_sigterm # stop_poll wait pid 1 20)"

section \<open>Reading numbers back\<close>

lemma parse_interval_decimal:
  assumes "n \<le> 86400" and "unit = [] \<or> unit = ''s''"
  shows "parse_interval_seconds (decimal n @ unit) = Inr (of_nat n)"
proof -
  have "\<not> is_digit 10 (CHR ''s'')" by (simp add: is_digit_def digit_value_def)
  then have "strtoul 10 (decimal n @ unit) = (0, n, unit)"
    using assms by (intro strtoul_decimal) auto
  then show ?thesis
    using assms decimal_nonempty [of n] by (auto simp: parse_interval_seconds_def)
qed

lemma parse_id_decimal: "n < 2 ^ 64 \<Longrightarrow> parse_id (decimal n) = Some n"
  using strtoul_decimal [of n "[]"] decimal_nonempty [of n] by (simp add: parse_id_def)

section \<open>Properties\<close>

text \<open>A command line for given options; \<open>joined\<close> chooses between the two forms of the interval.\<close>

definition option_args :: "bool \<Rightarrow> cli_options \<Rightarrow> string list" where
  "option_args joined options =
     (if opt_gui_mode options = 1 then [''--gui'']
      else if opt_gui_mode options = 0 then [''--no-gui''] else []) @
     (let seconds = decimal (unat (opt_metrics_interval_sec options)) in
      if joined then [''--metrics-interval='' @ seconds @ ''s'']
      else [''--metrics-interval'', seconds]) @
     [opt_policy_dir options]"

lemma is_prefix_append: "is_prefix p (p @ s)"
  by (induction p) simp_all

lemma plain_argument:
  assumes "dir = [] \<or> hd dir \<noteq> CHR ''-''"
  shows "parse_args_loop [dir] options = Inr (options\<lparr>opt_policy_dir := dir\<rparr>)"
  using assms by (cases dir) auto

lemma interval_argument:
  assumes "parse_interval_seconds val = Inr n"
  shows "parse_args_loop (''--metrics-interval'' # val # rest) options =
      parse_args_loop rest (options\<lparr>opt_metrics_interval_sec := n\<rparr>)"
    "parse_args_loop ((''--metrics-interval='' @ val) # rest) options =
      parse_args_loop rest (options\<lparr>opt_metrics_interval_sec := n\<rparr>)"
  using assms by simp_all

text \<open>C39. Every combination of options can be given and is read back: the GUI flag, an interval of
  at most a day with or without the unit, in both of its forms, and a policy directory that is no
  option.\<close>

theorem options_roundtrip:
  assumes "opt_gui_mode options \<in> {- 1, 0, 1}" and "opt_metrics_interval_sec options \<le> 86400"
    and "opt_policy_dir options = [] \<or> hd (opt_policy_dir options) \<noteq> CHR ''-''"
  shows "parse_args (name # option_args joined options) = Inr options"
proof -
  let ?n = "unat (opt_metrics_interval_sec options)"
  have n: "?n \<le> 86400" using assms(2) by (simp add: word_le_nat_alt)
  note plain = parse_interval_decimal [OF n, of "[]", simplified]
    and unit = parse_interval_decimal [OF n, of "''s''", simplified]
  have "parse_args_loop ((if joined then [''--metrics-interval='' @ decimal ?n @ ''s'']
       else [''--metrics-interval'', decimal ?n]) @ [opt_policy_dir options]) opts =
     Inr (opts\<lparr>opt_metrics_interval_sec := opt_metrics_interval_sec options,
       opt_policy_dir := opt_policy_dir options\<rparr>)" for opts
    using interval_argument(1) [OF plain, of "[opt_policy_dir options]" opts]
      interval_argument(2) [OF unit, of "[opt_policy_dir options]" opts]
      plain_argument [OF assms(3)]
    by (simp del: parse_args_loop.simps)
  then show ?thesis
    using assms(1) by (auto simp: parse_args_def option_args_def default_options_def Let_def)
qed

theorem options_roundtrip_witness:
  "parse_args [''mcp-guard'', ''--no-gui'', ''--metrics-interval=30s'', ''p''] =
     Inr \<lparr>opt_policy_dir = ''p'', opt_metrics_interval_sec = 30, opt_gui_mode = 0\<rparr>"
proof -
  have "decimal 30 = ''30''" by code_simp
  then show ?thesis
    using options_roundtrip [of "\<lparr>opt_policy_dir = ''p'', opt_metrics_interval_sec = 30,
        opt_gui_mode = 0\<rparr>" "''mcp-guard''" True]
    by (simp add: option_args_def)
qed

lemma configure_env_keeps:
  "pr_uid (configure_gui_user_env le uid p) = pr_uid p"
  "pr_gid (configure_gui_user_env le uid p) = pr_gid p"
  by (simp_all add: configure_gui_user_env_def setenv_def Let_def split: option.split)

text \<open>C40. The GUI gets no privileges: with the ids of the invoking user in the environment, a GUI
  that the daemon starts runs under that user and group id, whatever the system calls in between
  return; it is started only when it was not switched off.\<close>

theorem gui_runs_as_user:
  assumes "launch_gui_if_needed le p options = (pid, Some (Executing prog args p'))"
    and "pr_env p ''SUDO_UID'' = Some (decimal u)" and "pr_env p ''SUDO_GID'' = Some (decimal g)"
    and "u < 2 ^ 32" and "g < 2 ^ 32"
  shows "unat (pr_uid p') = u \<and> unat (pr_gid p') = g \<and> opt_gui_mode options \<noteq> 0"
proof -
  have ids: "parse_id (decimal u) = Some u" "parse_id (decimal g) = Some g"
    using assms(4,5) by (auto intro!: parse_id_decimal)
  have run: "should_launch_gui le p options" "gui_child le prog p = Executing prog args p'"
    using assms(1) by (auto simp: launch_gui_if_needed_def gui_child_def Let_def case_prod_beta
        split: if_splits)
  then have "drop_to_sudo_user le p = (0, p')"
    by (auto simp: gui_child_def Let_def case_prod_beta prod_eq_iff split: if_splits)
  then have "pr_uid p' = of_nat u" "pr_gid p' = of_nat g"
    by (auto simp: drop_to_sudo_user_def assms(2,3) ids Let_def configure_env_keeps
        split: if_splits)
  then show ?thesis
    using run(1) assms(4,5) by (auto simp: should_launch_gui_def unat_of_nat take_bit_nat_eq_self)
qed

definition sample_launch :: launch_env where
  "sample_launch =
     \<lparr>le_access = (\<lambda>p path mode. 0), le_getpwuid = (\<lambda>uid. None), le_initgroups = (\<lambda>p n g. 0),
      le_setgid_errno = (\<lambda>p g. if pr_uid p = 0 then 0 else 1), le_setuid_errno = (\<lambda>p u. 0),
      le_fork = 77, le_exec_ok = (\<lambda>p path. True)\<rparr>"

definition sudo_process :: "string \<Rightarrow> process" where
  "sudo_process uid =
     \<lparr>pr_env = [''SUDO_UID'' \<mapsto> uid, ''SUDO_GID'' \<mapsto> decimal 100], pr_uid = 0, pr_gid = 0,
      pr_groups = None\<rparr>"

lemma sample_gui:
  assumes "n < 2 ^ 64"
  shows "launch_gui_if_needed sample_launch (sudo_process (decimal n)) default_options =
    (77, Some (Executing ''gui/.venv/bin/python3''
       [''gui/.venv/bin/python3'', ''gui/run_gui.py'', ''--socket'', MCP_GUARD_SOCKET_PATH]
       ((sudo_process (decimal n))\<lparr>pr_uid := of_nat n, pr_gid := 100\<rparr>)))"
  using parse_id_decimal [of n] parse_id_decimal [of 100] assms
  by (simp add: launch_gui_if_needed_def should_launch_gui_def default_options_def sample_launch_def
      env_is_disabled_def is_default_policy_dir_def graphical_session_available_def
      gui_entrypoint_available_def gui_child_def drop_to_sudo_user_def gui_python_path_def
      sudo_process_def configure_gui_user_env_def)

theorem gui_runs_as_user_witness:
  "\<exists>pid prog args p'. launch_gui_if_needed sample_launch (sudo_process (decimal 1000))
     default_options = (pid, Some (Executing prog args p')) \<and> unat (pr_uid p') = 1000"
  using gui_runs_as_user [OF sample_gui [of 1000], of 1000 100] sample_gui [of 1000]
  by (auto simp: sudo_process_def)

text \<open>The cast to \<^verbatim>\<open>uid_t\<close> is unchecked: a user id of \<open>2^32\<close> leaves the GUI with user id 0.\<close>

lemma user_id_wraps:
  "\<exists>pid prog args p'. launch_gui_if_needed sample_launch (sudo_process (decimal (2 ^ 32)))
     default_options = (pid, Some (Executing prog args p')) \<and> pr_uid p' = 0"
  using sample_gui [of "2 ^ 32"] by simp

text \<open>Stopping the GUI ends with the child reaped: by a poll, or by a kill and a blocking wait.\<close>

lemma stop_poll_reaps:
  "(\<exists>j < k. wait (i + j) = pid \<and> stop_poll wait pid i k = []) \<or>
   (\<forall>j < k. wait (i + j) \<noteq> pid) \<and> stop_poll wait pid i k = [Send_sigkill, Wait_blocking]"
proof (induction k arbitrary: i)
  case (Suc k)
  from Suc.IH [of "Suc i"] show ?case by (auto simp: less_Suc_eq_0_disj)
qed simp

end
