(* ===== verification/Metrics.thy ===== *)
theory Metrics
  imports Coherence
begin

text \<open>
  The counters, from the BPF side to the user-space summary: invariants of the metric slots in
  every reachable state, and \<open>decode_metric_index\<close> and \<open>read_metrics_snapshot\<close> of
  \<^verbatim>\<open>loader/main.c\<close>, which add the slots up over CPUs and layers.
\<close>

section \<open>Reading the metrics (main.c)\<close>

record metrics_snapshot =
  ms_slots :: "mcp_metric_value list"
  ms_total_count :: u64
  ms_l1_count :: u64
  ms_l2_count :: u64
  ms_l3_count :: u64

text \<open>The results are the hook, the layer and the action.\<close>

definition decode_metric_index :: "u32 \<Rightarrow> u32 \<times> u32 \<times> u32" where
  "decode_metric_index index =
     (drop_bit 5 index AND 0x7, drop_bit 2 index AND 0x7, index AND 0x3)"

text \<open>The inner loop body: one CPU's value added to the slot.\<close>

definition merge_metric :: "mcp_metric_value \<Rightarrow> mcp_metric_value \<Rightarrow> mcp_metric_value" where
  "merge_metric v tot =
     tot\<lparr>mv_count := mv_count tot + mv_count v,
           mv_total_ns := mv_total_ns tot + mv_total_ns v,
           mv_min_ns :=
             (if mv_min_ns v \<noteq> 0 \<and> (mv_min_ns tot = 0 \<or> mv_min_ns v < mv_min_ns tot)
              then mv_min_ns v else mv_min_ns tot),
           mv_max_ns := (if mv_max_ns v > mv_max_ns tot then mv_max_ns v else mv_max_ns tot),
           mv_buckets := map2 (+) (mv_buckets tot) (mv_buckets v)\<rparr>"

text \<open>A lookup in the per-CPU array copies the slot of every CPU.\<close>

definition lookup_percpu :: "bpf_state \<Rightarrow> nat \<Rightarrow> u32 \<Rightarrow> mcp_metric_value list option" where
  "lookup_percpu s cpus index =
     (if metrics s 0 index = None then None
      else Some (map (\<lambda>cpu. the (metrics s cpu index)) [0..<cpus]))"

definition read_slot :: "bpf_state \<Rightarrow> nat \<Rightarrow> nat \<Rightarrow> metrics_snapshot \<Rightarrow> metrics_snapshot" where
  "read_slot s cpus i snapshot =
     (let index = of_nat i in
      case lookup_percpu s cpus index of
        None \<Rightarrow> snapshot
      | Some values \<Rightarrow>
          let tot = fold merge_metric values (ms_slots snapshot ! i);
              snapshot = snapshot\<lparr>ms_slots := (ms_slots snapshot)[i := tot]\<rparr>
          in
          if mv_count tot = 0 then snapshot
          else
            let (hook, layer, action) = decode_metric_index index;
                snapshot =
                  snapshot\<lparr>ms_total_count := ms_total_count snapshot + mv_count tot\<rparr>
            in
            if layer = MCP_GUARD_LAYER_L1 then
              snapshot\<lparr>ms_l1_count := ms_l1_count snapshot + mv_count tot\<rparr>
            else if layer = MCP_GUARD_LAYER_L2 then
              snapshot\<lparr>ms_l2_count := ms_l2_count snapshot + mv_count tot\<rparr>
            else if layer = MCP_GUARD_LAYER_L3 then
              snapshot\<lparr>ms_l3_count := ms_l3_count snapshot + mv_count tot\<rparr>
            else snapshot)"

definition zero_snapshot :: metrics_snapshot where
  "zero_snapshot =
     \<lparr>ms_slots = replicate MCP_GUARD_METRIC_SLOTS zero_metric, ms_total_count = 0,
      ms_l1_count = 0, ms_l2_count = 0, ms_l3_count = 0\<rparr>"

text \<open>\<open>cpus\<close> and \<open>calloc_ok\<close> are what \<^verbatim>\<open>libbpf_num_possible_cpus\<close> and \<^verbatim>\<open>calloc\<close> return.\<close>

definition read_metrics_snapshot ::
  "c_int \<Rightarrow> bool \<Rightarrow> c_int \<Rightarrow> bpf_state \<Rightarrow> c_int + metrics_snapshot" where
  "read_metrics_snapshot cpus calloc_ok metrics_fd s =
     (if metrics_fd < 0 \<or> cpus \<le> 0 then Inl (- 22)
      else if \<not> calloc_ok then Inl (- 12)
      else Inr (fold (read_slot s (nat cpus)) [0..<MCP_GUARD_METRIC_SLOTS] zero_snapshot))"

section \<open>Indices\<close>

lemma masks: "(7 :: u32) = mask 3" "(3 :: u32) = mask 2"
  by (simp_all add: mask_eq_exp_minus_1)

lemma decode_index:
  "decode_metric_index (mcp_metric_index hook layer action) =
     (hook AND 7, layer AND 7, action AND 3)"
  unfolding decode_metric_index_def mcp_metric_index_def masks
  by (intro prod_eqI; simp; intro bit_word_eqI; auto simp: bit_simps)

lemma index_bound: "unat (mcp_metric_index hook layer action) < 256"
proof -
  have "take_bit 8 (mcp_metric_index hook layer action) = mcp_metric_index hook layer action"
    unfolding mcp_metric_index_def masks by (intro bit_word_eqI) (auto simp: bit_simps)
  then have eq: "take_bit 8 (unat (mcp_metric_index hook layer action)) =
      unat (mcp_metric_index hook layer action)"
    by (metis unsigned_take_bit_eq)
  show ?thesis
    using take_bit_nat_less_exp [of 8 "unat (mcp_metric_index hook layer action)"]
    unfolding eq by simp
qed

text \<open>Metric slots are exact: every slot index lies within the 256 slots of the map, and
  user space decodes from it the hook, the layer and the action that were encoded, for every
  hook id, layer and action of the program.\<close>

theorem metric_index_roundtrip:
  assumes "hook \<in> {1, 2, 3, 4, 5}" and "layer \<in> {1, 2, 3}" and "mcp_guard_action_valid action"
  shows "unat (mcp_metric_index hook layer action) < MCP_GUARD_METRIC_SLOTS \<and>
    decode_metric_index (mcp_metric_index hook layer action) = (hook, layer, action)"
  using assms by (auto simp: decode_index index_bound mcp_guard_action_valid_def)

theorem metric_index_roundtrip_witness:
  "decode_metric_index (mcp_metric_index 5 3 2) = (5, 3, 2)"
  using metric_index_roundtrip [of 5 3 2] by simp

section \<open>Invariants of the slots\<close>

definition metric_ok :: "u32 \<Rightarrow> mcp_metric_value \<Rightarrow> bool" where
  "metric_ok index m \<longleftrightarrow>
     length (mv_buckets m) = MCP_GUARD_HIST_BUCKETS \<and> sum_list (mv_buckets m) = mv_count m \<and>
     (mv_count m \<noteq> 0 \<longrightarrow>
        fst (snd (decode_metric_index index)) \<in>
          {MCP_GUARD_LAYER_L1, MCP_GUARD_LAYER_L2, MCP_GUARD_LAYER_L3})"

definition metrics_ok :: "bpf_state \<Rightarrow> bool" where
  "metrics_ok s \<longleftrightarrow>
     (\<forall>cpu index. (metrics s cpu index = None \<longleftrightarrow> \<not> unat index < MCP_GUARD_METRIC_SLOTS) \<and>
        (\<forall>m. metrics s cpu index = Some m \<longrightarrow> metric_ok index m))"

lemma sum_list_increment:
  fixes xs :: "u64 list"
  assumes "i < length xs"
  shows "sum_list (xs[i := xs ! i + 1]) = sum_list xs + 1"
  using assms
proof (induction xs arbitrary: i)
  case (Cons x xs)
  then show ?case by (cases i) (simp_all add: ac_simps)
qed simp

lemma metric_add_ok:
  assumes "metric_ok index m" and "fst (snd (decode_metric_index index)) \<in> {1, 2, 3}"
  shows "metric_ok index (metric_add d m)"
  using assms hist_bucket_bound [of d]
  by (simp add: metric_ok_def metric_add_def Let_def sum_list_increment)

lemma decision_layer: "d_layer (request_decision h tk req s) \<in> {1, 2, 3}"
proof -
  have "d_layer (policy_verdict h req s) \<in> {2, 3}"
    by (cases req)
      (auto simp: socket_policy_def case_prod_beta socket_safe_def split: option.split
        dest!: file_safe_cases(2))
  then show ?thesis
    using request_hit_layer [of tk req s]
    by (auto simp: request_decision_cases split: option.split)
qed

lemma and_7_layer: "layer \<in> {1, 2, 3} \<Longrightarrow> layer AND 7 = (layer :: u32)"
  by auto

lemma counted_ok:
  assumes "counted tk hook layer action s s'" and "metrics_ok s" and "layer \<in> {1, 2, 3}"
  shows "metrics_ok s'"
proof -
  obtain d where "metrics s' =
      (case metrics s (t_cpu tk) (mcp_metric_index hook layer action) of
         None \<Rightarrow> metrics s
       | Some m \<Rightarrow> (metrics s)(t_cpu tk := (metrics s (t_cpu tk))
           (mcp_metric_index hook layer action \<mapsto> metric_add d m)))"
    using assms(1) by (auto simp: counted_def)
  moreover have "metric_ok (mcp_metric_index hook layer action) (metric_add d m)"
    if "metrics s (t_cpu tk) (mcp_metric_index hook layer action) = Some m" for m
    using that assms(2,3)
    by (intro metric_add_ok) (auto simp: metrics_ok_def decode_index and_7_layer)
  ultimately show ?thesis
    using assms(2) index_bound [of hook layer action]
    by (auto simp: metrics_ok_def split: option.splits)
qed

lemma zero_metric_ok: "metric_ok index zero_metric"
  by (simp add: metric_ok_def zero_metric_def numeral_eq_Suc)

theorem reach_metrics_ok:
  assumes "strings_law h" and "lru_law (h_cache_update h)"
    and "guard_reach h n current s" and "n < 2 ^ 64"
  shows "metrics_ok s"
  using assms(3,4)
proof (induction rule: guard_reach.induct)
  case (booted env s)
  then show ?case
    using open_load_ok [OF booted(1)] zero_metric_ok
    by (auto simp: metrics_ok_def loaded_maps_def created_maps_def array_of_def split: if_splits)
next
  case (served n current s tk req ret)
  then have ok: "metrics_ok s" "system_ok h n current s"
    using reach_system_ok [OF assms(1,2) served(1)] by simp_all
  show ?case
  proof (cases "ret = 0 \<and> mcp_scope_matches tk s")
    case False
    then have "only_ticks s (snd (run_request h tk req ret s))"
      using request_denied [of ret h tk req s] request_out_of_scope [of tk s h req] by auto
    then show ?thesis using ok(1) by (auto simp: only_ticks_def metrics_ok_def)
  next
    case True
    then have "examined h tk s" "pipelines_loaded s"
      using ok(2) assms(1) by (simp_all add: system_ok_def examined_def)
    from request_outcome [OF this, of req] have
      "counted tk (request_hook req) (d_layer (request_decision h tk req s))
        (d_action (request_decision h tk req s)) s (snd (run_request h tk req 0 s))"
      by (simp add: outcome_ok_def answered_def)
    from counted_ok [OF this ok(1) decision_layer] True show ?thesis by simp
  qed
next
  case (written n current s s')
  then show ?case by (auto simp: policy_write_def metrics_ok_def)
next
  case (retired n current s s')
  then show ?case by (auto simp: policy_write_def metrics_ok_def)
next
  case (bumped n current s)
  then show ?case by (auto simp: epoch_bumped_def metrics_ok_def)
next
  case (drained n current s m)
  then show ?case by (auto simp: metrics_ok_def)
qed

text \<open>C27. Counters stay consistent: in every reachable state each of the 256 slots of each CPU
  exists, its eight histogram buckets add up to its count (modulo \<open>2^64\<close>), and a slot that has
  counted anything belongs to layer L1, L2 or L3.\<close>

theorem histogram_matches_count:
  assumes "strings_law h" and "lru_law (h_cache_update h)"
    and "guard_reach h n current s" and "n < 2 ^ 64" and "unat index < MCP_GUARD_METRIC_SLOTS"
  shows "\<exists>m. metrics s cpu index = Some m \<and>
    length (mv_buckets m) = MCP_GUARD_HIST_BUCKETS \<and> sum_list (mv_buckets m) = mv_count m \<and>
    (mv_count m = 0 \<or> fst (snd (decode_metric_index index)) \<in> {1, 2, 3})"
  using reach_metrics_ok [OF assms(1-4)] assms(5)
  by (fastforce simp: metrics_ok_def metric_ok_def)

theorem histogram_matches_count_witness:
  "\<exists>m. metrics (snd (run_request reference_helpers sample_task (Req_open sample_file) 0
       current_maps)) 0 (mcp_metric_index 2 3 1) = Some m \<and> sum_list (mv_buckets m) = mv_count m"
  using histogram_matches_count [OF reference_strings_law reference_lru_law
      served [OF current_reach], of "mcp_metric_index 2 3 1" sample_task "Req_open sample_file" 0 0]
    index_bound [of 2 3 1] by auto

section \<open>The user-space totals\<close>

definition slot_count :: "bpf_state \<Rightarrow> nat \<Rightarrow> nat \<Rightarrow> u64" where
  "slot_count s cpus i = (\<Sum>cpu<cpus. mv_count (the (metrics s cpu (of_nat i))))"

lemma merge_metric_count:
  "mv_count (fold merge_metric vs m) = mv_count m + sum_list (map mv_count vs)"
  by (induction vs arbitrary: m) (simp_all add: merge_metric_def ac_simps)

lemma merged_slot:
  "mv_count (fold merge_metric (map (\<lambda>cpu. the (metrics s cpu (of_nat i))) [0..<cpus])
     zero_metric) = slot_count s cpus i"
  by (simp add: merge_metric_count slot_count_def zero_metric_def comp_def
      interv_sum_list_conv_sum_set_nat atLeast0LessThan)

lemma slot_exists:
  assumes "metrics_ok s" and "i < 256"
  obtains m where "metrics s cpu (of_nat i) = Some m" "metric_ok (of_nat i) m"
proof -
  have "unat (of_nat i :: u32) < 256"
    using assms(2) by (simp add: unat_of_nat take_bit_nat_eq_self)
  with assms(1) that show thesis
    by (cases "metrics s cpu (of_nat i)") (auto simp: metrics_ok_def)
qed

lemma slot_layer:
  assumes "metrics_ok s" and "i < 256" and "slot_count s cpus i \<noteq> 0"
  shows "fst (snd (decode_metric_index (of_nat i))) \<in> {1, 2, 3}"
proof -
  obtain cpu where "mv_count (the (metrics s cpu (of_nat i))) \<noteq> 0"
    using assms(3) unfolding slot_count_def by (meson sum.neutral)
  moreover obtain m where "metrics s cpu (of_nat i) = Some m" "metric_ok (of_nat i) m"
    by (rule slot_exists [OF assms(1,2)])
  ultimately show ?thesis by (simp add: metric_ok_def)
qed

definition snapshot_after :: "bpf_state \<Rightarrow> nat \<Rightarrow> nat \<Rightarrow> metrics_snapshot" where
  "snapshot_after s cpus n = fold (read_slot s cpus) [0..<n] zero_snapshot"

lemma snapshot_step:
  assumes ok: "metrics_ok s" and n: "n < 256" and sn: "ms_slots sn ! n = zero_metric"
    and len: "length (ms_slots sn) = 256"
  shows "ms_total_count (read_slot s cpus n sn) = ms_total_count sn + slot_count s cpus n"
    and "ms_l1_count (read_slot s cpus n sn) + ms_l2_count (read_slot s cpus n sn) +
        ms_l3_count (read_slot s cpus n sn) =
      ms_l1_count sn + ms_l2_count sn + ms_l3_count sn + slot_count s cpus n"
    and "\<exists>v. ms_slots (read_slot s cpus n sn) = (ms_slots sn)[n := v]"
proof -
  obtain m where "metrics s 0 (of_nat n) = Some m"
    by (rule slot_exists [OF ok n])
  then show "ms_total_count (read_slot s cpus n sn) = ms_total_count sn + slot_count s cpus n"
    and "ms_l1_count (read_slot s cpus n sn) + ms_l2_count (read_slot s cpus n sn) +
        ms_l3_count (read_slot s cpus n sn) =
      ms_l1_count sn + ms_l2_count sn + ms_l3_count sn + slot_count s cpus n"
    and "\<exists>v. ms_slots (read_slot s cpus n sn) = (ms_slots sn)[n := v]"
    using merged_slot [of s n cpus] slot_layer [OF ok n, of cpus] sn
    by (auto simp: read_slot_def lookup_percpu_def Let_def case_prod_beta)
qed

lemma snapshot_invariant:
  assumes "metrics_ok s" and "n \<le> 256"
  shows "length (ms_slots (snapshot_after s cpus n)) = 256 \<and>
    (\<forall>j. n \<le> j \<longrightarrow> j < 256 \<longrightarrow> ms_slots (snapshot_after s cpus n) ! j = zero_metric) \<and>
    ms_total_count (snapshot_after s cpus n) = (\<Sum>i<n. slot_count s cpus i) \<and>
    ms_l1_count (snapshot_after s cpus n) + ms_l2_count (snapshot_after s cpus n) +
      ms_l3_count (snapshot_after s cpus n) = (\<Sum>i<n. slot_count s cpus i)"
  using assms(2)
proof (induction n)
  case 0
  show ?case by (simp add: snapshot_after_def zero_snapshot_def)
next
  case (Suc n)
  let ?sn = "snapshot_after s cpus n"
  have step: "snapshot_after s cpus (Suc n) = read_slot s cpus n ?sn"
    by (simp add: snapshot_after_def)
  from Suc have sn: "ms_slots ?sn ! n = zero_metric" "length (ms_slots ?sn) = 256" and n: "n < 256"
    by auto
  obtain v where v: "ms_slots (read_slot s cpus n ?sn) = (ms_slots ?sn)[n := v]"
    using snapshot_step(3) [OF assms(1) n sn] by blast
  show ?case
    using Suc v snapshot_step(1,2) [OF assms(1) n sn, of cpus] unfolding step
    by (simp add: nth_list_update)
qed

lemma snapshot_total:
  assumes "metrics_ok s" and "0 < cpus" and "0 \<le> fd"
  shows "\<exists>sn. read_metrics_snapshot cpus True fd s = Inr sn \<and>
    ms_total_count sn = (\<Sum>i<256. slot_count s (nat cpus) i) \<and>
    ms_total_count sn = ms_l1_count sn + ms_l2_count sn + ms_l3_count sn"
  using snapshot_invariant [OF assms(1), of 256 "nat cpus"] assms(2,3)
  by (simp add: read_metrics_snapshot_def snapshot_after_def)

lemma counted_total:
  assumes counted: "counted tk hook layer action s s'" and ok: "metrics_ok s"
    and cpu: "t_cpu tk < cpus"
  shows "(\<Sum>i<256. slot_count s' cpus i) = (\<Sum>i<256. slot_count s cpus i) + 1"
proof -
  let ?idx = "mcp_metric_index hook layer action"
  let ?i0 = "unat ?idx"
  have i0: "?i0 < 256" "of_nat ?i0 = ?idx" by (simp_all add: index_bound)
  obtain m where m: "metrics s (t_cpu tk) ?idx = Some m"
    using slot_exists [OF ok i0(1), of "t_cpu tk"] i0(2) by metis
  obtain d where s': "metrics s' = (metrics s)(t_cpu tk := (metrics s (t_cpu tk))
      (?idx \<mapsto> metric_add d m))"
    using counted m by (auto simp: counted_def)
  have idx: "(of_nat i :: u32) = ?idx \<longleftrightarrow> i = ?i0" if "i < 256" for i
  proof -
    have "unat (of_nat i :: u32) = i" using that by (simp add: unat_of_nat take_bit_nat_eq_self)
    with i0(2) show ?thesis by auto
  qed
  have "mv_count (the (metrics s' c (of_nat i))) =
      mv_count (the (metrics s c (of_nat i))) + (if c = t_cpu tk \<and> i = ?i0 then 1 else 0)"
    if "i < 256" for c i
    using m idx [OF that] by (simp add: s' metric_add_def Let_def)
  then have "slot_count s' cpus i = slot_count s cpus i + (if i = ?i0 then 1 else 0)" if "i < 256" for i
    using that cpu by (auto simp: slot_count_def sum.distrib)
  then have "(\<Sum>i<256. slot_count s' cpus i) =
      (\<Sum>i<256. slot_count s cpus i + (if i = ?i0 then 1 else 0))"
    by (intro sum.cong) simp_all
  then show ?thesis using i0(1) by (simp add: sum.distrib)
qed

text \<open>C26. The user-space summary counts every decision exactly once: in every reachable state the
  total that \<^verbatim>\<open>read_metrics_snapshot\<close> reports is the sum of its L1, L2 and L3 counts, and one
  more examined request, whichever hook and layer answers it, raises the total by one (modulo
  \<open>2^64\<close>).\<close>

theorem snapshot_counts_requests:
  assumes "strings_law h" and "lru_law (h_cache_update h)"
    and "guard_reach h n current s" and "n < 2 ^ 64"
    and "mcp_scope_matches tk s" and "int (t_cpu tk) < cpus" and "0 \<le> fd"
  shows "\<exists>sn sn'. read_metrics_snapshot cpus True fd s = Inr sn \<and>
    ms_total_count sn = ms_l1_count sn + ms_l2_count sn + ms_l3_count sn \<and>
    read_metrics_snapshot cpus True fd (snd (run_request h tk req 0 s)) = Inr sn' \<and>
    ms_total_count sn' = ms_total_count sn + 1"
proof -
  have ok: "metrics_ok s" "system_ok h n current s"
    by (rule reach_metrics_ok [OF assms(1-4)], rule reach_system_ok [OF assms(1-4)])
  have ok': "metrics_ok (snd (run_request h tk req 0 s))"
    by (rule reach_metrics_ok [OF assms(1,2) served [OF assms(3)] assms(4)])
  have "examined h tk s" "pipelines_loaded s"
    using ok(2) assms(1,5) by (simp_all add: system_ok_def examined_def)
  from request_outcome [OF this, of req] have
    "counted tk (request_hook req) (d_layer (request_decision h tk req s))
      (d_action (request_decision h tk req s)) s (snd (run_request h tk req 0 s))"
    by (simp add: outcome_ok_def answered_def)
  from counted_total [OF this ok(1), of "nat cpus"] assms(6)
  show ?thesis
    using snapshot_total [OF ok(1) _ assms(7), of cpus] snapshot_total [OF ok' _ assms(7), of cpus]
    by force
qed

theorem snapshot_counts_requests_witness:
  "\<exists>sn sn'. read_metrics_snapshot 4 True 9 current_maps = Inr sn \<and>
     read_metrics_snapshot 4 True 9 (snd (run_request reference_helpers sample_task
       (Req_open sample_file) 0 current_maps)) = Inr sn' \<and>
     ms_total_count sn' = ms_total_count sn + 1"
  using snapshot_counts_requests [OF reference_strings_law reference_lru_law current_reach _ _ _ _,
      of sample_task 4 9 "Req_open sample_file"] current_maps_facts(1)
  by (auto simp: examined_def sample_task_def)

end
