(* ===== verification/Console.thy ===== *)
theory Console
  imports Event_Server Metrics Policy_Load
begin

text \<open>
  What the daemon prints, from \<^verbatim>\<open>loader/main.c\<close>: one line for each event of the ring buffer, the
  report of a load, and the metrics.  A line is a string without its line feed.

  The texts that \<^verbatim>\<open>printf\<close> makes of floating-point numbers are parameters (\<open>number_formats\<close>); all
  other texts are computed.
\<close>

datatype stream = Stdout | Stderr

type_synonym console = "(stream \<times> string) list"

abbreviation out :: "string list \<Rightarrow> console" where
  "out lines \<equiv> map (Pair Stdout) lines"

text \<open>
  \<open>nf_ratio a b\<close> is \<^verbatim>\<open>%.6f\<close> of a quotient of counts, \<open>nf_us ns\<close> is \<^verbatim>\<open>%.3f\<close> of nanoseconds as
  microseconds, and \<open>nf_delta ns layer\<close> of their difference to the model's time for the layer.
\<close>

record number_formats =
  nf_ratio :: "u64 \<Rightarrow> u64 \<Rightarrow> string"
  nf_us :: "u64 \<Rightarrow> string"
  nf_delta :: "u64 \<Rightarrow> u32 \<Rightarrow> string"

section \<open>Addresses\<close>

text \<open>The bytes of an address in network order are those of the little-endian word from below.\<close>

definition octet :: "nat \<Rightarrow> u32 \<Rightarrow> nat" where
  "octet i addr = unat (drop_bit (8 * i) addr AND 0xff)"

definition inet_ntop :: "u32 \<Rightarrow> string" where
  "inet_ntop addr =
     decimal (octet 0 addr) @ ''.'' @ decimal (octet 1 addr) @ ''.'' @ decimal (octet 2 addr) @
     ''.'' @ decimal (octet 3 addr)"

text \<open>What is printed for an address is read back as this address.\<close>

lemma octet_bound: "octet i addr < 256"
proof -
  have "drop_bit (8 * i) addr AND 0xff \<le> 0xff" by (rule word_and_le1)
  then show ?thesis by (simp add: octet_def word_le_nat_alt)
qed

lemma octets_join:
  "of_nat (octet 0 a) OR push_bit 8 (of_nat (octet 1 a)) OR push_bit 16 (of_nat (octet 2 a)) OR
     push_bit 24 (of_nat (octet 3 a)) = (a :: u32)"
proof -
  have "(0xff :: u32) = Bit_Operations.mask 8" by (simp add: mask_eq_exp_minus_1)
  then have octet: "of_nat (octet i a) = take_bit 8 (drop_bit (8 * i) a)" for i
    by (simp add: octet_def take_bit_eq_mask)
  show ?thesis
  proof (rule bit_word_eqI)
    fix n assume "n < LENGTH(32)"
    have "n < 8 \<or> 8 \<le> n \<and> n < 16 \<or> 16 \<le> n \<and> n < 24 \<or> 24 \<le> n" by linarith
    with \<open>n < LENGTH(32)\<close> show "bit (of_nat (octet 0 a) OR push_bit 8 (of_nat (octet 1 a)) OR
        push_bit 16 (of_nat (octet 2 a)) OR push_bit 24 (of_nat (octet 3 a)) :: u32) n = bit a n"
      by (elim disjE) (auto simp: octet bit_simps)
  qed
qed

lemma decimal_chars: "c \<in> set (decimal n) \<Longrightarrow> is_digit 10 c"
  using decimal_digits [of n] by (auto simp: list_all_iff)

lemma decimal_plain:
  "CHR ''.'' \<notin> set (decimal n)" "CHR ''/'' \<notin> set (decimal n)" "NUL \<notin> set (decimal n)"
  using decimal_chars [of _ n] by (force simp: is_digit_def digit_value_def)+

lemma inet_ntop_plain:
  "CHR ''/'' \<notin> set (inet_ntop addr)" "NUL \<notin> set (inet_ntop addr)" "length (inet_ntop addr) \<le> 15"
proof -
  show "CHR ''/'' \<notin> set (inet_ntop addr)" "NUL \<notin> set (inet_ntop addr)"
    by (simp_all add: inet_ntop_def decimal_plain)
  have "length (decimal (octet i addr)) \<le> 3" for i
    using octet_bound [of i addr] by (intro decimal_length) simp_all
  from this [of 0] this [of 1] this [of 2] this [of 3] show "length (inet_ntop addr) \<le> 15"
    by (simp add: inet_ntop_def)
qed

lemma strchr_None: "c \<notin> set s \<Longrightarrow> strchr s c = None"
  by (induction s) auto

section \<open>Events\<close>

text \<open>\<^verbatim>\<open>%.3f\<close> of the constant.\<close>

definition model_us_for_layer :: "u32 \<Rightarrow> string" where
  "model_us_for_layer layer =
     (if layer = MCP_GUARD_LAYER_L1 then ''0.018''
      else if layer = MCP_GUARD_LAYER_L2 then ''0.023''
      else if layer = MCP_GUARD_LAYER_L3 then ''0.989''
      else ''0.000'')"

definition event_address :: "mcp_event \<Rightarrow> string" where
  "event_address event =
     (if ev_family event = MCP_GUARD_AF_INET \<and> ev_ipv4_addr event \<noteq> 0
      then inet_ntop (ev_ipv4_addr event) else [])"

definition event_text :: "number_formats \<Rightarrow> mcp_event \<Rightarrow> string" where
  "event_text fmt event =
     ''['' @ action_name (ev_action event) @ ''] pid='' @ decimal (unat (ev_pid event)) @
     '' uid='' @ decimal (unat (ev_uid event)) @
     '' profile='' @ decimal (unat (ev_profile_id event)) @
     '' agent='' @ decimal (unat (ev_agent_id event)) @
     '' hook='' @ hook_name (ev_hook_id event) @ '' layer='' @ layer_name (ev_layer event) @
     '' duration_ns='' @ decimal (unat (ev_duration_ns event)) @
     '' duration_us='' @ nf_us fmt (ev_duration_ns event) @
     '' model_us='' @ model_us_for_layer (ev_layer event) @
     '' delta_us='' @ nf_delta fmt (ev_duration_ns event) (ev_layer event) @
     '' rule='' @ decimal (unat (ev_rule_id event)) @
     '' error='' @ decimal (unat (ev_error event)) @
     '' path='' @ (if cstr (ev_path event) \<noteq> [] then cstr (ev_path event) else ''-'') @
     (if event_address event \<noteq> []
      then '' dst='' @ event_address event @ '':'' @ decimal (unat (ev_port event)) else []) @
     (if cstr (ev_rule_name event) \<noteq> [] then '' rule='' @ cstr (ev_rule_name event) else [])"

text \<open>The texts are not escaped: a path can pretend to be a path and the name of a rule.\<close>

lemma event_text_ambiguous:
  "event_text fmt (sample_event\<lparr>ev_path := ''x rule=/root'', ev_rule_name := []\<rparr>) =
   event_text fmt (sample_event\<lparr>ev_path := ''x'', ev_rule_name := ''/root''\<rparr>)"
  by (simp add: event_text_def event_address_def sample_event_def cstr_def)

section \<open>The report of a load\<close>

definition flag_digit :: "u32 \<Rightarrow> u32 \<Rightarrow> string" where
  "flag_digit flags flag = (if flags AND flag \<noteq> 0 then ''1'' else ''0'')"

definition print_policy_flags :: "u32 \<Rightarrow> string" where
  "print_policy_flags flags =
     ''policy flags: skip_dir_read='' @ flag_digit flags MCP_GUARD_POLICY_F_SKIP_DIR_READ @
     '' cache_file_followups='' @ flag_digit flags MCP_GUARD_POLICY_F_CACHE_FILE_FOLLOWUPS @
     '' deny_tailcall_fail='' @ flag_digit flags MCP_GUARD_POLICY_F_DENY_TAILCALL_FAIL @
     '' skip_l2_safe='' @ flag_digit flags MCP_GUARD_POLICY_F_SKIP_L2_SAFE"

definition scope_mode_name :: "u32 \<Rightarrow> string" where
  "scope_mode_name mode =
     (if mode = MCP_GUARD_SCOPE_SYSTEM_WIDE then ''system-wide''
      else if mode = MCP_GUARD_SCOPE_SCOPED then ''scoped''
      else ''unknown'')"

definition load_success_report :: "mcp_policy_load_result \<Rightarrow> console" where
  "load_success_report res =
     out [''loaded '' @ decimal (unat (plr_rule_count res)) @ '' policy rules, generation='' @
            decimal (unat (plr_active_generation res)) @ '' epoch='' @ decimal (unat (plr_epoch res)),
          ''profile id='' @ decimal (unat (plr_profile_id res)) @
            '' agent='' @ decimal (unat (plr_agent_id res)) @
            '' mode='' @ scope_mode_name (plr_scope_mode res) @
            '' scopes='' @ decimal (unat (plr_scope_count res)) @
            '' name='' @ (if cstr (plr_profile_name res) \<noteq> [] then cstr (plr_profile_name res) else ''-''),
          print_policy_flags (plr_flags res)]"

definition load_failure_report :: "string \<Rightarrow> string \<Rightarrow> console" where
  "load_failure_report policy_dir error =
     [(Stderr, ''failed to load policies from '' @ policy_dir @ '': '' @ error)]"

section \<open>Metrics\<close>

definition commas :: "string list \<Rightarrow> string" where
  "commas texts = (case texts of [] \<Rightarrow> [] | t # ts \<Rightarrow> t @ concat (map ((#) (CHR '','')) ts))"

definition metrics_detail :: "mcp_metric_value \<Rightarrow> nat \<Rightarrow> string" where
  "metrics_detail v index =
     (let (hook, layer, action) = decode_metric_index (of_nat index) in
      ''  hook='' @ hook_name hook @ '' layer='' @ layer_name layer @ '' action='' @ action_name action @
      '' count='' @ decimal (unat (mv_count v)) @
      '' avg_ns='' @ decimal (unat (mv_total_ns v div mv_count v)) @
      '' min_ns='' @ decimal (unat (mv_min_ns v)) @
      '' max_ns='' @ decimal (unat (mv_max_ns v)) @
      '' buckets=['' @ commas (map (\<lambda>b. decimal (unat b)) (mv_buckets v)) @ '']'')"

definition print_metrics_details :: "metrics_snapshot \<Rightarrow> string list" where
  "print_metrics_details snapshot =
     map (\<lambda>index. metrics_detail (ms_slots snapshot ! index) index)
       (filter (\<lambda>index. mv_count (ms_slots snapshot ! index) \<noteq> 0) [0..<MCP_GUARD_METRIC_SLOTS])"

definition print_metrics_ratios :: "number_formats \<Rightarrow> metrics_snapshot \<Rightarrow> string list" where
  "print_metrics_ratios fmt snapshot =
     (let share = (\<lambda>count. nf_ratio fmt count (ms_total_count snapshot)) in
      if ms_total_count snapshot = 0 then []
      else
        [''metrics ratios: total='' @ decimal (unat (ms_total_count snapshot)) @
           '' L1='' @ share (ms_l1_count snapshot) @ '' L2='' @ share (ms_l2_count snapshot) @
           '' L3='' @ share (ms_l3_count snapshot)])"

text \<open>\<open>calloc_ok\<close> is the outcome of \<^verbatim>\<open>calloc\<close>.\<close>

definition print_metrics_summary ::
  "number_formats \<Rightarrow> c_int \<Rightarrow> bool \<Rightarrow> c_int \<Rightarrow> bpf_state \<Rightarrow> console" where
  "print_metrics_summary fmt cpus calloc_ok metrics_fd s =
     (case read_metrics_snapshot cpus calloc_ok metrics_fd s of
        Inl err \<Rightarrow> []
      | Inr snapshot \<Rightarrow>
          out (''metrics summary:'' # print_metrics_ratios fmt snapshot @
            print_metrics_details snapshot))"

lemma inet_pton_ntop: "inet_pton (inet_ntop addr) = Some addr"
proof -
  have "map octet_value (split_on (CHR ''.'') (inet_ntop addr)) =
      map (\<lambda>i. Some (of_nat (octet i addr))) [0, 1, 2, 3]"
    by (simp add: inet_ntop_def split_on_word decimal_plain(1) octet_value_decimal octet_bound)
  then show ?thesis using octets_join [of addr] by (simp add: inet_pton_def)
qed

section \<open>Properties\<close>

text \<open>C38. An address that the daemon prints can be copied into a rule file: as the value of a network
  rule it is read as the block of exactly this address, for every address.\<close>

theorem address_roundtrip:
  "parse_ipv4_cidr (padded MCP_GUARD_RULE_VALUE_LEN (inet_ntop addr)) = Inr (addr, 0xffffffff)"
proof -
  have "cstr (padded MCP_GUARD_RULE_VALUE_LEN (inet_ntop addr)) = inet_ntop addr"
    using inet_ntop_plain [of addr] by (simp add: cstr_padded)
  moreover have "strchr (inet_ntop addr) (CHR ''/'') = None"
    using inet_ntop_plain(1) [of addr] by (simp add: strchr_None)
  moreover have "bswap32 0xffffffff = 0xffffffff" by code_simp
  ultimately show ?thesis
    using inet_ntop_plain(3) [of addr] by (simp add: parse_ipv4_cidr_def inet_pton_ntop)
qed

end
