(* ===== verification/Daemon.thy ===== *)
theory Daemon
  imports Launch Console Guarantees
begin

text \<open>
  The daemon, \<^verbatim>\<open>main\<close> of \<^verbatim>\<open>loader/main.c\<close> with \<^verbatim>\<open>loader/ringbuf_reader.c\<close> and the map
  descriptors of \<^verbatim>\<open>loader/bpf_loader.c\<close>: start, the main loop as a machine whose points are the
  stages of the loop's body, signals, and the way out.  Requests of the kernel, signals and new
  connections come in between any two stages.

  A stage returns \<open>None\<close> where the code would not return or would read behind a buffer.
\<close>

section \<open>Map descriptors (bpf_loader.c)\<close>

datatype mcp_bpf_map_id =
    MCP_BPF_MAP_L1_CACHE | MCP_BPF_MAP_GLOBAL_EPOCH | MCP_BPF_MAP_POLICY_CONFIG
  | MCP_BPF_MAP_POLICY_RULES | MCP_BPF_MAP_SCOPE_COMM | MCP_BPF_MAP_SCOPE_PID
  | MCP_BPF_MAP_SCOPE_TGID | MCP_BPF_MAP_PATH_POLICY_TRIE | MCP_BPF_MAP_COMMAND_POLICY_TRIE
  | MCP_BPF_MAP_NETWORK_POLICY_TRIE | MCP_BPF_MAP_RESOURCE_POLICY_HASH | MCP_BPF_MAP_METRICS
  | MCP_BPF_MAP_EVENTS

text \<open>The descriptors of the maps in the skeleton.\<close>

record skel_fds =
  sf_l1_cache :: c_int
  sf_global_epoch :: c_int
  sf_policy_config :: c_int
  sf_policy_rules :: c_int
  sf_scope_comm :: c_int
  sf_scope_pid :: c_int
  sf_scope_tgid :: c_int
  sf_path_policy_trie :: c_int
  sf_command_policy_trie :: c_int
  sf_network_policy_trie :: c_int
  sf_resource_policy_hash :: c_int
  sf_metrics :: c_int
  sf_events :: c_int

definition mcp_bpf_map_fd :: "skel_fds option \<Rightarrow> mcp_bpf_map_id \<Rightarrow> c_int" where
  "mcp_bpf_map_fd guard map_id =
     (case guard of
        None \<Rightarrow> - 22
      | Some skel \<Rightarrow>
          (case map_id of
             MCP_BPF_MAP_L1_CACHE \<Rightarrow> sf_l1_cache skel
           | MCP_BPF_MAP_GLOBAL_EPOCH \<Rightarrow> sf_global_epoch skel
           | MCP_BPF_MAP_POLICY_CONFIG \<Rightarrow> sf_policy_config skel
           | MCP_BPF_MAP_POLICY_RULES \<Rightarrow> sf_policy_rules skel
           | MCP_BPF_MAP_SCOPE_COMM \<Rightarrow> sf_scope_comm skel
           | MCP_BPF_MAP_SCOPE_PID \<Rightarrow> sf_scope_pid skel
           | MCP_BPF_MAP_SCOPE_TGID \<Rightarrow> sf_scope_tgid skel
           | MCP_BPF_MAP_PATH_POLICY_TRIE \<Rightarrow> sf_path_policy_trie skel
           | MCP_BPF_MAP_COMMAND_POLICY_TRIE \<Rightarrow> sf_command_policy_trie skel
           | MCP_BPF_MAP_NETWORK_POLICY_TRIE \<Rightarrow> sf_network_policy_trie skel
           | MCP_BPF_MAP_RESOURCE_POLICY_HASH \<Rightarrow> sf_resource_policy_hash skel
           | MCP_BPF_MAP_METRICS \<Rightarrow> sf_metrics skel
           | MCP_BPF_MAP_EVENTS \<Rightarrow> sf_events skel))"

section \<open>The ring buffer reader (ringbuf_reader.c)\<close>

type_synonym 'c event_handler = "'c \<Rightarrow> mcp_event \<Rightarrow> (c_int \<times> 'c) option"

text \<open>The size of \<^verbatim>\<open>struct mcp_event\<close>.\<close>

abbreviation (input) sizeof_mcp_event :: nat where "sizeof_mcp_event \<equiv> 432"

definition mcp_ringbuf_dispatch ::
  "'c event_handler option \<Rightarrow> nat \<Rightarrow> mcp_event \<Rightarrow> 'c \<Rightarrow> (c_int \<times> 'c) option" where
  "mcp_ringbuf_dispatch handler len data ctx =
     (case handler of
        None \<Rightarrow> Some (0, ctx)
      | Some f \<Rightarrow> if len < sizeof_mcp_event then Some (0, ctx) else f ctx data)"

text \<open>\<open>calloc_ok\<close> and \<open>rb_errno\<close> are the outcomes of \<^verbatim>\<open>calloc\<close> and \<^verbatim>\<open>ring_buffer__new\<close>.\<close>

definition mcp_ringbuf_reader_open ::
  "bool \<Rightarrow> c_int \<Rightarrow> c_int \<Rightarrow> 'c event_handler option \<Rightarrow> c_int + 'c event_handler" where
  "mcp_ringbuf_reader_open calloc_ok rb_errno events_fd handler =
     (case handler of
        None \<Rightarrow> Inl (- 22)
      | Some f \<Rightarrow>
          if events_fd < 0 then Inl (- 22)
          else if \<not> calloc_ok then Inl (- 12)
          else if rb_errno \<noteq> 0 then Inl (- rb_errno)
          else Inr f)"

text \<open>
  \<^verbatim>\<open>ring_buffer__poll\<close> hands a batch of the events to the callback, in order, and returns their
  number or an error: the batch and the result are parameters.
\<close>

fun dispatch_all :: "'c event_handler option \<Rightarrow> mcp_event list \<Rightarrow> 'c \<Rightarrow> 'c option" where
  "dispatch_all handler [] ctx = Some ctx"
| "dispatch_all handler (event # batch) ctx =
     (case mcp_ringbuf_dispatch handler sizeof_mcp_event event ctx of
        None \<Rightarrow> None
      | Some (ret, ctx') \<Rightarrow> dispatch_all handler batch ctx')"

definition mcp_ringbuf_reader_poll ::
  "'c event_handler option \<Rightarrow> c_int \<Rightarrow> mcp_event list \<Rightarrow> 'c \<Rightarrow> (c_int \<times> 'c) option" where
  "mcp_ringbuf_reader_poll reader result batch ctx =
     (case reader of
        None \<Rightarrow> Some (- 22, ctx)
      | Some f \<Rightarrow> map_option (\<lambda>ctx'. (result, ctx')) (dispatch_all (Some f) batch ctx))"

section \<open>The state of the daemon\<close>

datatype point = Top | Accepting | Reporting | Polling | Finished

record daemon =
  dm_point :: point
  dm_maps :: bpf_state
  dm_server :: "mcp_unix_socket_server option"
  dm_sockets :: sockets
  dm_result :: mcp_policy_load_result
  dm_next_metrics_ts :: u64
  dm_stop_requested :: bool
  dm_reload_requested :: bool
  dm_err :: c_int
  dm_console :: console

text \<open>What stays the same while the daemon runs.\<close>

record daemon_env =
  de_guard :: skel_fds
  de_options :: cli_options
  de_strerror :: "c_int \<Rightarrow> string"
  de_formats :: number_formats
  de_cpus :: c_int

text \<open>What the outside world answers during one stage.\<close>

record stage_input =
  in_kern :: policy_kernel
  in_files :: file_system
  in_calloc :: bool
  in_now :: u64
  in_later :: u64
  in_poll :: c_int
  in_batch :: nat

abbreviation (input) SIGHUP :: c_int where "SIGHUP \<equiv> 1"

definition handle_signal :: "c_int \<Rightarrow> daemon \<Rightarrow> daemon" where
  "handle_signal signo d =
     (if signo = SIGHUP then d\<lparr>dm_reload_requested := True\<rparr>
      else d\<lparr>dm_stop_requested := True\<rparr>)"

text \<open>Calls that need the server are made only when there is one.\<close>

definition with_server :: "(serving \<Rightarrow> serving option) \<Rightarrow> daemon \<Rightarrow> daemon option" where
  "with_server f d =
     (case dm_server d of
        None \<Rightarrow> Some d
      | Some server \<Rightarrow>
          map_option (\<lambda>(server', w). d\<lparr>dm_server := Some server', dm_sockets := w\<rparr>)
            (f (server, dm_sockets d)))"

text \<open>\<^verbatim>\<open>printf\<close> and \<^verbatim>\<open>fprintf(stderr, ...)\<close>.\<close>

definition say :: "console \<Rightarrow> daemon \<Rightarrow> daemon" where
  "say lines d = d\<lparr>dm_console := dm_console d @ lines\<rparr>"

lemma say_fields [simp]:
  "dm_point (say lines d) = dm_point d" "dm_maps (say lines d) = dm_maps d"
  "dm_server (say lines d) = dm_server d" "dm_sockets (say lines d) = dm_sockets d"
  "dm_result (say lines d) = dm_result d" "dm_next_metrics_ts (say lines d) = dm_next_metrics_ts d"
  "dm_stop_requested (say lines d) = dm_stop_requested d"
  "dm_reload_requested (say lines d) = dm_reload_requested d" "dm_err (say lines d) = dm_err d"
  "dm_console (say lines d) = dm_console d @ lines"
  by (simp_all add: say_def)

section \<open>The stages\<close>

definition print_event :: "daemon_env \<Rightarrow> daemon \<Rightarrow> mcp_event \<Rightarrow> (c_int \<times> daemon) option" where
  "print_event env d event =
     map_option (\<lambda>d'. (0, d'))
       (with_server (mcp_unix_socket_server_publish event)
         (say (out [event_text (de_formats env) event]) d))"

definition policy_map_fds :: "skel_fds \<Rightarrow> policy_fds" where
  "policy_map_fds guard =
     (let fd = mcp_bpf_map_fd (Some guard) in
      \<lparr>fd_rules = fd MCP_BPF_MAP_POLICY_RULES, fd_path = fd MCP_BPF_MAP_PATH_POLICY_TRIE,
       fd_command = fd MCP_BPF_MAP_COMMAND_POLICY_TRIE,
       fd_network = fd MCP_BPF_MAP_NETWORK_POLICY_TRIE,
       fd_resource = fd MCP_BPF_MAP_RESOURCE_POLICY_HASH, fd_comm = fd MCP_BPF_MAP_SCOPE_COMM,
       fd_pid = fd MCP_BPF_MAP_SCOPE_PID, fd_tgid = fd MCP_BPF_MAP_SCOPE_TGID,
       fd_config = fd MCP_BPF_MAP_POLICY_CONFIG, fd_epoch = fd MCP_BPF_MAP_GLOBAL_EPOCH\<rparr>)"

text \<open>The result is the error, if any; the result of the last successful load stays on failure.\<close>

definition load_policy_or_report ::
  "daemon_env \<Rightarrow> policy_kernel \<Rightarrow> file_system \<Rightarrow> daemon \<Rightarrow> ((c_int + unit) \<times> daemon) option" where
  "load_policy_or_report env kern fs d =
     (case mcp_policy_load_dir kern (policy_map_fds (de_guard env)) fs
             (opt_policy_dir (de_options env)) (0, dm_maps d) of
        None \<Rightarrow> None
      | Some (r, n, s) \<Rightarrow>
          let d1 = d\<lparr>dm_maps := s\<rparr> in
          (case r of
             Inl err \<Rightarrow>
               map_option (\<lambda>d'. (Inl err, d'))
                 (with_server
                   (mcp_unix_socket_server_publish_reload False
                     (plr_rule_count (dm_result d1)) (plr_active_generation (dm_result d1))
                     (plr_epoch (dm_result d1)) (de_strerror env (- err)))
                   (say (load_failure_report (opt_policy_dir (de_options env))
                     (de_strerror env (- err))) d1))
           | Inr res \<Rightarrow>
               map_option (\<lambda>d'. (Inr (), d'))
                 (with_server
                   (mcp_unix_socket_server_publish_reload True (plr_rule_count res)
                     (plr_active_generation res) (plr_epoch res) [])
                   (say (load_success_report res) (d1\<lparr>dm_result := res\<rparr>)))))"

definition publish_metrics_snapshot ::
  "daemon_env \<Rightarrow> bool \<Rightarrow> bool \<Rightarrow> daemon \<Rightarrow> daemon option" where
  "publish_metrics_snapshot env calloc_ok print_details d =
     (case read_metrics_snapshot (de_cpus env) calloc_ok
             (mcp_bpf_map_fd (Some (de_guard env)) MCP_BPF_MAP_METRICS) (dm_maps d) of
        Inl err \<Rightarrow> Some d
      | Inr snapshot \<Rightarrow>
          with_server
            (mcp_unix_socket_server_publish_metrics (nf_ratio (de_formats env))
              (ms_total_count snapshot) (ms_l1_count snapshot) (ms_l2_count snapshot)
              (ms_l3_count snapshot))
            (say (out (''metrics snapshot:'' # print_metrics_ratios (de_formats env) snapshot @
              (if print_details then print_metrics_details snapshot else []))) d))"

definition reload_stage :: "daemon_env \<Rightarrow> stage_input \<Rightarrow> daemon \<Rightarrow> daemon option" where
  "reload_stage env i d =
     (if dm_reload_requested d
      then map_option snd
        (load_policy_or_report env (in_kern i) (in_files i) (d\<lparr>dm_reload_requested := False\<rparr>))
      else Some d)"

definition accept_stage :: "daemon \<Rightarrow> daemon option" where
  "accept_stage d = with_server (\<lambda>x. Some (mcp_unix_socket_server_accept x)) d"

definition report_stage :: "daemon_env \<Rightarrow> stage_input \<Rightarrow> daemon \<Rightarrow> daemon option" where
  "report_stage env i d =
     (if opt_metrics_interval_sec (de_options env) \<noteq> 0 \<and> dm_next_metrics_ts d \<le> in_now i
      then map_option
        (\<lambda>d'. d'\<lparr>dm_next_metrics_ts :=
                  in_later i + ucast (opt_metrics_interval_sec (de_options env))\<rparr>)
        (publish_metrics_snapshot env (in_calloc i) False d)
      else Some d)"

definition poll_stage :: "daemon_env \<Rightarrow> stage_input \<Rightarrow> daemon \<Rightarrow> daemon option" where
  "poll_stage env i d =
     (let evs = events (dm_maps d);
          d1 = d\<lparr>dm_maps := (dm_maps d)\<lparr>events := drop (in_batch i) evs\<rparr>\<rparr>
      in
      map_option
        (\<lambda>(err, d').
           if err = - 4 then d'\<lparr>dm_err := 0, dm_point := Top\<rparr>
           else if err < 0
           then say [(Stderr, ''ring buffer poll failed: '' @ de_strerror env (- err))]
             (d'\<lparr>dm_err := err, dm_point := Finished\<rparr>)
           else d'\<lparr>dm_err := 0, dm_point := Top\<rparr>)
        (mcp_ringbuf_reader_poll (Some (print_event env)) (in_poll i) (take (in_batch i) evs) d1))"

definition main_stage :: "daemon_env \<Rightarrow> stage_input \<Rightarrow> daemon \<Rightarrow> daemon option" where
  "main_stage env i d =
     (case dm_point d of
        Top \<Rightarrow>
          if dm_stop_requested d then Some (d\<lparr>dm_point := Finished\<rparr>)
          else map_option (dm_point_update (\<lambda>_. Accepting)) (reload_stage env i d)
      | Accepting \<Rightarrow> map_option (dm_point_update (\<lambda>_. Reporting)) (accept_stage d)
      | Reporting \<Rightarrow> map_option (dm_point_update (\<lambda>_. Polling)) (report_stage env i d)
      | Polling \<Rightarrow> poll_stage env i d
      | Finished \<Rightarrow> Some d)"

lemmas [stage_defs] = main_stage_def reload_stage_def accept_stage_def report_stage_def

section \<open>Start and end\<close>

record startup =
  su_argv :: "string list"
  su_rlimit :: c_int
  su_bpf :: bpf_env
  su_kern :: policy_kernel
  su_files :: file_system
  su_attach :: c_int
  su_server :: server_env
  su_sockets :: sockets
  su_launch :: launch_env
  su_process :: process
  su_calloc :: bool
  su_ring_errno :: c_int
  su_now :: u64

definition zero_result :: mcp_policy_load_result where
  "zero_result =
     \<lparr>plr_rule_count = 0, plr_flags = 0, plr_active_generation = 0, plr_profile_id = 0,
      plr_agent_id = 0, plr_scope_mode = 0, plr_scope_count = 0, plr_epoch = 0,
      plr_profile_name = zeroed MCP_GUARD_PROFILE_NAME_LEN\<rparr>"

text \<open>\<open>errno\<close> is the outcome of \<^verbatim>\<open>setrlimit\<close>; a failure is only reported.\<close>

definition bump_memlock_rlimit :: "c_int \<Rightarrow> c_int" where
  "bump_memlock_rlimit errno = (if errno \<noteq> 0 then - errno else 0)"

definition memlock_report :: "daemon_env \<Rightarrow> startup \<Rightarrow> console" where
  "memlock_report env su =
     (let err = bump_memlock_rlimit (su_rlimit su) in
      if err \<noteq> 0
      then [(Stderr, ''warning: failed to raise memlock rlimit: '' @ de_strerror env (- err))]
      else [])"

text \<open>What \<^verbatim>\<open>launch_gui_if_needed\<close> prints; a \<^verbatim>\<open>fork\<close> that fails gives its negated \<open>errno\<close>.\<close>

definition launch_report :: "daemon_env \<Rightarrow> launch_env \<Rightarrow> process \<Rightarrow> cli_options \<Rightarrow> console" where
  "launch_report env le p options =
     (if \<not> should_launch_gui le p options then []
      else if le_fork le < 0
      then [(Stderr, ''warning: failed to launch GUI: '' @ de_strerror env (- le_fork le))]
      else out [''GUI auto-launch requested, pid='' @ decimal (nat (le_fork le))])"

definition usage_report :: "string list \<Rightarrow> console" where
  "usage_report argv =
     [(Stderr, ''usage: '' @ concat (take 1 argv) @
        '' [policy_dir] [--metrics-interval seconds] [--gui|--no-gui]'')]"

text \<open>
  \<^verbatim>\<open>main\<close> up to its loop: the error, the process id of the GUI and the daemon, or what has been
  printed when there is none.  Without an error the loop is entered, else \<^verbatim>\<open>out\<close>.  The policy is loaded before the
  programs are attached and before there is a server; a server that cannot be started is only
  reported.
\<close>

definition main_start ::
  "daemon_env \<Rightarrow> startup \<Rightarrow> ((c_int + unit) \<times> c_int \<times> (console + daemon)) option" where
  "main_start env su =
     (case parse_args (su_argv su) of
        Inl err \<Rightarrow> Some (Inl err, 0, Inl (usage_report (su_argv su)))
      | Inr options \<Rightarrow>
     (case mcp_bpf_open_load (su_bpf su) of
        Inl err \<Rightarrow> Some (Inl err, 0, Inl (memlock_report env su))
      | Inr s \<Rightarrow>
     (case load_policy_or_report (env\<lparr>de_options := options\<rparr>) (su_kern su) (su_files su)
             \<lparr>dm_point = Top, dm_maps = s, dm_server = None, dm_sockets = su_sockets su,
              dm_result = zero_result, dm_next_metrics_ts = 0, dm_stop_requested = False,
              dm_reload_requested = False, dm_err = 0,
              dm_console = memlock_report env su\<rparr> of
        None \<Rightarrow> None
      | Some (Inl err, d) \<Rightarrow> Some (Inl err, 0, Inr d)
      | Some (Inr _, d) \<Rightarrow>
          if su_attach su \<noteq> 0 then Some (Inl (su_attach su), 0, Inr d)
          else
            let (r, w) = mcp_unix_socket_server_start (su_server su) MCP_GUARD_SOCKET_PATH
                  (dm_sockets d);
                d1 =
                  (case r of
                     Inl e \<Rightarrow>
                       say [(Stderr, ''warning: unix socket disabled: '' @ de_strerror env (- e))]
                         (d\<lparr>dm_server := None, dm_sockets := w\<rparr>)
                   | Inr server \<Rightarrow>
                       say (out [''event socket listening at '' @ MCP_GUARD_SOCKET_PATH])
                         (d\<lparr>dm_server := Some server, dm_sockets := w\<rparr>));
                (gui_pid, child) = launch_gui_if_needed (su_launch su) (su_process su) options;
                d2 = say (launch_report env (su_launch su) (su_process su) options) d1
            in
            case mcp_ringbuf_reader_open (su_calloc su) (su_ring_errno su)
                   (mcp_bpf_map_fd (Some (de_guard env)) MCP_BPF_MAP_EVENTS) (Some (print_event env)) of
              Inl e \<Rightarrow>
                Some (Inl e, gui_pid, Inr
                  (say [(Stderr, ''failed to open ring buffer: '' @ de_strerror env (- e))] d2))
            | Inr reader \<Rightarrow>
                let d3 = say (out
                  [''mcp-guard running; send SIGHUP to reload policy, Ctrl-C to stop'']) d2
                in
                Some (Inr (), gui_pid, Inr
                  (if opt_metrics_interval_sec options \<noteq> 0
                   then d3\<lparr>dm_next_metrics_ts :=
                             su_now su + ucast (opt_metrics_interval_sec options)\<rparr>
                   else d3)))))"

text \<open>The way out: the exit status, what is done to the GUI, what is printed, and the sockets.\<close>

definition main_out ::
  "daemon_env \<Rightarrow> bool \<Rightarrow> (nat \<Rightarrow> c_int) \<Rightarrow> c_int \<Rightarrow> c_int \<Rightarrow> daemon \<Rightarrow>
   c_int \<times> stop_action list \<times> console \<times> sockets" where
  "main_out env calloc_ok wait err gui_pid d =
     (if err \<noteq> 0 then 1 else 0, stop_gui_process wait gui_pid,
      dm_console d @ print_metrics_summary (de_formats env) (de_cpus env) calloc_ok
        (mcp_bpf_map_fd (Some (de_guard env)) MCP_BPF_MAP_METRICS) (dm_maps d),
      case dm_server d of
        None \<Rightarrow> dm_sockets d
      | Some server \<Rightarrow> mcp_unix_socket_server_stop (server, dm_sockets d))"

end
