(* ===== verification/Daemon_Guarantees.thy ===== *)
theory Daemon_Guarantees
  imports Daemon
begin

text \<open>
  The daemon and the guard together: the runs of \<^verbatim>\<open>main\<close> interleaved with requests, signals and new
  connections (\<open>daemon_reach\<close>), and what holds in every reachable state: the guard enforces the
  rule files of the last successful load, and the daemon can always go on.
\<close>

section \<open>Runs\<close>

type_synonym loaded_policy = "mcp_policy_config \<times> scope_load_state \<times> mcp_policy_rule list"

definition lawful_kernel :: "policy_kernel \<Rightarrow> bool" where
  "lawful_kernel kern \<longleftrightarrow> (\<exists>fault. kernel_law fault kern)"

definition files_policy :: "file_system \<Rightarrow> string \<Rightarrow> loaded_policy option" where
  "files_policy fs dir =
     (case read_policy_dir fs dir of
        Inl err \<Rightarrow> None
      | Inr (config, scope, state) \<Rightarrow> Some (config, scope, loaded_rules state))"

text \<open>The policy that a stage puts in force: that of the files, if it reloads them and succeeds.\<close>

definition stage_loads :: "daemon_env \<Rightarrow> stage_input \<Rightarrow> daemon \<Rightarrow> loaded_policy option" where
  "stage_loads env i d =
     (if dm_point d = Top \<and> \<not> dm_stop_requested d \<and> dm_reload_requested d then
        (case mcp_policy_load_dir (in_kern i) (policy_map_fds (de_guard env)) (in_files i)
                (opt_policy_dir (de_options env)) (0, dm_maps d) of
           Some (Inr res, n, s) \<Rightarrow> files_policy (in_files i) (opt_policy_dir (de_options env))
         | _ \<Rightarrow> None)
      else None)"

text \<open>
  \<open>daemon_reach h env k p d\<close>: the daemon has come to \<open>d\<close>; \<open>p\<close> is the policy of the last
  successful load, the \<open>k\<close>-th.  In each load at most one system call fails.
\<close>

inductive daemon_reach :: "helpers \<Rightarrow> daemon_env \<Rightarrow> nat \<Rightarrow> loaded_policy \<Rightarrow> daemon \<Rightarrow> bool"
  for h :: helpers and env :: daemon_env where
  started: "main_start env su = Some (Inr (), gui_pid, Inr d) \<Longrightarrow>
    parse_args (su_argv su) = Inr (de_options env) \<Longrightarrow> lawful_kernel (su_kern su) \<Longrightarrow>
    files_policy (su_files su) (opt_policy_dir (de_options env)) = Some p \<Longrightarrow>
    daemon_reach h env 1 p d"
| signalled: "daemon_reach h env k p d \<Longrightarrow> daemon_reach h env k p (handle_signal signo d)"
| requested: "daemon_reach h env k p d \<Longrightarrow>
    daemon_reach h env k p (d\<lparr>dm_maps := snd (run_request h tk req ret (dm_maps d))\<rparr>)"
| arrived: "daemon_reach h env k p d \<Longrightarrow>
    daemon_reach h env k p
      (d\<lparr>dm_sockets := (dm_sockets d)\<lparr>sk_pending := sk_pending (dm_sockets d) @ [c]\<rparr>\<rparr>)"
| staged: "daemon_reach h env k p d \<Longrightarrow> lawful_kernel (in_kern i) \<Longrightarrow>
    main_stage env i d = Some d' \<Longrightarrow>
    daemon_reach h env (case stage_loads env i d of None \<Rightarrow> k | Some _ \<Rightarrow> Suc k)
      (case stage_loads env i d of None \<Rightarrow> p | Some p' \<Rightarrow> p') d'"

section \<open>Events\<close>

definition event_sized :: "mcp_event \<Rightarrow> bool" where
  "event_sized e \<longleftrightarrow>
     length (ev_path e) = MCP_GUARD_PATH_LEN \<and> length (ev_rule_name e) = MCP_GUARD_RULE_NAME_LEN"

lemma request_events:
  assumes "strings_law h" and "pipelines_loaded s" and "scratch_ready tk s"
    and "\<forall>e \<in> set (events s). event_sized e"
  shows "\<forall>e \<in> set (events (snd (run_request h tk req ret s))). event_sized e"
proof (cases "ret = 0 \<and> mcp_scope_matches tk s")
  case False
  then have "only_ticks s (snd (run_request h tk req ret s))"
    using request_denied [of ret h tk req s] request_out_of_scope [of tk s h req] by auto
  then show ?thesis using assms(4) by (auto simp: only_ticks_def)
next
  case True
  then have "examined h tk s" using assms(1,3) by (simp add: examined_def)
  from request_outcome [OF this assms(2), of req] True assms(4) show ?thesis
    by (auto simp: outcome_ok_def answered_def logged_def event_tells_def event_sized_def
        split: if_splits)
qed

lemma reach_events:
  assumes "strings_law h" and "lru_law (h_cache_update h)"
    and "guard_reach h n current s" and "n < 2 ^ 64"
  shows "\<forall>e \<in> set (events s). event_sized e"
  using assms(3,4)
proof (induction rule: guard_reach.induct)
  case (booted env s)
  then show ?case using open_load_ok [OF booted(1)] by (simp add: loaded_maps_def created_maps_def)
next
  case (served n current s tk req ret)
  then have "system_ok h n current s" "\<forall>e \<in> set (events s). event_sized e"
    using reach_system_ok [OF assms(1,2) served(1)] by simp_all
  then show ?case using request_events [OF assms(1)] unfolding system_ok_def by blast
next
  case (written n current s s')
  then show ?case by (auto simp: policy_write_def)
next
  case (retired n current s s')
  then show ?case by (auto simp: policy_write_def)
next
  case (bumped n current s)
  then show ?case by (simp add: epoch_bumped_def)
next
  case (drained n current s m)
  then show ?case by (auto dest: in_set_dropD)
qed

section \<open>The policy in force\<close>

definition spec_scope :: "mcp_policy_config \<Rightarrow> scope_load_state \<Rightarrow> task \<Rightarrow> bool" where
  "spec_scope config scope tk \<longleftrightarrow>
     cfg_scope_mode config = MCP_GUARD_SCOPE_SYSTEM_WIDE \<or>
     cfg_scope_mode config = MCP_GUARD_SCOPE_SCOPED \<and>
       (task_pid tk \<in> set (sls_pid_keys scope) \<or> task_tgid tk \<in> set (sls_tgid_keys scope) \<or>
        \<lparr>csk_comm = t_comm tk\<rparr> \<in> set (sls_comm_keys scope))"

definition spec_ret :: "mcp_policy_config \<Rightarrow> decision \<Rightarrow> c_int" where
  "spec_ret config d =
     (if d_action d = MCP_GUARD_ACTION_DENY \<and> cfg_enforce config \<noteq> 0
      then - MCP_GUARD_DENY_ERRNO else 0)"

fun enforces :: "helpers \<Rightarrow> loaded_policy \<Rightarrow> bpf_state \<Rightarrow> bool" where
  "enforces h (config, scope, rules) s \<longleftrightarrow>
     (\<forall>req. policy_verdict h req s = spec_verdict config rules req) \<and>
     (\<forall>tk. mcp_scope_matches tk s = spec_scope config scope tk) \<and>
     (mcp_policy_enforced s \<longleftrightarrow> cfg_enforce config \<noteq> 0)"

lemma map_of_constant:
  assumes "set m = (\<lambda>k. (k, v)) ` K"
  shows "map_of m k = (if k \<in> K then Some v else None)"
proof (cases "k \<in> K")
  case True
  then obtain w where "map_of m k = Some w"
    using assms by (metis (no_types, lifting) imageI weak_map_of_SomeI)
  moreover from map_of_SomeD [OF this] have "w = v" using assms by auto
  ultimately show ?thesis using True by simp
next
  case False
  then have "k \<notin> fst ` set m" using assms by auto
  then show ?thesis using False by (simp add: map_of_eq_None_iff)
qed

lemma in_force_scope:
  assumes "in_force config scope rules s"
  shows "mcp_scope_matches tk s = spec_scope config scope tk"
proof -
  have "map_of (scope_pid s) a = (if a \<in> set (sls_pid_keys scope)
        then Some (scope_value config MCP_GUARD_SCOPE_SELECTOR_PID) else None)"
    "map_of (scope_tgid s) b = (if b \<in> set (sls_tgid_keys scope)
        then Some (scope_value config MCP_GUARD_SCOPE_SELECTOR_TGID) else None)"
    "map_of (scope_comm s) c = (if c \<in> set (sls_comm_keys scope)
        then Some (scope_value config MCP_GUARD_SCOPE_SELECTOR_COMM) else None)"
    for a b c
    by (rule map_of_constant, use assms in \<open>simp add: in_force_def\<close>)+
  moreover have "mcp_config s = Some config"
    using assms by (simp add: in_force_def mcp_config_def)
  ultimately show ?thesis
    by (simp add: mcp_scope_matches_def spec_scope_def scope_entry_matches_def scope_value_def)
qed

lemma load_enforces:
  assumes "new_policy fs dir s res s'" and "tries_law h" and "files_policy fs dir = Some p"
  shows "enforces h p s'"
proof -
  from assms(1) obtain config scope state where
    read: "read_policy_dir fs dir = Inr (config, scope, state)"
    and force: "in_force (config\<lparr>cfg_active_generation := plr_active_generation res\<rparr>) scope
       (loaded_rules state) s'"
    by (rule new_policy_facts) blast
  have p: "p = (config, scope, loaded_rules state)"
    using assms(3) read by (simp add: files_policy_def)
  have "mcp_policy_enforced s' \<longleftrightarrow> cfg_enforce config \<noteq> 0"
    using force by (simp add: mcp_policy_enforced_def mcp_config_def in_force_def)
  then show ?thesis
    using load_implements [OF assms(1,2) read] in_force_scope [OF force]
    by (simp add: p spec_scope_def)
qed

lemma enforces_same:
  assumes "enforces h p s" and "\<forall>req. policy_verdict h req s' = policy_verdict h req s"
    and "\<forall>tk. mcp_scope_matches tk s' = mcp_scope_matches tk s"
    and "mcp_policy_enforced s' = mcp_policy_enforced s"
  shows "enforces h p s'"
  using assms by (cases p) simp

lemma enforces_view:
  assumes "enforces h p s" and "policy_view s' = policy_view s"
  shows "enforces h p s'"
  using assms(1) quiet_verdict [OF assms(2)] view_config(5,7) [OF assms(2)]
  by (intro enforces_same [OF assms(1)]) simp_all

lemma committed_maps_ok:
  assumes "new_policy fs dir s res s'"
  shows "policy_maps_ok s'"
  using assms
proof (rule new_policy_facts)
  fix rl assume rl: "rl_start rl = s" "committed rl s'" "policy_maps_ok s"
  then show ?thesis by (auto simp: committed_def policy_maps_ok_def)
qed

lemma maps_ok_view:
  assumes "policy_maps_ok s" and "policy_view s' = policy_view s"
  shows "policy_maps_ok s'"
  using assms view_fields [OF assms(2)] by (simp add: policy_maps_ok_def)

section \<open>The stages\<close>

definition slots_ok :: "daemon \<Rightarrow> bool" where
  "slots_ok d \<longleftrightarrow>
     (\<forall>server. dm_server d = Some server \<longrightarrow>
        length (srv_clients server) = MCP_GUARD_MAX_CLIENTS)"

text \<open>Serving changes the server and its sockets only.\<close>

definition only_serves :: "daemon \<Rightarrow> daemon \<Rightarrow> bool" where
  "only_serves d d' \<longleftrightarrow>
     dm_point d' = dm_point d \<and> dm_maps d' = dm_maps d \<and> dm_result d' = dm_result d \<and>
     dm_next_metrics_ts d' = dm_next_metrics_ts d \<and>
     dm_stop_requested d' = dm_stop_requested d \<and>
     dm_reload_requested d' = dm_reload_requested d \<and> dm_err d' = dm_err d \<and>
     (slots_ok d \<longrightarrow> slots_ok d')"

lemma only_serves_trans: "only_serves d d1 \<Longrightarrow> only_serves d1 d2 \<Longrightarrow> only_serves d d2"
  by (auto simp: only_serves_def)

lemma say_serves [simp]:
  "slots_ok (say lines d) = slots_ok d" "only_serves (say lines d) d' = only_serves d d'"
  by (simp_all add: slots_ok_def only_serves_def)

lemma only_serves_maps: "only_serves d d' \<Longrightarrow> dm_maps d' = dm_maps d"
  by (auto simp: only_serves_def)

definition keeps_slots :: "(serving \<Rightarrow> serving option) \<Rightarrow> bool" where
  "keeps_slots f \<longleftrightarrow>
     (\<forall>x y. f x = Some y \<longrightarrow> length (srv_clients (fst x)) = MCP_GUARD_MAX_CLIENTS \<longrightarrow>
        length (srv_clients (fst y)) = MCP_GUARD_MAX_CLIENTS)"

lemma publish_line_slots:
  assumes "length (srv_clients (fst x)) = MCP_GUARD_MAX_CLIENTS"
  shows "length (srv_clients (fst (publish_line line x))) = MCP_GUARD_MAX_CLIENTS"
  using write_all_ok [of 16 "mcp_unix_socket_server_accept x" line] accept_ok [of x] assms
  by (simp add: publish_line_def)

lemma publish_formatted_slots: "keeps_slots (publish_formatted n line)"
  unfolding keeps_slots_def publish_formatted_def map_option_eq_Some
  using publish_line_slots by blast

lemma publish_slots:
  "keeps_slots (mcp_unix_socket_server_publish event)"
  "keeps_slots (mcp_unix_socket_server_publish_metrics ratio a b c e)"
  "keeps_slots (mcp_unix_socket_server_publish_reload ok r g ep err)"
  "keeps_slots (\<lambda>x. Some (mcp_unix_socket_server_accept x))"
  by (simp_all add: mcp_unix_socket_server_publish_def publish_formatted_slots
      mcp_unix_socket_server_publish_metrics_def mcp_unix_socket_server_publish_reload_def)
    (simp add: keeps_slots_def accept_ok del: split_paired_All)

lemma with_server_serves:
  assumes "keeps_slots f" and "with_server f d = Some d'"
  shows "only_serves d d'"
proof (cases "dm_server d")
  case None
  then show ?thesis using assms(2) by (simp add: with_server_def only_serves_def)
next
  case (Some server)
  then obtain server' w where f: "f (server, dm_sockets d) = Some (server', w)"
    and d': "d' = d\<lparr>dm_server := Some server', dm_sockets := w\<rparr>"
    using assms(2) by (auto simp: with_server_def)
  show ?thesis
    using f Some assms(1) unfolding only_serves_def keeps_slots_def slots_ok_def
    by (auto simp: d')
qed

lemma say_served:
  assumes "keeps_slots f" and "with_server f (say lines d) = Some d'"
  shows "only_serves d d'"
  using with_server_serves [OF assms] by simp

lemma print_event_Some:
  "print_event env d event = Some (ret, d') \<longleftrightarrow>
     ret = 0 \<and> with_server (mcp_unix_socket_server_publish event)
       (say (out [event_text (de_formats env) event]) d) = Some d'"
  by (auto simp: print_event_def)

lemma dispatch_serves:
  "dispatch_all (Some (print_event env)) batch d = Some d' \<Longrightarrow> only_serves d d'"
proof (induction batch arbitrary: d)
  case Nil
  then show ?case by (simp add: only_serves_def)
next
  case (Cons event batch)
  then obtain d1 where "with_server (mcp_unix_socket_server_publish event)
      (say (out [event_text (de_formats env) event]) d) = Some d1"
    "dispatch_all (Some (print_event env)) batch d1 = Some d'"
    by (auto simp: mcp_ringbuf_dispatch_def print_event_Some split: option.splits)
  with with_server_serves [OF publish_slots(1)] Cons.IH have
    "only_serves (say (out [event_text (de_formats env) event]) d) d1" "only_serves d1 d'"
    by blast+
  then show ?case by (auto intro: only_serves_trans)
qed

lemma load_report:
  assumes "load_policy_or_report env kern fs d = Some (r, d')"
  obtains q n s d1 where
    "mcp_policy_load_dir kern (policy_map_fds (de_guard env)) fs (opt_policy_dir (de_options env))
       (0, dm_maps d) = Some (q, n, s)"
    "dm_maps d1 = s" "slots_ok d1 = slots_ok d" "dm_point d1 = dm_point d"
    "dm_stop_requested d1 = dm_stop_requested d"
    "only_serves d1 d'" "case q of Inl err \<Rightarrow> r = Inl err | Inr res \<Rightarrow> r = Inr ()"
proof -
  obtain q n s where load: "mcp_policy_load_dir kern (policy_map_fds (de_guard env)) fs
      (opt_policy_dir (de_options env)) (0, dm_maps d) = Some (q, n, s)"
    using assms by (auto simp: load_policy_or_report_def split: option.splits)
  define d1 where "d1 = (case q of Inl err \<Rightarrow> d\<lparr>dm_maps := s\<rparr>
    | Inr res \<Rightarrow> d\<lparr>dm_maps := s, dm_result := res\<rparr>)"
  have "only_serves d1 d'" "case q of Inl err \<Rightarrow> r = Inl err | Inr res \<Rightarrow> r = Inr ()"
    using assms load say_served [OF publish_slots(3)]
    by (auto simp: load_policy_or_report_def d1_def split: sum.splits)
  moreover have "dm_maps d1 = s" "slots_ok d1 = slots_ok d" "dm_point d1 = dm_point d"
    "dm_stop_requested d1 = dm_stop_requested d"
    by (simp_all add: d1_def slots_ok_def split: sum.split)
  ultimately show thesis using that load by blast
qed

section \<open>The invariant\<close>

definition maps_follow :: "helpers \<Rightarrow> nat \<Rightarrow> loaded_policy \<Rightarrow> bpf_state \<Rightarrow> bool" where
  "maps_follow h k p s \<longleftrightarrow> guard_reach h k True s \<and> policy_maps_ok s \<and> enforces h p s"

lemma follow_load:
  assumes "kernel_law fault kern" and "fds_ok fds" and "tries_law h"
    and "guard_reach h k True s" and "policy_maps_ok s"
    and "mcp_policy_load_dir kern fds fs dir (n, s) = Some (Inr res, n', s')"
    and "files_policy fs dir = Some p"
  shows "maps_follow h (Suc k) p s'"
proof -
  note new = load_success [OF assms(1,2,5,6)]
  show ?thesis
    using reload_reach [OF new assms(4)] load_enforces [OF new assms(3,7)] committed_maps_ok [OF new]
    by (simp add: maps_follow_def)
qed

lemma follow_failed_load:
  assumes "kernel_law fault kern" and "fds_ok fds" and "tries_law h"
    and "maps_follow h k p s"
    and "mcp_policy_load_dir kern fds fs dir (n, s) = Some (Inl err, n', s')"
  shows "maps_follow h k p s'"
proof -
  have s: "guard_reach h k True s" "policy_maps_ok s" "enforces h p s"
    using assms(4) by (simp_all add: maps_follow_def)
  note same = load_failure [OF assms(1,2) s(2) assms(5)]
  note facts = same_policy_facts [OF same s(2)]
  have verdict: "\<forall>req. policy_verdict h req s' = policy_verdict h req s" using facts(8) assms(3) by simp
  have "mcp_policy_enforced s' = mcp_policy_enforced s"
    using facts(3) by (simp add: mcp_policy_enforced_def mcp_config_def)
  then show ?thesis
    using retired [OF s(1) facts(1) verdict] facts(7) enforces_same [OF s(3) verdict] facts(2)
    by (simp add: maps_follow_def)
qed

lemma follow_view:
  assumes "maps_follow h k p s" and "guard_reach h k True s'" and "policy_view s' = policy_view s"
  shows "maps_follow h k p s'"
  using assms maps_ok_view [OF _ assms(3)] enforces_view [OF _ assms(3)]
  by (simp add: maps_follow_def)

lemma load_has_files:
  assumes "kernel_law fault kern" and "fds_ok fds" and "policy_maps_ok s"
    and "mcp_policy_load_dir kern fds fs dir (n, s) = Some (Inr res, n', s')"
  obtains p where "files_policy fs dir = Some p"
  using load_success [OF assms] by (rule new_policy_facts) (auto simp: files_policy_def)

lemma start_facts:
  assumes start: "main_start env su = Some (Inr (), gui_pid, Inr d)"
    and args: "parse_args (su_argv su) = Inr (de_options env)"
  obtains res n s' where "dm_maps d = s'" "slots_ok d"
    "mcp_policy_load_dir (su_kern su) (policy_map_fds (de_guard env)) (su_files su)
       (opt_policy_dir (de_options env)) (0, loaded_maps) = Some (Inr res, n, s')"
proof -
  obtain s d0 where s: "mcp_bpf_open_load (su_bpf su) = Inr s"
    and load: "load_policy_or_report env (su_kern su) (su_files su)
      \<lparr>dm_point = Top, dm_maps = s, dm_server = None, dm_sockets = su_sockets su,
       dm_result = zero_result, dm_next_metrics_ts = 0, dm_stop_requested = False,
       dm_reload_requested = False, dm_err = 0, dm_console = memlock_report env su\<rparr> = Some (Inr (), d0)"
    and maps: "dm_maps d = dm_maps d0"
    and server: "dm_server d = (case fst (mcp_unix_socket_server_start (su_server su)
      MCP_GUARD_SOCKET_PATH (dm_sockets d0)) of Inl e \<Rightarrow> None | Inr server \<Rightarrow> Some server)"
    using start args
    by (auto simp: main_start_def Let_def case_prod_beta split: sum.splits option.splits if_splits)
  have "slots_ok d"
    using server
    by (auto simp: slots_ok_def mcp_unix_socket_server_start_def Let_def
        split: sum.splits if_splits)
  moreover obtain res n where "mcp_policy_load_dir (su_kern su) (policy_map_fds (de_guard env))
      (su_files su) (opt_policy_dir (de_options env)) (0, s) = Some (Inr res, n, dm_maps d)"
    by (rule load_report [OF load]) (auto simp: only_serves_def maps split: sum.splits)
  ultimately show thesis using that open_load_ok [OF s] by blast
qed

text \<open>The ring buffer after a batch has been taken from it.\<close>

abbreviation taken :: "stage_input \<Rightarrow> daemon \<Rightarrow> daemon" where
  "taken i d \<equiv> d\<lparr>dm_maps := (dm_maps d)\<lparr>events := drop (in_batch i) (events (dm_maps d))\<rparr>\<rparr>"

lemma poll_stage_Some:
  assumes "poll_stage env i d = Some d'"
  obtains d1 where
    "dispatch_all (Some (print_event env)) (take (in_batch i) (events (dm_maps d))) (taken i d) = Some d1"
    "d' = (if in_poll i = - 4 then d1\<lparr>dm_err := 0, dm_point := Top\<rparr>
       else if in_poll i < 0
       then say [(Stderr, ''ring buffer poll failed: '' @ de_strerror env (- in_poll i))]
         (d1\<lparr>dm_err := in_poll i, dm_point := Finished\<rparr>)
       else d1\<lparr>dm_err := 0, dm_point := Top\<rparr>)"
proof -
  define d0 where "d0 = taken i d"
  have poll: "poll_stage env i d = map_option
      (\<lambda>d1. if in_poll i = - 4 then d1\<lparr>dm_err := 0, dm_point := Top\<rparr>
        else if in_poll i < 0
        then say [(Stderr, ''ring buffer poll failed: '' @ de_strerror env (- in_poll i))]
          (d1\<lparr>dm_err := in_poll i, dm_point := Finished\<rparr>)
        else d1\<lparr>dm_err := 0, dm_point := Top\<rparr>)
      (dispatch_all (Some (print_event env)) (take (in_batch i) (events (dm_maps d))) d0)"
    by (simp only: poll_stage_def Let_def mcp_ringbuf_reader_poll_def option.case d0_def
        option.map_comp comp_def prod.case)
  obtain d1 where batch:
      "dispatch_all (Some (print_event env)) (take (in_batch i) (events (dm_maps d))) d0 = Some d1"
    using assms unfolding poll map_option_eq_Some by (elim exE conjE)
  with assms show thesis unfolding poll d0_def by (intro that [of d1]) simp_all
qed

lemma poll_stage_frame:
  assumes "poll_stage env i d = Some d'"
  shows "dm_maps d' = (dm_maps d)\<lparr>events := drop (in_batch i) (events (dm_maps d))\<rparr> \<and>
    (slots_ok d \<longrightarrow> slots_ok d')"
  using assms
proof (rule poll_stage_Some)
  fix d1
  assume batch: "dispatch_all (Some (print_event env)) (take (in_batch i) (events (dm_maps d)))
      (taken i d) = Some d1"
    and d': "d' = (if in_poll i = - 4 then d1\<lparr>dm_err := 0, dm_point := Top\<rparr>
       else if in_poll i < 0
       then say [(Stderr, ''ring buffer poll failed: '' @ de_strerror env (- in_poll i))]
         (d1\<lparr>dm_err := in_poll i, dm_point := Finished\<rparr>)
       else d1\<lparr>dm_err := 0, dm_point := Top\<rparr>)"
  from d' have "dm_maps d' = dm_maps d1" "slots_ok d' = slots_ok d1"
    by (simp_all add: slots_ok_def)
  moreover have "dm_maps d1 = dm_maps (taken i d)" "slots_ok (taken i d) \<longrightarrow> slots_ok d1"
    using dispatch_serves [OF batch] unfolding only_serves_def by blast+
  moreover have "slots_ok (taken i d) = slots_ok d" by (simp add: slots_ok_def)
  ultimately show ?thesis by simp
qed

text \<open>Stages that load nothing keep what the maps enforce.\<close>

lemma stage_follows:
  assumes "tries_law h" and "fds_ok (policy_map_fds (de_guard env))"
    and "lawful_kernel (in_kern i)" and stage: "main_stage env i d = Some d'"
    and follow: "maps_follow h k p (dm_maps d)" and slots: "slots_ok d"
  shows "maps_follow h (case stage_loads env i d of None \<Rightarrow> k | Some _ \<Rightarrow> Suc k)
      (case stage_loads env i d of None \<Rightarrow> p | Some p' \<Rightarrow> p') (dm_maps d') \<and> slots_ok d'"
proof -
  obtain fault where kern: "kernel_law fault (in_kern i)"
    using assms(3) by (auto simp: lawful_kernel_def)
  have reach: "guard_reach h k True (dm_maps d)" "policy_maps_ok (dm_maps d)"
    using follow by (simp_all add: maps_follow_def)
  show ?thesis
  proof (cases "dm_point d")
    case Top
    show ?thesis
    proof (cases "\<not> dm_stop_requested d \<and> dm_reload_requested d")
      case False
      then have "dm_maps d' = dm_maps d" "slots_ok d' = slots_ok d"
        using stage Top
        by (auto simp: stage_defs slots_ok_def split: if_splits)
      moreover have "stage_loads env i d = None" using False by (auto simp: stage_loads_def)
      ultimately show ?thesis using follow slots by simp
    next
      case True
      then obtain r d2 where report: "load_policy_or_report env (in_kern i) (in_files i)
          (d\<lparr>dm_reload_requested := False\<rparr>) = Some (r, d2)"
        and d': "dm_maps d' = dm_maps d2" "slots_ok d' = slots_ok d2"
        using stage Top by (auto simp: stage_defs slots_ok_def)
      obtain q n d1 where load': "mcp_policy_load_dir (in_kern i) (policy_map_fds (de_guard env))
          (in_files i) (opt_policy_dir (de_options env))
          (0, dm_maps (d\<lparr>dm_reload_requested := False\<rparr>)) = Some (q, n, dm_maps d1)"
        and "slots_ok d1 = slots_ok (d\<lparr>dm_reload_requested := False\<rparr>)" "only_serves d1 d2"
        by (rule load_report [OF report]) (blast intro: that)
      then have d1: "slots_ok d1 = slots_ok d" "only_serves d1 d2" by (simp_all add: slots_ok_def)
      note load = load' [simplified]
      have maps: "dm_maps d' = dm_maps d1" and ok: "slots_ok d'"
        using d' d1 slots by (simp_all add: only_serves_def)
      show ?thesis
      proof (cases q)
        case (Inl err)
        then have "stage_loads env i d = None" using load by (simp add: stage_loads_def)
        then show ?thesis
          using follow_failed_load [OF kern assms(2,1) follow load [unfolded Inl]] maps ok by simp
      next
        case (Inr res)
        obtain p' where p': "files_policy (in_files i) (opt_policy_dir (de_options env)) = Some p'"
          by (rule load_has_files [OF kern assms(2) reach(2) load [unfolded Inr]])
        then have "stage_loads env i d = Some p'"
          using load Inr True Top by (simp add: stage_loads_def)
        then show ?thesis
          using follow_load [OF kern assms(2,1) reach load [unfolded Inr] p'] maps ok by simp
      qed
    qed
  next
    case Accepting
    then obtain d1 where "with_server (\<lambda>x. Some (mcp_unix_socket_server_accept x)) d = Some d1"
      "dm_maps d' = dm_maps d1" "slots_ok d' = slots_ok d1"
      using stage by (auto simp: stage_defs slots_ok_def)
    with with_server_serves [OF publish_slots(4)] have "dm_maps d' = dm_maps d" "slots_ok d'"
      using slots by (auto simp: only_serves_def)
    then show ?thesis using follow Accepting by (simp add: stage_loads_def)
  next
    case Reporting
    have "dm_maps d' = dm_maps d \<and> slots_ok d'"
      using stage Reporting slots
      by (auto simp: stage_defs publish_metrics_snapshot_def only_serves_def
          slots_ok_def split: if_splits sum.splits
          dest!: with_server_serves [OF publish_slots(2)])
    then show ?thesis using follow Reporting by (simp add: stage_loads_def)
  next
    case Polling
    then have "poll_stage env i d = Some d'" using stage by (simp add: main_stage_def)
    from poll_stage_frame [OF this] slots have
      "dm_maps d' = (dm_maps d)\<lparr>events := drop (in_batch i) (events (dm_maps d))\<rparr>" "slots_ok d'"
      by blast+
    moreover have "maps_follow h k p ((dm_maps d)\<lparr>events := drop (in_batch i) (events (dm_maps d))\<rparr>)"
      by (rule follow_view [OF follow drained [OF reach(1)]]) simp
    ultimately show ?thesis using Polling by (simp add: stage_loads_def)
  next
    case Finished
    then show ?thesis using stage follow slots by (simp add: main_stage_def stage_loads_def)
  qed
qed

theorem reach_daemon:
  assumes "tries_law h" and "fds_ok (policy_map_fds (de_guard env))" and "daemon_reach h env k p d"
  shows "maps_follow h k p (dm_maps d) \<and> slots_ok d"
  using assms(3)
proof (induction rule: daemon_reach.induct)
  case (started su gui_pid d p)
  obtain fault where kern: "kernel_law fault (su_kern su)"
    using started(3) by (auto simp: lawful_kernel_def)
  from start_facts [OF started(1,2)] obtain res n where "slots_ok d"
    and "mcp_policy_load_dir (su_kern su) (policy_map_fds (de_guard env)) (su_files su)
      (opt_policy_dir (de_options env)) (0, loaded_maps) = Some (Inr res, n, dm_maps d)"
    by blast
  with follow_load [OF kern assms(2,1) loaded_reach loaded_maps_ok(1) _ started(4)]
  show ?case by simp
next
  case (signalled k p d signo)
  then show ?case by (simp add: handle_signal_def slots_ok_def)
next
  case (requested k p d tk req ret)
  then have follow: "maps_follow h k p (dm_maps d)" by simp
  then have "guard_reach h k True (dm_maps d)" by (simp add: maps_follow_def)
  from follow_view [OF follow served [OF this] request_view] requested
  show ?case by (simp add: slots_ok_def)
next
  case (arrived k p d c)
  then show ?case by (simp add: slots_ok_def)
next
  case (staged k p d i d')
  then show ?case using stage_follows [OF assms(1,2)] by blast
qed

section \<open>Decisions\<close>

lemma hit_key:
  assumes "request_hit tk req s = Some d"
  obtains v where
    "l1_hit tk (mcp_fill_cache_key tk (request_hook req) (request_resource req)) s = Some v"
    "d = hit_decision v"
  using assms
  by (cases req) (auto simp: socket_hit_def hook_hit_def case_prod_beta split: if_splits)

lemma reach_request:
  assumes "strings_law h" and "lru_law (h_cache_update h)" and "guard_reach h n True s"
    and "n < 2 ^ 64" and "mcp_scope_matches tk s"
  obtains req' where "req' = req \<or> caches_under req' (request_hook req) (request_resource req)"
    "fst (run_request h tk req 0 s) = mcp_action_ret (d_action (policy_verdict h req' s)) s"
proof -
  have ok: "system_ok h n True s" by (rule reach_system_ok [OF assms(1-4)])
  then have "examined h tk s" "pipelines_loaded s"
    using assms(1,5) by (simp_all add: system_ok_def examined_def)
  from request_outcome [OF this, of req]
  have ret: "fst (run_request h tk req 0 s) =
      mcp_action_ret (d_action (request_decision h tk req s)) s"
    by (simp add: outcome_ok_def)
  show thesis
  proof (cases "request_hit tk req s")
    case None
    then show thesis using ret that [of req] by (simp add: request_decision_cases)
  next
    case (Some d)
    then obtain v where
      hit: "l1_hit tk (mcp_fill_cache_key tk (request_hook req) (request_resource req)) s = Some v"
      and d: "d = hit_decision v"
      by (rule hit_key)
    from reach_hit [OF assms(1-4) hit] obtain req' where
      "caches_under req' (request_hook req) (request_resource req)"
      "cv_action v = d_action (policy_verdict h req' s)"
      by (auto simp: justified_def mcp_fill_cache_key_def)
    then show thesis using ret that [of req'] Some d by (simp add: request_decision_cases)
  qed
qed

lemma enforced_ret:
  assumes "enforces h (config, scope, rules) s"
  shows "mcp_action_ret (d_action (policy_verdict h req s)) s =
    spec_ret config (spec_verdict config rules req)"
  using assms policy_verdict_valid [of h req s]
  by (simp add: spec_ret_def mcp_action_ret_def mcp_should_block_def)

section \<open>Going on\<close>

definition formats_ok :: "daemon_env \<Rightarrow> bool" where
  "formats_ok env \<longleftrightarrow>
     (\<forall>err. length (de_strerror env err) \<le> 256) \<and> (\<forall>a b. length (nf_ratio (de_formats env) a b) \<le> 27)"

lemma line_lengths:
  "event_sized event \<Longrightarrow> length (event_line event) < 768"
  "length err \<le> 256 \<Longrightarrow> length (reload_line ok cnt gen epoch err) < 512"
  "\<forall>a b. length (ratio a b) \<le> 27 \<Longrightarrow> length (metrics_line ratio n l1 l2 l3) < 512"
proof -
  show "length (event_line event) < 768" if "event_sized event"
    using that by (intro event_line_length) (simp_all add: event_sized_def)
  show "length (reload_line ok cnt gen epoch err) < 512" if "length err \<le> 256"
    using that decimal_bits(2) [of cnt] decimal_bits(2) [of gen] decimal_bits(1) [of epoch]
    by (simp add: reload_line_def)
  show "length (metrics_line ratio n l1 l2 l3) < 512" if "\<forall>a b. length (ratio a b) \<le> 27"
    using that [rule_format, of l1 n] that [rule_format, of l2 n] that [rule_format, of l3 n]
      decimal_bits(1) [of n] decimal_bits(1) [of l1] decimal_bits(1) [of l2] decimal_bits(1) [of l3]
    by (cases "n = 0") (simp_all add: metrics_line_def Let_def)
qed

lemma publish_total:
  "event_sized event \<Longrightarrow> mcp_unix_socket_server_publish event x =
     Some (publish_line (event_line event) x)"
  "length err \<le> 256 \<Longrightarrow> mcp_unix_socket_server_publish_reload ok cnt gen epoch err x =
     Some (publish_line (reload_line ok cnt gen epoch err) x)"
  "\<forall>a b. length (ratio a b) \<le> 27 \<Longrightarrow>
     mcp_unix_socket_server_publish_metrics ratio n l1 l2 l3 x =
     Some (publish_line (metrics_line ratio n l1 l2 l3) x)"
  using line_lengths(1) [of event] line_lengths(2) [of err ok cnt gen epoch]
    line_lengths(3) [of ratio n l1 l2 l3]
  by (simp_all add: mcp_unix_socket_server_publish_def mcp_unix_socket_server_publish_reload_def
      mcp_unix_socket_server_publish_metrics_def publish_formatted_def formatted_def)

lemma with_server_total: "\<forall>x. f x \<noteq> None \<Longrightarrow> \<exists>d'. with_server f d = Some d'"
  by (auto simp: with_server_def split: option.split)

lemma dispatch_total:
  "\<forall>e \<in> set batch. event_sized e \<Longrightarrow> \<exists>d'. dispatch_all (Some (print_event env)) batch d = Some d'"
proof (induction batch arbitrary: d)
  case Nil
  then show ?case by simp
next
  case (Cons event batch)
  then obtain d1 where "print_event env d event = Some (0, d1)"
    using with_server_total [of "mcp_unix_socket_server_publish event"
        "say (out [event_text (de_formats env) event]) d"]
    by (auto simp: print_event_Some publish_total)
  then show ?case using Cons by (simp add: mcp_ringbuf_dispatch_def)
qed

lemma reload_total:
  assumes "formats_ok env" and "kernel_law fault kern" and "fds_ok (policy_map_fds (de_guard env))"
    and "policy_maps_ok (dm_maps d)"
  shows "\<exists>r d'. load_policy_or_report env kern fs d = Some (r, d')"
proof -
  obtain q n s where load: "mcp_policy_load_dir kern (policy_map_fds (de_guard env)) fs
      (opt_policy_dir (de_options env)) (0, dm_maps d) = Some (q, n, s)"
    using load_total [OF assms(2-4), of fs "opt_policy_dir (de_options env)" 0] by auto
  have "\<exists>d'. with_server (mcp_unix_socket_server_publish_reload ok cnt gen epoch err) d1 = Some d'"
    if "length err \<le> 256" for ok cnt gen epoch err d1
    using that by (intro with_server_total) (simp add: publish_total)
  moreover have "length (de_strerror env e) \<le> 256" for e
    using assms(1) by (simp add: formats_ok_def)
  ultimately have publish:
    "\<exists>d'. with_server (mcp_unix_socket_server_publish_reload ok cnt gen epoch (de_strerror env e)) d1 =
       Some d'"
    "\<exists>d'. with_server (mcp_unix_socket_server_publish_reload ok cnt gen epoch []) d1 = Some d'"
    for ok cnt gen epoch e d1
    by simp_all
  show ?thesis
  proof (cases q)
    case (Inl err)
    then show ?thesis using load publish(1) by (fastforce simp: load_policy_or_report_def)
  next
    case (Inr res)
    then show ?thesis using load publish(2) by (fastforce simp: load_policy_or_report_def)
  qed
qed

lemma stage_total:
  assumes laws: "strings_law h" "lru_law (h_cache_update h)" and "k < 2 ^ 64"
    and "formats_ok env" and "fds_ok (policy_map_fds (de_guard env))"
    and "lawful_kernel (in_kern i)" and follow: "maps_follow h k p (dm_maps d)"
  shows "\<exists>d'. main_stage env i d = Some d'"
proof (cases "dm_point d")
  case Top
  obtain fault where "kernel_law fault (in_kern i)" using assms(6) by (auto simp: lawful_kernel_def)
  from reload_total [OF assms(4) this assms(5), of "d\<lparr>dm_reload_requested := False\<rparr>" "in_files i"]
  show ?thesis using follow Top by (auto simp: maps_follow_def stage_defs)
next
  case Accepting
  then show ?thesis
    using with_server_total [of "\<lambda>x. Some (mcp_unix_socket_server_accept x)" d]
    by (auto simp: stage_defs)
next
  case Reporting
  have "\<exists>d'. with_server (mcp_unix_socket_server_publish_metrics (nf_ratio (de_formats env)) n a b c) d1 = Some d'"
    for n a b c d1
    using assms(4) by (intro with_server_total) (simp add: publish_total formats_ok_def)
  then show ?thesis
    using Reporting
    by (fastforce simp: stage_defs publish_metrics_snapshot_def
        split: sum.split)
next
  case Polling
  have "\<forall>e \<in> set (take (in_batch i) (events (dm_maps d))). event_sized e"
    using reach_events [OF laws _ assms(3)] follow
    by (auto simp: maps_follow_def dest: in_set_takeD)
  from dispatch_total [OF this] show ?thesis
    using Polling
    by (auto simp: main_stage_def poll_stage_def mcp_ringbuf_reader_poll_def Let_def)
next
  case Finished
  then show ?thesis by (simp add: main_stage_def)
qed

section \<open>A sample daemon\<close>

definition sample_skel :: skel_fds where
  "sample_skel =
     \<lparr>sf_l1_cache = 3, sf_global_epoch = 13, sf_policy_config = 12, sf_policy_rules = 4,
      sf_scope_comm = 9, sf_scope_pid = 10, sf_scope_tgid = 11, sf_path_policy_trie = 5,
      sf_command_policy_trie = 6, sf_network_policy_trie = 7, sf_resource_policy_hash = 8,
      sf_metrics = 14, sf_events = 15\<rparr>"

definition sample_formats :: number_formats where
  "sample_formats =
     \<lparr>nf_ratio = (\<lambda>a b. ''0.500000''), nf_us = (\<lambda>ns. ''1.000''), nf_delta = (\<lambda>ns layer. ''0.011'')\<rparr>"

definition sample_daemon_env :: daemon_env where
  "sample_daemon_env =
     \<lparr>de_guard = sample_skel,
      de_options = \<lparr>opt_policy_dir = ''/p'', opt_metrics_interval_sec = 0, opt_gui_mode = 0\<rparr>,
      de_strerror = (\<lambda>err. ''error''), de_formats = sample_formats, de_cpus = 4\<rparr>"

definition sample_startup :: startup where
  "sample_startup =
     \<lparr>su_argv = [''mcp-guard'', ''--no-gui'', ''/p''], su_rlimit = 1, su_bpf = sample_env, su_kern = healthy,
      su_files = sample_dir, su_attach = 0,
      su_server = \<lparr>se_calloc = True, se_socket = Inr 20, se_bind = 0, se_listen = 0,
        se_nonblock = 0\<rparr>,
      su_sockets = snd busy_server, su_launch = sample_launch,
      su_process = sudo_process [], su_calloc = True, su_ring_errno = 0, su_now = 7\<rparr>"

definition sample_input :: stage_input where
  "sample_input =
     \<lparr>in_kern = healthy, in_files = sample_dir, in_calloc = True, in_now = 8, in_later = 8,
      in_poll = 1, in_batch = 1\<rparr>"

lemma sample_daemon_facts:
  "parse_args (su_argv sample_startup) = Inr (de_options sample_daemon_env)"
  "policy_map_fds (de_guard sample_daemon_env) = sample_fds"
  "formats_ok sample_daemon_env" "lawful_kernel healthy" "lawful_kernel (su_kern sample_startup)"
  by (simp_all add: sample_startup_def sample_daemon_env_def parse_args_def default_options_def
      policy_map_fds_def mcp_bpf_map_fd_def sample_skel_def sample_fds_def formats_ok_def
      sample_formats_def)
    (use healthy_law in \<open>auto simp: lawful_kernel_def\<close>)

abbreviation sample_loaded :: loaded_policy where
  "sample_loaded \<equiv>
     (default_config\<lparr>cfg_rule_count := 1\<rparr>, empty_scope, loaded_rules sample_state)"

lemma sample_scope: "spec_scope (default_config\<lparr>cfg_rule_count := 1\<rparr>) scope tk"
  by (simp add: spec_scope_def default_config_def)

lemma sample_files:
  "files_policy sample_dir ''/p'' = Some sample_loaded"
  by (simp add: files_policy_def sample_read)

lemma sample_fields:
  "de_guard sample_daemon_env = sample_skel" "opt_policy_dir (de_options sample_daemon_env) = ''/p''"
  "opt_metrics_interval_sec (de_options sample_daemon_env) = 0"
  "opt_gui_mode (de_options sample_daemon_env) = 0"
  "policy_map_fds sample_skel = sample_fds"
  "mcp_bpf_map_fd (Some sample_skel) MCP_BPF_MAP_EVENTS = 15"
  "su_files sample_startup = sample_dir" "su_kern sample_startup = healthy"
  "mcp_bpf_open_load (su_bpf sample_startup) = Inr loaded_maps" "su_attach sample_startup = 0"
  "su_calloc sample_startup" "su_ring_errno sample_startup = 0"
  "fst (mcp_unix_socket_server_start (su_server sample_startup) path w) =
     Inr \<lparr>srv_fd = 20, srv_clients = replicate MCP_GUARD_MAX_CLIENTS (- 1), srv_path = take 107 path\<rparr>"
  by (simp_all add: sample_daemon_env_def sample_startup_def sample_skel_def sample_fds_def
      policy_map_fds_def mcp_bpf_map_fd_def sample_boot mcp_unix_socket_server_start_def Let_def)

lemma sample_load_sizes:
  "map_option (\<lambda>y. sizes_ok (snd (snd y)))
     (mcp_policy_load_dir healthy sample_fds sample_dir ''/p'' (0, loaded_maps)) = Some True"
  by code_simp

lemma sample_daemon:
  obtains d where "daemon_reach h sample_daemon_env 1 sample_loaded d" "dm_point d = Top"
    "\<not> dm_stop_requested d" "\<not> dm_reload_requested d" "dm_server d \<noteq> None" "sizes_ok (dm_maps d)"
    "main_start sample_daemon_env sample_startup = Some (Inr (), 0, Inr d)"
proof -
  obtain res n s where load: "mcp_policy_load_dir healthy sample_fds sample_dir ''/p''
      (0, loaded_maps) = Some (Inr res, n, s)"
    by (rule healthy_load)
  have env: "sample_daemon_env\<lparr>de_options := de_options sample_daemon_env\<rparr> = sample_daemon_env"
    by simp
  obtain d where start: "main_start sample_daemon_env sample_startup = Some (Inr (), 0, Inr d)"
    and d: "dm_point d = Top" "\<not> dm_stop_requested d" "\<not> dm_reload_requested d"
      "dm_server d \<noteq> None" "sizes_ok (dm_maps d)"
    unfolding main_start_def sample_daemon_facts(1) sum.case env
    using sample_load_sizes
    by (simp add: sample_fields load_policy_or_report_def load with_server_def Let_def
        case_prod_beta launch_gui_if_needed_def should_launch_gui_def mcp_ringbuf_reader_open_def)
  have "files_policy (su_files sample_startup) (opt_policy_dir (de_options sample_daemon_env)) =
      Some sample_loaded"
    by (simp only: sample_fields sample_files)
  from started [OF start sample_daemon_facts(1,5) this] d start show thesis by (rule that)
qed

section \<open>Properties\<close>

text \<open>C1. The whole system enforces the files: from the start of the daemon on, in every state
  reached by requests, signals, clients and the stages of the main loop, whatever reloads have
  succeeded or failed, a task in the scope of the last loaded profile gets for its request the
  return value of a decision that the last loaded rules specify, for this request or for one cached
  under its resource; a task out of scope passes.\<close>

theorem daemon_enforces_files:
  assumes "strings_law h" and "lru_law (h_cache_update h)" and "tries_law h"
    and "fds_ok (policy_map_fds (de_guard env))" and "k < 2 ^ 64"
    and "daemon_reach h env k (config, scope, rules) d"
  shows "\<exists>req'. (req' = req \<or> caches_under req' (request_hook req) (request_resource req)) \<and>
    fst (run_request h tk req 0 (dm_maps d)) =
      (if spec_scope config scope tk then spec_ret config (spec_verdict config rules req') else 0)"
proof -
  have follow: "guard_reach h k True (dm_maps d)" "enforces h (config, scope, rules) (dm_maps d)"
    using reach_daemon [OF assms(3,4,6)] by (simp_all add: maps_follow_def)
  show ?thesis
  proof (cases "spec_scope config scope tk")
    case True
    then have "mcp_scope_matches tk (dm_maps d)" using follow(2) by simp
    then obtain req' where "req' = req \<or> caches_under req' (request_hook req) (request_resource req)"
      "fst (run_request h tk req 0 (dm_maps d)) =
        mcp_action_ret (d_action (policy_verdict h req' (dm_maps d))) (dm_maps d)"
      by (rule reach_request [OF assms(1,2) follow(1) assms(5)])
    then show ?thesis using enforced_ret [OF follow(2), of req'] True by auto
  next
    case False
    then have "\<not> mcp_scope_matches tk (dm_maps d)" using follow(2) by simp
    then show ?thesis using request_out_of_scope False by auto
  qed
qed

theorem daemon_enforces_files_witness:
  "\<exists>(d :: daemon) req'. dm_point d = Top \<and>
     (req' = Req_open root_file \<or> caches_under req' 2 (request_resource (Req_open root_file))) \<and>
     fst (run_request reference_helpers sample_task (Req_open root_file) 0 (dm_maps d)) =
       spec_ret (default_config\<lparr>cfg_rule_count := 1\<rparr>)
         (spec_verdict (default_config\<lparr>cfg_rule_count := 1\<rparr>) (loaded_rules sample_state) req')"
proof -
  obtain d where d: "daemon_reach reference_helpers sample_daemon_env 1 sample_loaded d"
    "dm_point d = Top"
    by (rule sample_daemon)
  have "fds_ok (policy_map_fds (de_guard sample_daemon_env))"
    using sample_fds_ok by (simp add: sample_fields)
  from daemon_enforces_files [OF reference_strings_law reference_lru_law reference_tries_law this _ d(1),
      of "Req_open root_file" sample_task]
  obtain req' where
    "req' = Req_open root_file \<or> caches_under req' 2 (request_resource (Req_open root_file))"
    "fst (run_request reference_helpers sample_task (Req_open root_file) 0 (dm_maps d)) =
       spec_ret (default_config\<lparr>cfg_rule_count := 1\<rparr>)
         (spec_verdict (default_config\<lparr>cfg_rule_count := 1\<rparr>) (loaded_rules sample_state) req')"
    by (auto simp: sample_scope simp del: run_request.simps)
  with d(2) show ?thesis by blast
qed

text \<open>C2. For \<^verbatim>\<open>connect\<close> the system is exact: in every reachable state of the daemon the call returns
  what the last loaded rules say of this very address, hit or miss.\<close>

theorem daemon_connects:
  assumes "strings_law h" and "lru_law (h_cache_update h)" and "tries_law h"
    and "fds_ok (policy_map_fds (de_guard env))" and "k < 2 ^ 64"
    and "daemon_reach h env k (config, scope, rules) d" and "spec_scope config scope tk"
  shows "fst (run_socket_connect h tk address 0 (dm_maps d)) =
    spec_ret config (spec_verdict config rules (Req_connect address))"
proof -
  have follow: "guard_reach h k True (dm_maps d)" "enforces h (config, scope, rules) (dm_maps d)"
    using reach_daemon [OF assms(3,4,6)] by (simp_all add: maps_follow_def)
  then have "mcp_scope_matches tk (dm_maps d)" using assms(7) by simp
  from reach_socket [OF assms(1,2) follow(1) assms(5) this, of address]
  show ?thesis unfolding enforced_ret [OF follow(2)] .
qed

theorem daemon_connects_witness:
  "\<exists>d :: daemon. dm_point d = Top \<and>
     fst (run_socket_connect reference_helpers sample_task sample_address 0 (dm_maps d)) =
       spec_ret (default_config\<lparr>cfg_rule_count := 1\<rparr>)
         (spec_verdict (default_config\<lparr>cfg_rule_count := 1\<rparr>) (loaded_rules sample_state)
           (Req_connect sample_address))"
proof -
  obtain d where d: "daemon_reach reference_helpers sample_daemon_env 1 sample_loaded d"
    "dm_point d = Top"
    by (rule sample_daemon)
  have "fds_ok (policy_map_fds (de_guard sample_daemon_env))"
    using sample_fds_ok by (simp add: sample_fields)
  from daemon_connects [OF reference_strings_law reference_lru_law reference_tries_law this _ d(1)
      sample_scope, of sample_task sample_address]
  show ?thesis using d(2) by auto
qed



text \<open>C16. SIGHUP is honoured: when the signal arrives at the top of the loop of a daemon that is not
  stopping, the next stage puts the policy of the files in force, if they are in order, no system
  call fails and the maps have room.\<close>

theorem sighup_reloads:
  assumes "tries_law h" and "fds_ok (policy_map_fds (de_guard env))" and "formats_ok env"
    and "daemon_reach h env k p d" and "dm_point d = Top" and "\<not> dm_stop_requested d"
    and "\<forall>fault. kernel_law fault (in_kern i)" and "sizes_ok (dm_maps d)"
    and "read_policy_dir (in_files i) (opt_policy_dir (de_options env)) = Inr (config, scope, state)"
    and "cfg_profile_id config \<noteq> 0" and "cfg_agent_id config \<noteq> 0"
  shows "\<exists>d'. main_stage env i (handle_signal SIGHUP d) = Some d' \<and>
    daemon_reach h env (Suc k) (config, scope, loaded_rules state) d' \<and>
    enforces h (config, scope, loaded_rules state) (dm_maps d')"
proof -
  let ?d = "handle_signal SIGHUP d"
  have reach: "daemon_reach h env k p ?d" by (rule signalled [OF assms(4)])
  have maps: "policy_maps_ok (dm_maps ?d)"
    using reach_daemon [OF assms(1,2) reach] by (simp add: maps_follow_def)
  have d: "dm_point ?d = Top" "\<not> dm_stop_requested ?d" "dm_reload_requested ?d" "dm_maps ?d = dm_maps d"
    using assms(5,6) by (simp_all add: handle_signal_def)
  have "loadable (in_files i) (opt_policy_dir (de_options env)) (dm_maps ?d)"
    using assms(8-11) by (auto simp: loadable_def d(4))
  from load_possible [OF assms(7,2) maps this, of 0] obtain res n s where
    load: "mcp_policy_load_dir (in_kern i) (policy_map_fds (de_guard env)) (in_files i)
      (opt_policy_dir (de_options env)) (0, dm_maps ?d) = Some (Inr res, n, s)"
    by auto
  have loads: "stage_loads env i ?d = Some (config, scope, loaded_rules state)"
    using load d assms(9) by (simp add: stage_loads_def files_policy_def)
  obtain d' where stage: "main_stage env i ?d = Some d'"
    using reload_total [OF assms(3) assms(7) [rule_format] assms(2),
        of "?d\<lparr>dm_reload_requested := False\<rparr>" "in_files i"] maps d by (auto simp: stage_defs)
  have "lawful_kernel (in_kern i)" using assms(7) by (auto simp: lawful_kernel_def)
  from staged [OF reach this stage] have
    "daemon_reach h env (Suc k) (config, scope, loaded_rules state) d'" by (simp add: loads)
  with reach_daemon [OF assms(1,2) this] stage show ?thesis by (auto simp: maps_follow_def)
qed

theorem sighup_reloads_witness:
  "\<exists>d d'. \<not> dm_reload_requested d \<and>
     daemon_reach reference_helpers sample_daemon_env 2 sample_loaded d' \<and>
     main_stage sample_daemon_env sample_input (handle_signal SIGHUP d) = Some d'"
proof -
  obtain d where d: "daemon_reach reference_helpers sample_daemon_env 1 sample_loaded d"
    "dm_point d = Top" "\<not> dm_stop_requested d" "\<not> dm_reload_requested d" "sizes_ok (dm_maps d)"
    by (rule sample_daemon)
  have fds: "fds_ok (policy_map_fds (de_guard sample_daemon_env))"
    using sample_fds_ok by (simp add: sample_fields)
  have kern: "\<forall>fault. kernel_law fault (in_kern sample_input)"
    using healthy_law by (simp add: sample_input_def)
  have read: "read_policy_dir (in_files sample_input) (opt_policy_dir (de_options sample_daemon_env)) =
      Inr (default_config\<lparr>cfg_rule_count := 1\<rparr>, empty_scope, sample_state)"
    using sample_read by (simp add: sample_fields sample_input_def)
  have ids: "cfg_profile_id (default_config\<lparr>cfg_rule_count := 1\<rparr>) \<noteq> 0"
    "cfg_agent_id (default_config\<lparr>cfg_rule_count := 1\<rparr>) \<noteq> 0"
    by (simp_all add: default_config_def)
  from sighup_reloads [OF reference_tries_law fds sample_daemon_facts(3) d(1-3) kern d(5) read ids]
  show ?thesis using d(4) by (auto simp: numeral_2_eq_2)
qed

text \<open>C17. Every reload is reported: the stage that performs it clears the request and writes one
  line to each client that stays; after a success the line and the kept result tell the new policy,
  after a failure the line tells the error with the numbers of the policy that stays in force.\<close>

theorem reload_reported:
  assumes "formats_ok env" and "dm_point d = Top" and "\<not> dm_stop_requested d"
    and "dm_reload_requested d" and "dm_server d = Some server"
    and "length (srv_clients server) = MCP_GUARD_MAX_CLIENTS"
    and "mcp_policy_load_dir (in_kern i) (policy_map_fds (de_guard env)) (in_files i)
      (opt_policy_dir (de_options env)) (0, dm_maps d) = Some (r, n, s)"
  shows "\<exists>d' server' line. main_stage env i d = Some d' \<and> dm_point d' = Accepting \<and>
    \<not> dm_reload_requested d' \<and> dm_maps d' = s \<and> dm_server d' = Some server' \<and>
    sk_lines (dm_sockets d') = sk_lines (dm_sockets d) @
      map (\<lambda>c. (c, line)) (live (srv_clients server')) \<and>
    (case r of
       Inl err \<Rightarrow> dm_result d' = dm_result d \<and>
         line = reload_line False (plr_rule_count (dm_result d))
           (plr_active_generation (dm_result d)) (plr_epoch (dm_result d)) (de_strerror env (- err))
     | Inr res \<Rightarrow> dm_result d' = res \<and>
         line = reload_line True (plr_rule_count res) (plr_active_generation res)
           (plr_epoch res) [])"
proof -
  define line where "line = (case r of
      Inl err \<Rightarrow> reload_line False (plr_rule_count (dm_result d))
        (plr_active_generation (dm_result d)) (plr_epoch (dm_result d)) (de_strerror env (- err))
    | Inr res \<Rightarrow> reload_line True (plr_rule_count res) (plr_active_generation res) (plr_epoch res) [])"
  define x where "x = publish_line line (server, dm_sockets d)"
  define d' where "d' = d\<lparr>dm_point := Accepting, dm_maps := s, dm_reload_requested := False,
    dm_result := (case r of Inl err \<Rightarrow> dm_result d | Inr res \<Rightarrow> res),
    dm_server := Some (fst x), dm_sockets := snd x,
    dm_console := dm_console d @ (case r of
      Inl err \<Rightarrow> load_failure_report (opt_policy_dir (de_options env)) (de_strerror env (- err))
    | Inr res \<Rightarrow> load_success_report res)\<rparr>"
  have "line \<noteq> []" by (simp add: line_def reload_line_def split: sum.split)
  from publish_line_lines [of "(server, dm_sockets d)", OF _ this] assms(6)
  have lines: "sk_lines (snd x) = sk_lines (dm_sockets d) @
      map (\<lambda>c. (c, line)) (live (srv_clients (fst x)))"
    by (simp add: x_def)
  have "length (de_strerror env err) \<le> 256" for err using assms(1) by (simp add: formats_ok_def)
  then have "main_stage env i d = Some d'"
    using assms(2-5,7)
    by (cases r) (simp_all add: stage_defs load_policy_or_report_def
        with_server_def publish_total d'_def x_def line_def case_prod_beta say_def)
  then show ?thesis
    using lines by (intro exI [of _ d'] exI [of _ "fst x"] exI [of _ line])
      (simp add: d'_def line_def split: sum.split)
qed

theorem reload_reported_witness:
  "\<exists>(d :: daemon) d' server' line.
     main_stage sample_daemon_env (sample_input\<lparr>in_kern := broken\<rparr>) d = Some d' \<and>
     dm_server d' = Some server' \<and> \<not> dm_reload_requested d' \<and>
     sk_lines (dm_sockets d') = sk_lines (dm_sockets d) @
       map (\<lambda>c. (c, line)) (live (srv_clients server'))"
proof -
  obtain d where d: "daemon_reach reference_helpers sample_daemon_env 1 sample_loaded d"
    "dm_point d = Top" "\<not> dm_stop_requested d" "\<not> dm_reload_requested d" "dm_server d \<noteq> None"
    by (rule sample_daemon)
  have fds: "fds_ok (policy_map_fds (de_guard sample_daemon_env))"
    using sample_fds_ok by (simp add: sample_fields)
  let ?d = "handle_signal SIGHUP d"
  obtain server where server: "dm_server ?d = Some server"
    using d(5) by (auto simp: handle_signal_def)
  have inv: "policy_maps_ok (dm_maps ?d)" "slots_ok ?d"
    using reach_daemon [OF reference_tries_law fds signalled [OF d(1), of SIGHUP]]
    by (simp_all add: maps_follow_def)
  have slots: "length (srv_clients server) = MCP_GUARD_MAX_CLIENTS"
    using inv(2) server by (simp add: slots_ok_def)
  have point: "dm_point ?d = Top" "\<not> dm_stop_requested ?d" "dm_reload_requested ?d"
    using d(2,3) by (simp_all add: handle_signal_def)
  let ?i = "sample_input\<lparr>in_kern := broken\<rparr>"
  have "kernel_law 0 (in_kern ?i)" using broken_law by simp
  from load_total [OF this fds inv(1), of "in_files ?i"
      "opt_policy_dir (de_options sample_daemon_env)" 0] obtain r n s where
    "mcp_policy_load_dir (in_kern ?i) (policy_map_fds (de_guard sample_daemon_env)) (in_files ?i)
      (opt_policy_dir (de_options sample_daemon_env)) (0, dm_maps ?d) = Some (r, n, s)"
    by auto
  from reload_reported [OF sample_daemon_facts(3) point server slots this] show ?thesis by blast
qed

end
