(* ===== verification/Delivery.thy ===== *)
theory Delivery
  imports Daemon_Guarantees
begin

text \<open>
  From a decision to the operator: the events that the guard emits while the daemon runs
  (\<open>daemon_log\<close>), how the daemon prints each of them once and in order, and how it sends them to
  its clients.
\<close>

section \<open>Emitted events\<close>

definition new_events :: "bpf_state \<Rightarrow> bpf_state \<Rightarrow> mcp_event list" where
  "new_events s s' = drop (length (events s)) (events s')"

text \<open>
  \<open>daemon_log h env es k p d\<close>: the runs of \<open>daemon_reach\<close>, with the list \<open>es\<close> of all events that
  requests have put into the ring buffer so far.
\<close>

inductive daemon_log ::
  "helpers \<Rightarrow> daemon_env \<Rightarrow> mcp_event list \<Rightarrow> nat \<Rightarrow> loaded_policy \<Rightarrow> daemon \<Rightarrow> bool"
  for h :: helpers and env :: daemon_env where
  log_started: "main_start env su = Some (Inr (), gui_pid, Inr d) \<Longrightarrow>
    parse_args (su_argv su) = Inr (de_options env) \<Longrightarrow> lawful_kernel (su_kern su) \<Longrightarrow>
    files_policy (su_files su) (opt_policy_dir (de_options env)) = Some p \<Longrightarrow>
    daemon_log h env [] 1 p d"
| log_signalled: "daemon_log h env es k p d \<Longrightarrow> daemon_log h env es k p (handle_signal signo d)"
| log_requested: "daemon_log h env es k p d \<Longrightarrow>
    s' = snd (run_request h tk req ret (dm_maps d)) \<Longrightarrow>
    daemon_log h env (es @ new_events (dm_maps d) s') k p (d\<lparr>dm_maps := s'\<rparr>)"
| log_arrived: "daemon_log h env es k p d \<Longrightarrow>
    daemon_log h env es k p
      (d\<lparr>dm_sockets := (dm_sockets d)\<lparr>sk_pending := sk_pending (dm_sockets d) @ [c]\<rparr>\<rparr>)"
| log_staged: "daemon_log h env es k p d \<Longrightarrow> lawful_kernel (in_kern i) \<Longrightarrow>
    main_stage env i d = Some d' \<Longrightarrow>
    daemon_log h env es (case stage_loads env i d of None \<Rightarrow> k | Some _ \<Rightarrow> Suc k)
      (case stage_loads env i d of None \<Rightarrow> p | Some p' \<Rightarrow> p') d'"

lemma log_reach: "daemon_log h env es k p d \<Longrightarrow> daemon_reach h env k p d"
proof (induction rule: daemon_log.induct)
  case (log_requested es k p d s' tk req ret)
  then show ?case using requested [of h env k p d tk req ret] by simp
qed (blast intro: started signalled arrived staged)+

lemma reach_logged: "daemon_reach h env k p d \<Longrightarrow> \<exists>es. daemon_log h env es k p d"
proof (induction rule: daemon_reach.induct)
  case (requested k p d tk req ret)
  then show ?case using log_requested [OF _ refl] by blast
qed (blast intro: log_started log_signalled log_arrived log_staged)+

lemma request_appends:
  assumes "strings_law h" and "system_ok h n current s"
    and s': "s' = snd (run_request h tk req ret s)"
  shows "events s' = events s @ new_events s s'"
proof (cases "ret = 0 \<and> mcp_scope_matches tk s")
  case False
  then have "only_ticks s s'"
    using request_denied [of ret h tk req s] request_out_of_scope [of tk s h req]
    by (auto simp: s')
  then show ?thesis by (auto simp: only_ticks_def new_events_def)
next
  case True
  then have "examined h tk s" "pipelines_loaded s"
    using assms(1,2) by (simp_all add: examined_def system_ok_def)
  from request_outcome [OF this, of req] True show ?thesis
    by (auto simp: outcome_ok_def answered_def logged_def new_events_def s' split: if_splits)
qed

section \<open>What is printed\<close>

text \<open>The lines of events among all that is printed.\<close>

definition event_lines :: "console \<Rightarrow> console" where
  "event_lines lines = filter (\<lambda>(stream, line). stream = Stdout \<and> take 1 line = ''['') lines"

lemma event_lines_append [simp]: "event_lines (xs @ ys) = event_lines xs @ event_lines ys"
  by (simp add: event_lines_def)

lemma event_lines_Cons:
  "event_lines ((stream, line) # lines) =
     (if stream = Stdout \<and> take 1 line = ''['' then [(stream, line)] else []) @ event_lines lines"
  by (simp add: event_lines_def)

lemma event_lines_events [simp]:
  "event_lines (map (Pair Stdout \<circ> event_text fmt) es) = map (Pair Stdout \<circ> event_text fmt) es"
  by (auto simp: event_lines_def event_text_def filter_id_conv)

lemma event_lines_others [simp]:
  "event_lines [] = []"
  "event_lines [(Stderr, line)] = []"
  "event_lines (load_success_report res) = []"
  "event_lines (load_failure_report dir err) = []"
  "event_lines (memlock_report env su) = []"
  "event_lines (launch_report env le p options) = []"
  "event_lines ((Stdout, ''metrics snapshot:'') # out (print_metrics_ratios fmt snapshot)) = []"
  by (simp_all add: event_lines_def load_success_report_def load_failure_report_def
      print_policy_flags_def memlock_report_def launch_report_def print_metrics_ratios_def Let_def)

lemma with_server_console:
  "with_server f d = Some d' \<Longrightarrow> dm_console d' = dm_console d \<and> dm_maps d' = dm_maps d"
  by (auto simp: with_server_def split: option.splits)

lemma dispatch_console:
  "dispatch_all (Some (print_event env)) batch d = Some d' \<Longrightarrow>
     dm_console d' = dm_console d @ out (map (event_text (de_formats env)) batch)"
proof (induction batch arbitrary: d)
  case (Cons event batch)
  then obtain d1 where "with_server (mcp_unix_socket_server_publish event)
      (say (out [event_text (de_formats env) event]) d) = Some d1"
    "dispatch_all (Some (print_event env)) batch d1 = Some d'"
    by (auto simp: mcp_ringbuf_dispatch_def print_event_Some split: option.splits)
  then show ?case using Cons.IH [of d1] with_server_console by fastforce
qed simp

text \<open>The error line of a poll that failed.\<close>

definition poll_report :: "daemon_env \<Rightarrow> stage_input \<Rightarrow> console" where
  "poll_report env i =
     (if in_poll i < 0 \<and> in_poll i \<noteq> - 4
      then [(Stderr, ''ring buffer poll failed: '' @ de_strerror env (- in_poll i))] else [])"

lemma poll_report_events [simp]: "event_lines (poll_report env i) = []"
  by (simp add: poll_report_def)

section \<open>The stages\<close>

lemma load_other_maps:
  assumes "kernel_law fault kern" and "fds_ok fds" and "policy_maps_ok s"
    and "mcp_policy_load_dir kern fds fs dir (n, s) = Some (r, n', s')"
  shows "other_maps s' = other_maps s"
proof (cases r)
  case (Inl err)
  show ?thesis
    by (rule same_policy_facts(6) [OF load_failure [OF assms(1-3) assms(4) [unfolded Inl]] assms(3)])
next
  case (Inr res)
  from load_success [OF assms(1-3) assms(4) [unfolded Inr]] show ?thesis
  proof (rule new_policy_facts)
    fix rl assume rl: "rl_start rl = s" "committed rl s'"
    show ?thesis using rl(2) by (simp add: committed_def rl(1))
  qed
qed

lemma load_or_report_log:
  assumes "lawful_kernel kern" and "fds_ok (policy_map_fds (de_guard env))"
    and "policy_maps_ok (dm_maps d)" and "load_policy_or_report env kern fs d = Some (r, d')"
  shows "events (dm_maps d') = events (dm_maps d)"
    "event_lines (dm_console d') = event_lines (dm_console d)"
proof -
  obtain fault where kern: "kernel_law fault kern" using assms(1) by (auto simp: lawful_kernel_def)
  show "events (dm_maps d') = events (dm_maps d)"
    using assms(4)
    by (rule load_report)
      (use load_other_maps [OF kern assms(2,3)] in \<open>simp add: only_serves_maps other_maps_def\<close>)
  show "event_lines (dm_console d') = event_lines (dm_console d)"
    using assms(4)
    by (auto simp: load_policy_or_report_def Let_def split: option.splits sum.splits
        dest!: with_server_console)
qed

lemma poll_log:
  assumes "poll_stage env i d = Some d'"
  shows "dm_console d' = dm_console d @
      out (map (event_text (de_formats env)) (take (in_batch i) (events (dm_maps d)))) @
      poll_report env i"
  using assms by (rule poll_stage_Some) (auto simp: dispatch_console poll_report_def)

lemma stage_log:
  assumes "fds_ok (policy_map_fds (de_guard env))" and "policy_maps_ok (dm_maps d)"
    and "lawful_kernel (in_kern i)" and stage: "main_stage env i d = Some d'"
  obtains batch where
    "events (dm_maps d) = batch @ events (dm_maps d')"
    "event_lines (dm_console d') = event_lines (dm_console d) @
       out (map (event_text (de_formats env)) batch)"
proof (cases "dm_point d = Polling")
  case True
  then have poll: "poll_stage env i d = Some d'" using stage by (simp add: main_stage_def)
  show thesis
    by (rule that [of "take (in_batch i) (events (dm_maps d))"])
      (use poll_log [OF poll] poll_stage_frame [OF poll] in simp_all)
next
  case False
  have "events (dm_maps d') = events (dm_maps d) \<and>
      event_lines (dm_console d') = event_lines (dm_console d)"
  proof (cases "dm_point d")
    case Top
    then show ?thesis
      using stage load_or_report_log [OF assms(3,1), of "d\<lparr>dm_reload_requested := False\<rparr>"] assms(2)
      by (auto simp: stage_defs split: if_splits)
  next
    case Accepting
    then show ?thesis
      using stage by (auto simp: stage_defs dest!: with_server_console)
  next
    case Reporting
    then show ?thesis
      using stage
      by (auto simp: stage_defs publish_metrics_snapshot_def only_serves_def
          split: if_splits sum.splits dest!: with_server_console)
  next
    case Finished
    then show ?thesis using stage by (simp add: main_stage_def)
  qed (simp add: False)
  then show thesis using that [of "[]"] by simp
qed

lemma start_log:
  assumes start: "main_start env su = Some (Inr (), gui_pid, Inr d)"
    and args: "parse_args (su_argv su) = Inr (de_options env)" and "lawful_kernel (su_kern su)"
    and "fds_ok (policy_map_fds (de_guard env))"
  shows "events (dm_maps d) = []" "l1_cache (dm_maps d) = l1_cache loaded_maps"
    "event_lines (dm_console d) = []"
proof -
  obtain fault where kern: "kernel_law fault (su_kern su)"
    using assms(3) by (auto simp: lawful_kernel_def)
  obtain res n where "mcp_policy_load_dir (su_kern su) (policy_map_fds (de_guard env))
      (su_files su) (opt_policy_dir (de_options env)) (0, loaded_maps) = Some (Inr res, n, dm_maps d)"
    using start_facts [OF start args] by blast
  from load_other_maps [OF kern assms(4) loaded_maps_ok(1) this]
  show "events (dm_maps d) = []" "l1_cache (dm_maps d) = l1_cache loaded_maps"
    by (simp_all add: other_maps_def loaded_maps_def created_maps_def)
  show "event_lines (dm_console d) = []"
    using start args
    by (auto simp: main_start_def load_policy_or_report_def with_server_def Let_def case_prod_beta
        event_lines_Cons split: sum.splits option.splits if_splits)
qed

section \<open>What the clients get\<close>

definition lines_to :: "c_int \<Rightarrow> sockets \<Rightarrow> string list" where
  "lines_to client w = map snd (filter (\<lambda>(c, line). c = client) (sk_lines w))"

text \<open>Descriptors that name one connection each: held by a slot, closed or waiting.\<close>

definition fresh_clients :: "serving \<Rightarrow> bool" where
  "fresh_clients x \<longleftrightarrow> (\<forall>c. count (owned x + mset (live (sk_pending (snd x)))) c \<le> 1)"

lemma accept_loop_rest:
  "sk_pending (snd (accept_loop pending x)) = tl (dropWhile (\<lambda>c. 0 \<le> c) pending) \<and>
   set (sk_closed (snd x)) \<subseteq> set (sk_closed (snd (accept_loop pending x)))"
proof (induction pending x rule: accept_loop.induct)
  case (2 client pending server w)
  then show ?case by (cases "client < 0") (auto split: option.split)
qed simp

lemma write_client_rest:
  "sk_pending (snd (write_client line i x)) = sk_pending (snd x) \<and>
   set (sk_closed (snd x)) \<subseteq> set (sk_closed (snd (write_client line i x)))"
  by (auto simp: write_client_def close_client_def Let_def case_prod_beta)

lemma write_all_rest:
  "sk_pending (snd (fold (write_client line) is x)) = sk_pending (snd x) \<and>
   set (sk_closed (snd x)) \<subseteq> set (sk_closed (snd (fold (write_client line) is x)))"
proof (induction "is" arbitrary: x)
  case (Cons i "is")
  show ?case
    using Cons.IH [of "write_client line i x"] write_client_rest [of line i x] by auto
qed simp

lemma publish_line_rest:
  assumes "line \<noteq> []"
  shows "sk_pending (snd (publish_line line x)) = tl (dropWhile (\<lambda>c. 0 \<le> c) (sk_pending (snd x)))"
    "set (sk_closed (snd x)) \<subseteq> set (sk_closed (snd (publish_line line x)))"
  using assms accept_loop_rest [of "sk_pending (snd x)" x]
    write_all_rest [of line "[0..<MCP_GUARD_MAX_CLIENTS]" "mcp_unix_socket_server_accept x"]
  by (auto simp: publish_line_def mcp_unix_socket_server_accept_def)

lemma live_split:
  "mset (takeWhile (\<lambda>c. 0 \<le> c) cs) + mset (live (tl (dropWhile (\<lambda>c. 0 \<le> c) cs))) =
     mset (live cs)" for cs :: "c_int list"
  by (induction cs) auto

lemma filter_once:
  "count (mset xs) c \<le> 1 \<Longrightarrow> c \<in> set xs \<Longrightarrow> filter (\<lambda>a. a = c) xs = [c]"
  by (induction xs) (auto simp: filter_empty_conv split: if_splits)

lemma publish_line_client:
  assumes "length (srv_clients (fst x)) = MCP_GUARD_MAX_CLIENTS" and "line \<noteq> []" and "fresh_clients x"
  defines "y \<equiv> publish_line line x"
  shows "fresh_clients y" "length (srv_clients (fst y)) = MCP_GUARD_MAX_CLIENTS"
    "owned x \<subseteq># owned y" "set (sk_closed (snd x)) \<subseteq> set (sk_closed (snd y))"
    "c \<in> set (live (srv_clients (fst y))) \<Longrightarrow>
       lines_to c (snd y) = lines_to c (snd x) @ [line]"
proof -
  have owned: "owned y = owned x + mset (arriving (snd x))"
    and len: "length (srv_clients (fst y)) = MCP_GUARD_MAX_CLIENTS"
    using write_all_ok [of 16 "mcp_unix_socket_server_accept x" line] accept_ok [of x] assms(1,2)
    by (auto simp: publish_line_def y_def)
  show "length (srv_clients (fst y)) = MCP_GUARD_MAX_CLIENTS" by (rule len)
  show "owned x \<subseteq># owned y" by (simp add: owned)
  show "set (sk_closed (snd x)) \<subseteq> set (sk_closed (snd y))"
    unfolding y_def by (rule publish_line_rest(2) [OF assms(2)])
  have "owned y + mset (live (sk_pending (snd y))) = owned x + mset (live (sk_pending (snd x)))"
    using live_split [of "sk_pending (snd x)"] publish_line_rest(1) [OF assms(2), of x]
    by (simp add: owned arriving_def add.assoc flip: y_def)
  then show fresh: "fresh_clients y" using assms(3) by (simp add: fresh_clients_def)
  show "lines_to c (snd y) = lines_to c (snd x) @ [line]" if c: "c \<in> set (live (srv_clients (fst y)))"
  proof -
    have "count (owned y + mset (live (sk_pending (snd y)))) c \<le> 1"
      using fresh unfolding fresh_clients_def by blast
    then have "count (mset (live (srv_clients (fst y)))) c \<le> 1" by (simp add: owned_def)
    from filter_once [OF this c] have "filter (\<lambda>a. a = c) (live (srv_clients (fst y))) = [c]" .
    then have "map snd (filter (\<lambda>(a, l). a = c) (map (\<lambda>a. (a, line)) (live (srv_clients (fst y))))) =
        [line]"
      by (simp add: filter_map comp_def)
    then show ?thesis
      using publish_line_lines [OF assms(1,2)] by (simp add: lines_to_def y_def)
  qed
qed

text \<open>A batch of events is a sequence of lines for the server.\<close>

lemma dispatch_publishes:
  "dispatch_all (Some (print_event env)) batch d = Some d' \<Longrightarrow> dm_server d = Some server \<Longrightarrow>
     \<exists>server'. dm_server d' = Some server' \<and>
       (server', dm_sockets d') =
         fold (\<lambda>e. publish_line (event_line e)) batch (server, dm_sockets d)"
proof (induction batch arbitrary: d server)
  case (Cons event batch)
  then obtain d1 where
    publish: "with_server (mcp_unix_socket_server_publish event)
      (say (out [event_text (de_formats env) event]) d) = Some d1"
    and rest: "dispatch_all (Some (print_event env)) batch d1 = Some d'"
    by (auto simp: mcp_ringbuf_dispatch_def print_event_Some split: option.splits)
  obtain server1 where "dm_server d1 = Some server1"
    "(server1, dm_sockets d1) = publish_line (event_line event) (server, dm_sockets d)"
    using publish Cons.prems(2)
    by (auto simp: with_server_def mcp_unix_socket_server_publish_def publish_formatted_def
        formatted_def split: if_splits)
  with Cons.IH [OF rest] show ?case by simp
qed simp

lemma batch_client:
  assumes "length (srv_clients (fst x)) = MCP_GUARD_MAX_CLIENTS" and "fresh_clients x"
    and "c \<in> set (live (srv_clients (fst x)))"
  defines "y \<equiv> \<lambda>batch. fold (\<lambda>e. publish_line (event_line e)) batch x"
  assumes "c \<in> set (live (srv_clients (fst (y batch))))"
  shows "lines_to c (snd (y batch)) = lines_to c (snd x) @ map event_line batch"
proof -
  have "length (srv_clients (fst (y batch))) = MCP_GUARD_MAX_CLIENTS \<and> fresh_clients (y batch) \<and>
      c \<in># owned (y batch) \<and>
      (c \<in> set (live (srv_clients (fst (y batch)))) \<longrightarrow>
        lines_to c (snd (y batch)) = lines_to c (snd x) @ map event_line batch)"
  proof (induction batch rule: rev_induct)
    case Nil
    then show ?case using assms(1-3) by (simp add: y_def owned_def)
  next
    case (snoc e batch)
    have step: "y (batch @ [e]) = publish_line (event_line e) (y batch)" by (simp add: y_def)
    have "event_line e \<noteq> []" by (simp add: event_line_def)
    note client = publish_line_client [OF _ this, of "y batch", folded step]
    have prev: "length (srv_clients (fst (y batch))) = MCP_GUARD_MAX_CLIENTS"
      "fresh_clients (y batch)" "c \<in># owned (y batch)"
      using snoc by blast+
    have "c \<in> set (live (srv_clients (fst (y batch))))"
      if c: "c \<in> set (live (srv_clients (fst (y (batch @ [e])))))"
    proof (rule ccontr)
      assume "c \<notin> set (live (srv_clients (fst (y batch))))"
      with prev(3) have "c \<in> set (sk_closed (snd (y batch)))" by (auto simp: owned_def)
      then have "c \<in> set (sk_closed (snd (y (batch @ [e]))))" using client(4) [OF prev(1,2)] by blast
      then have "1 \<le> count (mset (sk_closed (snd (y (batch @ [e]))))) c"
        "1 \<le> count (mset (live (srv_clients (fst (y (batch @ [e])))))) c"
        using c by (simp_all only: count_greater_eq_one_iff set_mset_mset)
      moreover have "count (owned (y (batch @ [e])) +
          mset (live (sk_pending (snd (y (batch @ [e])))))) c \<le> 1"
        using client(1) [OF prev(1,2)] unfolding fresh_clients_def by blast
      ultimately show False by (simp only: owned_def count_union)
    qed
    then show ?case
      using client [OF prev(1,2)] snoc by (auto dest: mset_subset_eqD)
  qed
  then show ?thesis using assms(5) by blast
qed

section \<open>A sample denial\<close>

text \<open>A program without a name is denied in every state.\<close>

definition nameless :: request where
  "nameless = Req_exec \<lparr>bprm_file = None, bprm_filename = None\<rparr>"

lemma sample_polling:
  obtains d where "daemon_reach reference_helpers sample_daemon_env 1 sample_loaded d"
    "dm_point d = Polling" "events (dm_maps d) = []"
    "fst (run_request reference_helpers sample_task nameless 0 (dm_maps d)) = - 13"
    "events (snd (run_request reference_helpers sample_task nameless 0 (dm_maps d))) \<noteq> []"
proof -
  obtain d where d: "daemon_reach reference_helpers sample_daemon_env 1 sample_loaded d"
    "dm_point d = Top" "\<not> dm_stop_requested d" "\<not> dm_reload_requested d"
    "main_start sample_daemon_env sample_startup = Some (Inr (), 0, Inr d)"
    by (rule sample_daemon)
  have fds: "fds_ok (policy_map_fds (de_guard sample_daemon_env))"
    using sample_fds_ok by (simp add: sample_fields)
  have kern: "lawful_kernel (in_kern sample_input)"
    using sample_daemon_facts(4) by (simp add: sample_input_def)
  note fresh = start_log [OF d(5) sample_daemon_facts(1,5) fds]
  obtain d3 where d3: "daemon_reach reference_helpers sample_daemon_env 1 sample_loaded d3"
    "dm_point d3 = Polling" "dm_maps d3 = dm_maps d"
  proof -
    let ?d1 = "d\<lparr>dm_point := Accepting\<rparr>"
    have "main_stage sample_daemon_env sample_input d = Some ?d1"
      "stage_loads sample_daemon_env sample_input d = None"
      using d(2-4) by (simp_all add: stage_defs stage_loads_def)
    with staged [OF d(1) kern] have
      d1: "daemon_reach reference_helpers sample_daemon_env 1 sample_loaded ?d1" by fastforce
    obtain d2 where d2: "with_server (\<lambda>x. Some (mcp_unix_socket_server_accept x)) ?d1 = Some d2"
      using with_server_total [of "\<lambda>x. Some (mcp_unix_socket_server_accept x)" ?d1] by auto
    let ?d2 = "d2\<lparr>dm_point := Reporting\<rparr>"
    have "main_stage sample_daemon_env sample_input ?d1 = Some ?d2"
      "stage_loads sample_daemon_env sample_input ?d1 = None"
      using d2 by (simp_all add: stage_defs stage_loads_def)
    with staged [OF d1 kern] have
      d2': "daemon_reach reference_helpers sample_daemon_env 1 sample_loaded ?d2" by fastforce
    let ?d3 = "?d2\<lparr>dm_point := Polling\<rparr>"
    have "main_stage sample_daemon_env sample_input ?d2 = Some ?d3"
      "stage_loads sample_daemon_env sample_input ?d2 = None"
      by (simp_all add: stage_defs stage_loads_def sample_fields)
    with staged [OF d2' kern] have
      "daemon_reach reference_helpers sample_daemon_env 1 sample_loaded ?d3" by fastforce
    moreover have "dm_maps ?d3 = dm_maps d" using with_server_console [OF d2] by simp
    ultimately show thesis by (intro that [of ?d3]) simp_all
  qed
  have follow: "maps_follow reference_helpers 1 sample_loaded (dm_maps d)"
    using reach_daemon [OF reference_tries_law fds d(1)] by blast
  then have force: "enforces reference_helpers sample_loaded (dm_maps d)"
    and ok: "system_ok reference_helpers 1 True (dm_maps d)"
    using reach_system_ok [OF reference_strings_law reference_lru_law] by (auto simp: maps_follow_def)
  have "mcp_scope_matches sample_task (dm_maps d)" using force sample_scope by simp
  then have ready: "examined reference_helpers sample_task (dm_maps d)"
    "pipelines_loaded (dm_maps d)"
    using ok reference_strings_law by (simp_all add: system_ok_def examined_def)
  have "request_hit sample_task nameless (dm_maps d) = None"
    by (simp add: nameless_def hook_hit_def l1_hit_def fresh(2) loaded_maps_def created_maps_def)
  then have "d_action (request_decision reference_helpers sample_task nameless (dm_maps d)) =
      MCP_GUARD_ACTION_DENY"
    by (simp add: request_decision_cases nameless_def exec_name_def)
  moreover have "mcp_policy_enforced (dm_maps d)" using force by (simp add: default_config_def)
  ultimately have
    denied: "fst (run_request reference_helpers sample_task nameless 0 (dm_maps d)) = - 13"
    using request_outcome [OF ready, of nameless]
    by (simp add: outcome_ok_def action_ret_blocks request_decision_valid)
  have "h_ringbuf_reserve reference_helpers (events (dm_maps d))"
    by (simp add: reference_helpers_def fresh(1))
  from blocks_are_logged [OF ready denied this] d3 fresh(1) denied show thesis
    by (intro that [of d3]) auto
qed

section \<open>Properties\<close>

text \<open>C18. The bookkeeping of events: whatever requests, signals, reloads and reports come in between,
  an event that the guard has put into the ring buffer is either still there or printed, once, and
  the printed ones are exactly the lines of events on the console, in the order of the decisions.\<close>

theorem events_accounted:
  assumes "strings_law h" and "lru_law (h_cache_update h)" and "tries_law h"
    and "fds_ok (policy_map_fds (de_guard env))" and "k < 2 ^ 64"
    and "daemon_log h env es k p d"
  shows "\<exists>printed. es = printed @ events (dm_maps d) \<and>
    event_lines (dm_console d) = out (map (event_text (de_formats env)) printed)"
  using assms(6,5)
proof (induction rule: daemon_log.induct)
  case (log_started su gui_pid d p)
  from start_log [OF log_started(1-3) assms(4)] show ?case by simp
next
  case (log_signalled es k p d signo)
  then show ?case by (simp add: handle_signal_def)
next
  case (log_requested es k p d s' tk req ret)
  have "guard_reach h k True (dm_maps d)"
    using reach_daemon [OF assms(3,4) log_reach [OF log_requested(1)]] by (simp add: maps_follow_def)
  from reach_system_ok [OF assms(1,2) this log_requested(4)] log_requested(2)
  have "events s' = events (dm_maps d) @ new_events (dm_maps d) s'"
    by (rule request_appends [OF assms(1)])
  then show ?case using log_requested(3,4) by auto
next
  case (log_arrived es k p d c)
  then show ?case by simp
next
  case (log_staged es k p d i d')
  have "policy_maps_ok (dm_maps d)"
    using reach_daemon [OF assms(3,4) log_reach [OF log_staged(1)]] by (simp add: maps_follow_def)
  from stage_log [OF assms(4) this log_staged(2,3)] obtain batch where
    batch: "events (dm_maps d) = batch @ events (dm_maps d')"
      "event_lines (dm_console d') = event_lines (dm_console d) @
        out (map (event_text (de_formats env)) batch)"
    by blast
  have "k < 2 ^ 64" using log_staged(5) by (simp split: option.splits)
  with log_staged(4) obtain printed where "es = printed @ events (dm_maps d)"
    "event_lines (dm_console d) = out (map (event_text (de_formats env)) printed)"
    by blast
  with batch show ?case by (intro exI [of _ "printed @ batch"]) simp
qed

theorem events_accounted_witness:
  "\<exists>es d printed. es \<noteq> [] \<and> daemon_log reference_helpers sample_daemon_env es 1 sample_loaded d \<and>
     es = printed @ events (dm_maps d) \<and>
     event_lines (dm_console d) = out (map (event_text sample_formats) printed)"
proof -
  obtain d where d: "daemon_reach reference_helpers sample_daemon_env 1 sample_loaded d"
    "events (dm_maps d) = []"
    "events (snd (run_request reference_helpers sample_task nameless 0 (dm_maps d))) \<noteq> []"
    by (rule sample_polling)
  obtain es0 where "daemon_log reference_helpers sample_daemon_env es0 1 sample_loaded d"
    using reach_logged [OF d(1)] by blast
  from log_requested [OF this refl, of sample_task nameless 0] d(2,3) obtain es d' where
    es: "es \<noteq> []" "daemon_log reference_helpers sample_daemon_env es 1 sample_loaded d'"
    by (force simp: new_events_def)
  have fds: "fds_ok (policy_map_fds (de_guard sample_daemon_env))"
    using sample_fds_ok by (simp add: sample_fields)
  have "de_formats sample_daemon_env = sample_formats" by (simp add: sample_daemon_env_def)
  with events_accounted [OF reference_strings_law reference_lru_law reference_tries_law fds _ es(2)] es
  show ?thesis by auto
qed

text \<open>C19. Denials reach the operator: when a request is blocked while the daemon is about to poll and the
  ring buffer has room, that poll, if it empties the buffer, prints the waiting events and then the
  denial, with the error 13, the hook, the resource and the process.\<close>

theorem denials_reported:
  assumes "strings_law h" and "lru_law (h_cache_update h)" and "tries_law h"
    and "fds_ok (policy_map_fds (de_guard env))" and "k < 2 ^ 64"
    and "formats_ok env" and "lawful_kernel (in_kern i)"
    and "daemon_reach h env k p d" and "dm_point d = Polling"
    and "fst (run_request h tk req 0 (dm_maps d)) = - 13"
    and "h_ringbuf_reserve h (events (dm_maps d))" and "length (events (dm_maps d)) < in_batch i"
  shows "\<exists>d' e.
    main_stage env i (d\<lparr>dm_maps := snd (run_request h tk req 0 (dm_maps d))\<rparr>) = Some d' \<and>
    ev_action e = MCP_GUARD_ACTION_DENY \<and> ev_error e = 13 \<and> ev_hook_id e = request_hook req \<and>
    ev_resource_id e = request_resource req \<and> ev_pid e = task_pid tk \<and> ev_tgid e = task_tgid tk \<and>
    dm_console d' = dm_console d @
      out (map (event_text (de_formats env)) (events (dm_maps d) @ [e])) @ poll_report env i \<and>
    events (dm_maps d') = []"
proof -
  let ?s = "snd (run_request h tk req 0 (dm_maps d))"
  let ?d = "d\<lparr>dm_maps := ?s\<rparr>"
  have reach: "daemon_reach h env k p ?d" by (rule requested [OF assms(8)])
  have follow: "maps_follow h k p (dm_maps d)" "maps_follow h k p (dm_maps ?d)"
    using reach_daemon [OF assms(3,4)] assms(8) reach by blast+
  then have ok: "system_ok h k True (dm_maps d)"
    using reach_system_ok [OF assms(1,2) _ assms(5)] by (auto simp: maps_follow_def)
  have "mcp_scope_matches tk (dm_maps d)"
    using request_out_of_scope [of tk "dm_maps d" h req] assms(10) by auto
  then have "examined h tk (dm_maps d)" "pipelines_loaded (dm_maps d)"
    using ok assms(1) by (simp_all add: system_ok_def examined_def)
  from blocks_are_logged [OF this assms(10,11)] obtain e where
    e: "events ?s = events (dm_maps d) @ [e]" "ev_action e = MCP_GUARD_ACTION_DENY"
      "ev_error e = 13" "ev_hook_id e = request_hook req" "ev_resource_id e = request_resource req"
      "ev_pid e = task_pid tk" "ev_tgid e = task_tgid tk"
    by blast
  obtain d' where stage: "main_stage env i ?d = Some d'"
    using stage_total [OF assms(1,2,5,6,4,7) follow(2)] by blast
  then have poll: "poll_stage env i ?d = Some d'" using assms(9) by (simp add: main_stage_def)
  have "dm_console d' = dm_console d @
      out (map (event_text (de_formats env)) (events (dm_maps d) @ [e])) @ poll_report env i"
    "events (dm_maps d') = []"
    using poll_log [OF poll] poll_stage_frame [OF poll] assms(12) e(1) by simp_all
  with stage e show ?thesis by blast
qed

theorem denials_reported_witness:
  "\<exists>d d' e. main_stage sample_daemon_env sample_input d = Some d' \<and>
     ev_action e = MCP_GUARD_ACTION_DENY \<and> ev_error e = 13 \<and>
     (\<exists>lines. dm_console d' = lines @ out [event_text sample_formats e])"
proof -
  obtain d where d: "daemon_reach reference_helpers sample_daemon_env 1 sample_loaded d"
    "dm_point d = Polling" "events (dm_maps d) = []"
    "fst (run_request reference_helpers sample_task nameless 0 (dm_maps d)) = - 13"
    by (rule sample_polling)
  have "fds_ok (policy_map_fds (de_guard sample_daemon_env))" "lawful_kernel (in_kern sample_input)"
    using sample_fds_ok sample_daemon_facts(4) by (simp_all add: sample_fields sample_input_def)
  from denials_reported [OF reference_strings_law reference_lru_law reference_tries_law this(1) _
      sample_daemon_facts(3) this(2) d(1,2,4)] d(3)
  show ?thesis
    by (force simp: reference_helpers_def sample_input_def poll_report_def sample_daemon_env_def)
qed


definition polling_daemon :: daemon where
  "polling_daemon =
     \<lparr>dm_point = Polling, dm_maps = loaded_maps\<lparr>events := [sample_event, sample_event]\<rparr>,
      dm_server = Some (fst busy_server), dm_sockets = snd busy_server, dm_result = zero_result,
      dm_next_metrics_ts = 0, dm_stop_requested = False, dm_reload_requested = False, dm_err = 0,
      dm_console = []\<rparr>"

definition served_clients :: "c_int list option" where
  "served_clients =
     Option.bind (main_stage sample_daemon_env (sample_input\<lparr>in_batch := 2\<rparr>) polling_daemon)
       (\<lambda>d'. map_option (\<lambda>server'. live (srv_clients server')) (dm_server d'))"

lemma served_clients: "served_clients = Some [20, 22]"
  by code_simp


end
