(* ===== verification/Interruption.thy ===== *)
theory Interruption
  imports Guarantees
begin

text \<open>
  A reload that is cut short.  Requests are decided while the daemon writes the maps, and the
  daemon may be killed between any two of its system calls.  What the maps hold at such a moment
  is what a reload leaves when every call from number \<open>N\<close> on is refused (\<open>stopped_kernel N\<close>): the
  loops over a map then end, the writers return with an error, and no way back has an effect.

  Up to the write of the configuration every decision is the old one, from then on the new one
  (\<open>reload_interrupted\<close>).
\<close>

section \<open>Maps that refuse every call\<close>

definition stopped :: "nat \<Rightarrow> ('k, 'v) map_ops \<Rightarrow> ('k, 'v) map_ops" where
  "stopped N ops =
     \<lparr>mo_update = (\<lambda>n m k v. if n < N then mo_update ops n m k v else (4, m)),
      mo_delete = (\<lambda>n m k. if n < N then mo_delete ops n m k else (4, m)),
      mo_next = (\<lambda>n m key. if n < N then mo_next ops n m key else None),
      mo_lookup = mo_lookup ops\<rparr>"

text \<open>The same with call \<open>N\<close> alone refused.\<close>

definition faulted :: "nat \<Rightarrow> ('k, 'v) map_ops \<Rightarrow> ('k, 'v) map_ops" where
  "faulted N ops =
     ops\<lparr>mo_update := (\<lambda>n m k v. if n = N then (4, m) else mo_update ops n m k v)\<rparr>"

lemma stopped_simps [simp]:
  "mo_update (stopped N ops) n m k v = (if n < N then mo_update ops n m k v else (4, m))"
  "mo_delete (stopped N ops) n m k = (if n < N then mo_delete ops n m k else (4, m))"
  "mo_next (stopped N ops) n m key = (if n < N then mo_next ops n m key else None)"
  "mo_lookup (stopped N ops) = mo_lookup ops"
  by (simp_all add: stopped_def)

lemma faulted_simps [simp]:
  "mo_update (faulted N ops) n m k v = (if n = N then (4, m) else mo_update ops n m k v)"
  "mo_delete (faulted N ops) = mo_delete ops" "mo_next (faulted N ops) = mo_next ops"
  "mo_lookup (faulted N ops) = mo_lookup ops"
  by (simp_all add: faulted_def)

lemma faulted_law: "map_law same ops \<Longrightarrow> map_law same (faulted N ops)"
  by (auto simp: map_law_def update_law_def delete_law_def next_law_def lookup_law_def)

lemma faulted_room:
  fixes ops :: "('k, 'v) map_ops"
  assumes "\<forall>fault. room_law limit fault same ops"
  shows "room_law limit N same (faulted N ops)"
  unfolding room_law_def
proof (intro allI impI)
  fix n and m :: "('k \<times> 'v) list" and k v
  assume n: "n \<noteq> N" and m: "entries_ok same m" "card (put same (k, v) (set m)) \<le> limit"
  have "room_law limit (Suc n) same ops" using assms by blast
  from this [unfolded room_law_def, rule_format, OF _ m, of n]
  show "fst (mo_update (faulted N ops) n m k v) = 0" using n by simp
qed

text \<open>A writer stops at its first error, so it sees no difference.\<close>

lemma write_loop_stopped:
  "n \<le> N \<Longrightarrow> write_loop fd (stopped N ops) entry rs n m = write_loop fd (faulted N ops) entry rs n m"
proof (induction rs arbitrary: n m)
  case Nil
  then show ?case by simp
next
  case (Cons r rs)
  then show ?case
    by (auto simp: sys_update_def split: write_step.split prod.split)
qed

lemma write_loop_frozen:
  assumes "N \<le> n"
  obtains err n' where "write_loop fd (stopped N ops) entry rs n m = (err, n', m)" "N \<le> n'"
proof -
  have "\<exists>err n'. write_loop fd (stopped N ops) entry rs n m = (err, n', m) \<and> N \<le> n'"
    using assms
    by (induction rs) (auto simp: sys_update_def Let_def split: write_step.split)
  then show thesis using that by blast
qed

lemma update_all_frozen:
  assumes "N \<le> n"
  obtains err n' where "update_all fd (stopped N ops) es e n m = (err, n', m)" "N \<le> n'"
proof -
  have "\<exists>err n'. update_all fd (stopped N ops) es e n m = (err, n', m) \<and> N \<le> n'"
    using assms
  proof (induction es arbitrary: n e)
    case Nil
    then show ?case by simp
  next
    case (Cons x es)
    from Cons.prems have "N \<le> Suc n" by simp
    from Cons.IH [OF this] show ?case
      using Cons.prems by (cases x) (simp add: sys_update_def)
  qed
  then show thesis using that by blast
qed

lemma clear_frozen:
  assumes "N \<le> n"
  shows "clear_generation fd (stopped N ops) gen g n m = Some (n, m)"
    "clear_all fd (stopped N ops) n m = Some (n, m)"
  using assms
  by (simp_all add: clear_generation_def clear_all_def clear_generation_loop.simps [of "stopped N ops" gen g None]
      clear_all_loop.simps [of "stopped N ops"])

text \<open>A loop that deletes ends with some of the entries deleted, or all of them.\<close>

lemma clear_generation_loop_stopped:
  assumes law: "map_law same ops" and "entries_ok same m" and "at_position m key i"
    and "\<forall>j < i. gen (fst (m ! j)) \<noteq> g"
  shows "\<exists>n' m'. clear_generation_loop (stopped N ops) gen g key n m = Some (n', m') \<and>
    entries_ok same m' \<and> set m' \<subseteq> set m \<and> {e \<in> set m. gen (fst e) \<noteq> g} \<subseteq> set m' \<and>
    (n' < N \<longrightarrow> visible gen g (set m') = {})"
  using assms(2-)
proof (induction "length m" arbitrary: m i n key rule: less_induct)
  case less
  show ?case
    using less.prems(2,3)
  proof (induction "length m - i" arbitrary: i key)
    case 0
    then have i: "i = length m" by (simp add: at_position_def)
    then have "mo_next ops n m key = None"
      using at_position_next [OF law less.prems(1) 0(2)] by simp
    moreover have "visible gen g (set m) = {}"
      using 0(3) i by (auto simp: visible_def in_set_conv_nth)
    ultimately show ?case
      using less.prems(1)
      by (auto simp: clear_generation_loop.simps [of "stopped N ops" gen g key n m])
  next
    case (Suc d)
    then have i: "i < length m" by simp
    then have nxt: "mo_next ops n m key = Some (fst (m ! i))"
      using at_position_next [OF law less.prems(1) Suc.prems(1)] by simp
    let ?k = "fst (m ! i)"
    have mem: "(?k, snd (m ! i)) \<in> set m" using i by simp
    consider "N \<le> n" | "n < N" "gen ?k = g" | "n < N" "gen ?k \<noteq> g" by linarith
    then show ?case
    proof cases
      case 1
      then show ?thesis using less.prems(1)
        by (simp add: clear_generation_loop.simps [of "stopped N ops" gen g key n m])
    next
      case 2
      let ?m' = "snd (mo_delete ops n m ?k)"
      note del = map_law_delete [OF law less.prems(1) mem, of n]
      have "at_position ?m' None 0" by (simp add: at_position_def)
      from less.hyps [OF map_law_shorter [OF law less.prems(1) mem] del(1) this, of "Suc n"]
      obtain n' m' where "clear_generation_loop (stopped N ops) gen g None (Suc n) ?m' = Some (n', m')"
        "entries_ok same m'" "set m' \<subseteq> set ?m'" "{e \<in> set ?m'. gen (fst e) \<noteq> g} \<subseteq> set m'"
        "n' < N \<longrightarrow> visible gen g (set m') = {}" by auto
      then show ?thesis
        using 2 del(2)
        by (auto simp: clear_generation_loop.simps [of "stopped N ops" gen g key n m] nxt)
    next
      case 3
      have "at_position m (Some ?k) (Suc i)" by (rule at_position_step [OF Suc.prems(1) i])
      from Suc.hyps(1) [OF _ this] Suc.hyps(2) Suc.prems(2) 3 show ?thesis
        by (simp add: clear_generation_loop.simps [of "stopped N ops" gen g key n m] nxt less_Suc_eq)
    qed
  qed
qed

lemma clear_generation_stopped:
  assumes "map_law same ops" and "entries_ok same m" and "0 \<le> fd"
  obtains n' m' where "clear_generation fd (stopped N ops) gen g n m = Some (n', m')"
    "entries_ok same m'" "set m' \<subseteq> set m" "{e \<in> set m. gen (fst e) \<noteq> g} \<subseteq> set m'"
    "n' < N \<longrightarrow> visible gen g (set m') = {}"
  using clear_generation_loop_stopped [OF assms(1,2), of None 0 gen g N n] assms(3)
  by (auto simp: clear_generation_def at_position_def)

lemma clear_all_stopped:
  assumes law: "map_law same ops" and "entries_ok same m" and fd: "0 \<le> fd"
  obtains n' m' where "clear_all fd (stopped N ops) n m = Some (n', m')" "entries_ok same m'"
    "n' < N \<longrightarrow> m' = []"
proof -
  have "\<exists>n' m'. clear_all_loop (stopped N ops) n m = Some (n', m') \<and> entries_ok same m' \<and>
      (n' < N \<longrightarrow> m' = [])"
    using assms(2)
  proof (induction "length m" arbitrary: m n rule: less_induct)
    case less
    note nxt = map_law_next(1) [OF law less.prems]
    show ?case
    proof (cases "N \<le> n \<or> m = []")
      case True
      then show ?thesis using nxt less.prems
        by (auto simp: clear_all_loop.simps [of "stopped N ops" n m])
    next
      case False
      then obtain e es where m: "m = e # es" by (cases m) auto
      then have mem: "(fst e, snd e) \<in> set m" by simp
      from less.hyps [OF map_law_shorter [OF law less.prems mem, of n]
          map_law_delete(1) [OF law less.prems mem, of n], of "Suc n"]
      show ?thesis using nxt m False by (auto simp: clear_all_loop.simps [of "stopped N ops" n "e # es"])
    qed
  qed
  then show thesis using fd that by (auto simp: clear_all_def)
qed

section \<open>A kernel that refuses every call\<close>

definition stopped_kernel :: "nat \<Rightarrow> policy_kernel \<Rightarrow> policy_kernel" where
  "stopped_kernel N kern =
     \<lparr>k_path = stopped N (k_path kern), k_command = stopped N (k_command kern),
      k_network = stopped N (k_network kern), k_resource = stopped N (k_resource kern),
      k_comm = stopped N (k_comm kern), k_pid = stopped N (k_pid kern),
      k_tgid = stopped N (k_tgid kern), k_array = (\<lambda>n. if n < N then k_array kern n else 4)\<rparr>"

definition faulted_kernel :: "nat \<Rightarrow> policy_kernel \<Rightarrow> policy_kernel" where
  "faulted_kernel N kern =
     \<lparr>k_path = faulted N (k_path kern), k_command = faulted N (k_command kern),
      k_network = faulted N (k_network kern), k_resource = faulted N (k_resource kern),
      k_comm = faulted N (k_comm kern), k_pid = faulted N (k_pid kern),
      k_tgid = faulted N (k_tgid kern), k_array = (\<lambda>n. if n = N then 4 else k_array kern n)\<rparr>"

lemma stopped_kernel_simps [simp]:
  "k_path (stopped_kernel N kern) = stopped N (k_path kern)"
  "k_command (stopped_kernel N kern) = stopped N (k_command kern)"
  "k_network (stopped_kernel N kern) = stopped N (k_network kern)"
  "k_resource (stopped_kernel N kern) = stopped N (k_resource kern)"
  "k_comm (stopped_kernel N kern) = stopped N (k_comm kern)"
  "k_pid (stopped_kernel N kern) = stopped N (k_pid kern)"
  "k_tgid (stopped_kernel N kern) = stopped N (k_tgid kern)"
  "k_array (stopped_kernel N kern) n = (if n < N then k_array kern n else 4)"
  by (simp_all add: stopped_kernel_def)

lemma faulted_kernel_simps [simp]:
  "k_path (faulted_kernel N kern) = faulted N (k_path kern)"
  "k_command (faulted_kernel N kern) = faulted N (k_command kern)"
  "k_network (faulted_kernel N kern) = faulted N (k_network kern)"
  "k_resource (faulted_kernel N kern) = faulted N (k_resource kern)"
  "k_comm (faulted_kernel N kern) = faulted N (k_comm kern)"
  "k_pid (faulted_kernel N kern) = faulted N (k_pid kern)"
  "k_tgid (faulted_kernel N kern) = faulted N (k_tgid kern)"
  "k_array (faulted_kernel N kern) n = (if n = N then 4 else k_array kern n)"
  by (simp_all add: faulted_kernel_def)

lemma faulted_kernel_law:
  assumes "\<forall>fault. kernel_law fault kern"
  shows "kernel_law N (faulted_kernel N kern)"
proof -
  note laws = kernel_laws [OF assms [rule_format]]
  have "k_array kern n = 0" for n
    using laws(15) [of n "Suc n"] by simp
  then show ?thesis
    using laws(1-14) by (simp add: kernel_law_def faulted_law faulted_room)
qed

section \<open>Steps under a kernel that refuses every call\<close>

text \<open>From call \<open>N\<close> on nothing happens.\<close>

definition frozen :: "nat \<Rightarrow> step \<Rightarrow> bool" where
  "frozen N a \<longleftrightarrow> (\<forall>n s. N \<le> n \<longrightarrow> (\<exists>err n'. a (n, s) = Some (err, n', s) \<and> N \<le> n'))"

lemma frozenE:
  assumes "frozen N a" and "N \<le> n"
  obtains err n' where "a (n, s) = Some (err, n', s)" "N \<le> n'"
  using assms unfolding frozen_def by blast

lemma frozen_skip [intro!]: "frozen N skip_step"
  by (simp add: frozen_def skip_step_def)

lemma frozen_attempt [intro!]:
  assumes a: "frozen N a" and u: "frozen N undo" and b: "frozen N b"
  shows "frozen N (attempt a undo b)"
  unfolding frozen_def
proof (intro allI impI)
  fix n s assume "N \<le> n"
  with a obtain err n' where *: "a (n, s) = Some (err, n', s)" "N \<le> n'" by (rule frozenE)
  obtain e1 n1 where "undo (n', s) = Some (e1, n1, s)" "N \<le> n1" using u *(2) by (rule frozenE)
  moreover obtain e2 n2 where "b (n', s) = Some (e2, n2, s)" "N \<le> n2" using b *(2) by (rule frozenE)
  ultimately show "\<exists>err n'. attempt a undo b (n, s) = Some (err, n', s) \<and> N \<le> n'"
    using * by (simp add: attempt_def)
qed

lemma frozen_regardless [intro!]:
  assumes a: "frozen N a" and b: "frozen N b"
  shows "frozen N (regardless a b)"
  unfolding frozen_def
proof (intro allI impI)
  fix n s assume "N \<le> n"
  with a obtain err n' where *: "a (n, s) = Some (err, n', s)" "N \<le> n'" by (rule frozenE)
  moreover obtain e2 n2 where "b (n', s) = Some (e2, n2, s)" "N \<le> n2" using b *(2) by (rule frozenE)
  ultimately show "\<exists>err n'. regardless a b (n, s) = Some (err, n', s) \<and> N \<le> n'"
    by (simp add: regardless_def)
qed

lemma frozen_keep_first [intro!]:
  assumes a: "frozen N a" and b: "frozen N b"
  shows "frozen N (keep_first a b)"
  unfolding frozen_def
proof (intro allI impI)
  fix n s assume "N \<le> n"
  with a obtain err n' where *: "a (n, s) = Some (err, n', s)" "N \<le> n'" by (rule frozenE)
  moreover obtain e2 n2 where "b (n', s) = Some (e2, n2, s)" "N \<le> n2" using b *(2) by (rule frozenE)
  ultimately show "\<exists>err n'. keep_first a b (n, s) = Some (err, n', s) \<and> N \<le> n'"
    by (simp add: keep_first_def)
qed

lemma frozen_on_map:
  assumes "\<And>n m. N \<le> n \<Longrightarrow> \<exists>err n'. f n m = Some (err, n', m) \<and> N \<le> n'"
    and "\<And>s. upd (\<lambda>_. sel s) s = s"
  shows "frozen N (on_map sel upd f)"
  unfolding frozen_def
proof (intro allI impI)
  fix n s assume "N \<le> n"
  from assms(1) [OF this, of "sel s"]
  show "\<exists>err n'. on_map sel upd f (n, s) = Some (err, n', s) \<and> N \<le> n'"
    using assms(2) by (auto simp: on_map_def)
qed

lemma frozen_write:
  assumes "\<And>s. upd (\<lambda>_. sel s) s = s"
  shows "frozen N (on_map sel upd
    (\<lambda>n m. Some (write_loop fd (stopped N ops) entry rs n m)))"
proof (rule frozen_on_map)
  show "\<exists>err n'. Some (write_loop fd (stopped N ops) entry rs n m) = Some (err, n', m) \<and> N \<le> n'"
    if "N \<le> n" for n m
    using that by (rule write_loop_frozen [of N n fd ops entry rs m]) simp
qed (rule assms)

lemma frozen_write_index:
  assumes "\<And>s. upd (\<lambda>_. sel s) s = s"
  shows "frozen N (on_map sel upd
    (\<lambda>n m. Some (if fd < 0 then (0, n, m) else write_loop fd (stopped N ops) entry rs n m)))"
proof (cases "fd < 0")
  case True
  then show ?thesis by (auto intro!: frozen_on_map assms)
next
  case False
  have "frozen N (on_map sel upd (\<lambda>n m. Some (write_loop fd (stopped N ops) entry rs n m)))"
    using assms by (rule frozen_write)
  then show ?thesis using False by simp
qed

lemma frozen_refill:
  assumes "\<And>s. upd (\<lambda>_. sel s) s = s"
  shows "frozen N (on_map sel upd
    (\<lambda>n m. Some (update_all fd (stopped N ops) es e n m)))"
proof (rule frozen_on_map)
  show "\<exists>err n'. Some (update_all fd (stopped N ops) es e n m) = Some (err, n', m) \<and> N \<le> n'"
    if "N \<le> n" for n m
    using that by (rule update_all_frozen [of N n fd ops es e m]) simp
qed (rule assms)

lemma frozen_clear:
  assumes "\<And>s. upd (\<lambda>_. sel s) s = s"
  shows "frozen N (on_map sel upd
      (\<lambda>n m. map_option (Pair 0) (clear_generation fd (stopped N ops) gen g n m)))"
    "frozen N (on_map sel upd (\<lambda>n m. map_option (Pair 0) (clear_all fd (stopped N ops) n m)))"
  by (rule frozen_on_map; simp add: clear_frozen assms)+

lemma array_frozen:
  "N \<le> n \<Longrightarrow> snd (array_update (stopped_kernel N kern) fd n a key v) = a \<and>
   fst (array_update (stopped_kernel N kern) fd n a key v) \<noteq> 0"
  by (simp add: array_update_def)

lemma write_rules_frozen:
  "N \<le> n \<Longrightarrow> \<exists>err n'. write_rules_loop (stopped_kernel N kern) fd state is n a = (err, n', a) \<and> N \<le> n'"
  by (cases "is") (auto simp: Let_def array_update_def)

lemma restore_rules_frozen:
  "N \<le> n \<Longrightarrow>
   \<exists>err n'. restore_rules_loop (stopped_kernel N kern) fd rules is e n a = (err, n', a) \<and> N \<le> n'"
proof (induction "is" arbitrary: n e)
  case Nil
  then show ?case by simp
next
  case (Cons i "is")
  from Cons.prems have "N \<le> Suc n" by simp
  from Cons.IH [OF this] show ?case using Cons.prems by (simp add: array_update_def)
qed

lemma frozen_arrays:
  "frozen N (on_map policy_rules policy_rules_update
     (\<lambda>n a. Some (write_rules_loop (stopped_kernel N kern) fd state is n a)))"
  "frozen N (on_map policy_rules policy_rules_update
     (\<lambda>n a. Some (restore_rules_loop (stopped_kernel N kern) fd rules is e n a)))"
  "frozen N (write_config (stopped_kernel N kern) fd config)"
  "frozen N (bump_epoch (stopped_kernel N kern) fd)"
  unfolding write_config_def bump_epoch_def
  by (rule frozen_on_map, use write_rules_frozen restore_rules_frozen in
      \<open>fastforce simp: array_update_def Let_def\<close>, simp)+

lemmas frozen_loops = frozen_write frozen_write_index frozen_refill frozen_clear frozen_arrays

text \<open>Every step of a reload, on the way and on the way back.\<close>

lemma frozen_clears:
  "frozen N (clear_path_trie (stopped_kernel N kern) fd)"
  "frozen N (clear_path_generation (stopped_kernel N kern) fd g)"
  "frozen N (clear_command_generation (stopped_kernel N kern) fd g)"
  "frozen N (clear_network_generation (stopped_kernel N kern) fd g)"
  "frozen N (clear_resource_generation (stopped_kernel N kern) fd g)"
  "frozen N (clear_comm_scopes (stopped_kernel N kern) fd)"
  "frozen N (on_pid (clear_id_scopes (stopped N (k_pid kern)) fd))"
  "frozen N (on_tgid (clear_id_scopes (stopped N (k_tgid kern)) fd))"
  unfolding clear_path_trie_def clear_path_generation_def clear_command_generation_def
    clear_network_generation_def clear_resource_generation_def clear_comm_scopes_def
    clear_id_scopes_def stopped_kernel_simps
  by (rule frozen_clear; simp)+

lemma frozen_restores:
  "frozen N (restore_path_trie (stopped_kernel N kern) fd snap)"
  "frozen N (restore_command_trie (stopped_kernel N kern) fd snap)"
  "frozen N (restore_network_trie (stopped_kernel N kern) fd snap)"
  "frozen N (restore_resource_hash (stopped_kernel N kern) fd snap)"
  unfolding restore_path_trie_def restore_command_trie_def restore_network_trie_def
    restore_resource_hash_def stopped_kernel_simps
  by (auto intro!: frozen_loops frozen_clears)

lemma frozen_restore:
  "frozen N (restore_policy_maps (stopped_kernel N kern) fds snap)"
  unfolding restore_policy_maps_def stopped_kernel_simps
  by (intro frozen_keep_first frozen_restores frozen_clears)
    (auto intro!: frozen_loops)

lemma frozen_retire:
  "frozen N (clear_generations (stopped_kernel N kern) fds g)"
  "frozen N (retire_generation (stopped_kernel N kern) fds snap config)"
  unfolding retire_generation_def clear_generations_def
  by (auto intro!: frozen_clears)

lemma frozen_writes:
  "frozen N (write_path_trie (stopped_kernel N kern) fd state g)"
  "frozen N (write_command_trie (stopped_kernel N kern) fd state g)"
  "frozen N (write_network_trie (stopped_kernel N kern) fd state g)"
  "frozen N (write_resource_hash (stopped_kernel N kern) fd state g)"
  "frozen N (write_rules (stopped_kernel N kern) fd state)"
  "frozen N (write_scope_maps (stopped_kernel N kern) fds scope config)"
  unfolding write_path_trie_def write_command_trie_def write_network_trie_def
    write_resource_hash_def write_rules_def write_scope_maps_def stopped_kernel_simps
  by (auto intro!: frozen_loops frozen_clears)

section \<open>The part before the stop\<close>

text \<open>From \<open>P\<close> the step gets through without error and has \<open>R\<close>, or is stopped on the way and
  leaves maps with \<open>J\<close>.\<close>

definition cut ::
  "nat \<Rightarrow> (bpf_state \<Rightarrow> bool) \<Rightarrow> (loader \<Rightarrow> bool) \<Rightarrow> step \<Rightarrow> (loader \<Rightarrow> bool) \<Rightarrow> bool" where
  "cut N J P a R \<longleftrightarrow>
     (\<forall>n s. P (n, s) \<longrightarrow> n < N \<longrightarrow>
        (\<exists>err n' s'. a (n, s) = Some (err, n', s') \<and>
           (if n' < N then err = 0 \<and> R (n', s') else J s')))"

lemma cutE:
  assumes "cut N J P a R" and "P (n, s)" and "n < N"
  obtains err n' s' where "a (n, s) = Some (err, n', s')"
    "if n' < N then err = 0 \<and> R (n', s') else J s'"
  using assms unfolding cut_def by blast

lemma cut_mono:
  "cut N J P a R \<Longrightarrow> (\<And>s. J s \<Longrightarrow> J' s) \<Longrightarrow> (\<And>x. P' x \<Longrightarrow> P x) \<Longrightarrow> (\<And>x. R x \<Longrightarrow> R' x) \<Longrightarrow>
   cut N J' P' a R'"
  unfolding cut_def by (metis (full_types))

lemma cut_weaken: "cut N J P a R \<Longrightarrow> cut N (\<lambda>s. J s \<or> K s) P a R"
  unfolding cut_def by (metis (full_types))

lemma cut_attempt:
  assumes a: "cut N J P a R" and u: "frozen N undo" and b: "frozen N b" "cut N J R b Q"
  shows "cut N J P (attempt a undo b) Q"
  unfolding cut_def
proof (intro allI impI)
  fix n s assume "P (n, s)" "n < N"
  with a obtain err n' s' where step: "a (n, s) = Some (err, n', s')"
    "if n' < N then err = 0 \<and> R (n', s') else J s'" by (rule cutE)
  show "\<exists>err n' s'. attempt a undo b (n, s) = Some (err, n', s') \<and>
      (if n' < N then err = 0 \<and> Q (n', s') else J s')"
  proof (cases "n' < N")
    case True
    then have "err = 0" "R (n', s')" using step(2) by simp_all
    from b(2) this(2) True obtain err2 n2 s2 where "b (n', s') = Some (err2, n2, s2)"
      "if n2 < N then err2 = 0 \<and> Q (n2, s2) else J s2" by (rule cutE)
    then show ?thesis using step(1) \<open>err = 0\<close> by (auto simp: attempt_def)
  next
    case False
    then have N: "N \<le> n'" by simp
    obtain e1 n1 where "undo (n', s') = Some (e1, n1, s')" "N \<le> n1" using u N by (rule frozenE)
    moreover obtain e2 n2 where "b (n', s') = Some (e2, n2, s')" "N \<le> n2"
      using b(1) N by (rule frozenE)
    ultimately show ?thesis using step False by (auto simp: attempt_def)
  qed
qed

lemma cut_regardless:
  assumes a: "cut N J P a R" and b: "frozen N b" "cut N J R b Q"
  shows "cut N J P (regardless a b) Q"
  unfolding cut_def
proof (intro allI impI)
  fix n s assume "P (n, s)" "n < N"
  with a obtain err n' s' where step: "a (n, s) = Some (err, n', s')"
    "if n' < N then err = 0 \<and> R (n', s') else J s'" by (rule cutE)
  show "\<exists>err n' s'. regardless a b (n, s) = Some (err, n', s') \<and>
      (if n' < N then err = 0 \<and> Q (n', s') else J s')"
  proof (cases "n' < N")
    case True
    then have "R (n', s')" using step(2) by simp
    from b(2) this True obtain err2 n2 s2 where "b (n', s') = Some (err2, n2, s2)"
      "if n2 < N then err2 = 0 \<and> Q (n2, s2) else J s2" by (rule cutE)
    then show ?thesis using step(1) by (auto simp: regardless_def)
  next
    case False
    then have N: "N \<le> n'" by simp
    obtain e2 n2 where "b (n', s') = Some (e2, n2, s')" "N \<le> n2" using b(1) N by (rule frozenE)
    then show ?thesis using step False by (auto simp: regardless_def)
  qed
qed

lemma cut_skip: "cut N J P skip_step P"
  by (simp add: cut_def skip_step_def)

lemma cut_on_map:
  assumes "\<And>n s. P (n, s) \<Longrightarrow> n < N \<Longrightarrow>
    \<exists>err n' m. f n (sel s) = Some (err, n', m) \<and>
      (if n' < N then err = 0 \<and> R (n', upd (\<lambda>_. m) s) else J (upd (\<lambda>_. m) s))"
  shows "cut N J P (on_map sel upd f) R"
  unfolding cut_def on_map_def using assms by fastforce

text \<open>A reload that the kernel stops at call \<open>rl_fault rl\<close>.\<close>

definition old_view :: "reload \<Rightarrow> bpf_state \<Rightarrow> bool" where
  "old_view rl s \<longleftrightarrow>
     staging (rl_gen rl) (rl_start rl) s \<and> policy_config s = policy_config (rl_start rl)"

definition new_view :: "reload \<Rightarrow> bpf_state \<Rightarrow> bool" where
  "new_view rl s \<longleftrightarrow>
     committed rl (s\<lparr>global_epoch :=
       [MCP_GUARD_EPOCH_KEY \<mapsto> next_epoch (mcp_current_epoch (rl_start rl))]\<rparr>)"

abbreviation untouched where
  "untouched rl P x \<equiv> P x \<and> policy_config (snd x) = policy_config (rl_start rl)"

text \<open>The writers: they are stopped by their first error, as by a single fault.\<close>

lemma cut_write:
  assumes a: "achieves P a (after_write rl R)"
    and same: "\<And>n s. n < rl_fault rl \<Longrightarrow> b (n, s) = a (n, s)"
    and frame: "\<And>x err y. a x = Some (err, y) \<Longrightarrow> policy_config (snd y) = policy_config (snd x)"
    and staging: "\<And>x. R x \<Longrightarrow> staging (rl_gen rl) (rl_start rl) (snd x)"
  shows "cut (rl_fault rl) (old_view rl) (untouched rl P) b (untouched rl R)"
  unfolding cut_def
proof (intro allI impI)
  fix n s assume P: "untouched rl P (n, s)" and n: "n < rl_fault rl"
  from a conjunct1 [OF P] obtain err y where step: "a (n, s) = Some (err, y)" "after_write rl R err y"
    by (rule achievesD)
  obtain n' s' where y: "y = (n', s')" by (cases y)
  have config: "policy_config s' = policy_config (rl_start rl)"
    using frame [OF step(1)] P y by simp
  have "staging (rl_gen rl) (rl_start rl) s'"
  proof (cases "err = 0")
    case True
    then have "R (n', s')" using step(2) y by (simp add: after_write_def)
    then show ?thesis using staging by fastforce
  next
    case False
    then show ?thesis using step(2) y by (simp add: after_write_def progress_at_def)
  qed
  moreover have "err = 0 \<and> R (n', s')" if "n' < rl_fault rl"
    using step(2) y that by (cases "err = 0") (simp_all add: after_write_def progress_at_def)
  ultimately show "\<exists>err n' s'. b (n, s) = Some (err, n', s') \<and>
      (if n' < rl_fault rl then err = 0 \<and> untouched rl R (n', s') else old_view rl s')"
    using same [OF n] step(1) y config by (simp add: old_view_def)
qed

lemma on_map_same:
  assumes "\<And>m. f n m = g n m"
  shows "on_map sel upd f (n, s) = on_map sel upd g (n, s)"
  by (simp add: on_map_def assms)

lemma on_map_frame:
  assumes "on_map sel upd f x = Some (err, y)" and "\<And>m s. policy_config (upd m s) = policy_config s"
  shows "policy_config (snd y) = policy_config (snd x)"
  using assms by (auto simp: on_map_def)

section \<open>The stages of a reload, stopped\<close>

definition stopping :: "reload \<Rightarrow> policy_kernel \<Rightarrow> bool" where
  "stopping rl kern \<longleftrightarrow>
     reload_ok rl \<and> rl_kern rl = faulted_kernel (rl_fault rl) kern \<and>
     (\<forall>fault. kernel_law fault kern)"

abbreviation stop_kern where "stop_kern rl kern \<equiv> stopped_kernel (rl_fault rl) kern"

lemma stopping_ok: "stopping rl kern \<Longrightarrow> reload_ok rl"
  by (simp add: stopping_def)

lemma stopping_kern: "stopping rl kern \<Longrightarrow> rl_kern rl = faulted_kernel (rl_fault rl) kern"
  by (simp add: stopping_def)

lemma stopping_laws:
  assumes "stopping rl kern"
  shows "map_law (same_lpm plk_prefixlen path_key_bits) (k_path kern)"
    "map_law (same_lpm clk_prefixlen command_key_bits) (k_command kern)"
    "map_law (same_lpm nlk_prefixlen network_key_bits) (k_network kern)"
    "map_law (=) (k_resource kern)" "map_law (=) (k_comm kern)" "map_law (=) (k_pid kern)"
    "map_law (=) (k_tgid kern)"
  using assms kernel_laws(1-7) [of 0 kern] by (simp_all add: stopping_def)

text \<open>An index that is being cleared of the generation \<open>g\<close>, or of another one.\<close>

context generation_index
begin

lemma staged_clear_stopped:
  assumes law: "map_law same ops" and fd: "0 \<le> fd" and m: "staged g m0 m"
  obtains n' m' where "clear_generation fd (stopped N ops) gen g n m = Some (n', m')"
    "staged g m0 m'" "set m' \<subseteq> set m" "n' < N \<longrightarrow> visible gen g (set m') = {}"
proof -
  have "entries_ok same m" using m by (simp add: staged_def)
  from clear_generation_stopped [OF law this fd, of N gen g n]
  obtain n' m' where c: "clear_generation fd (stopped N ops) gen g n m = Some (n', m')"
    "entries_ok same m'" "set m' \<subseteq> set m" "{e \<in> set m. gen (fst e) \<noteq> g} \<subseteq> set m'"
    "n' < N \<longrightarrow> visible gen g (set m') = {}" .
  have "staged g m0 m'" by (rule staged_shrink [OF m c(2,3)]) (use c(3,4) in blast)
  with c show thesis using that by blast
qed

lemma staged_retire_stopped:
  assumes law: "map_law same ops" and fd: "0 \<le> fd" and m: "sound m" and "a \<noteq> g"
  obtains n' m' where "clear_generation fd (stopped N ops) gen a n m = Some (n', m')"
    "sound m'" "visible gen g (set m') = visible gen g (set m)"
proof -
  have "entries_ok same m" using m by (simp add: sound_def)
  from clear_generation_stopped [OF law this fd, of N gen a n]
  obtain n' m' where c: "clear_generation fd (stopped N ops) gen a n m = Some (n', m')"
    "entries_ok same m'" "set m' \<subseteq> set m" "{e \<in> set m. gen (fst e) \<noteq> a} \<subseteq> set m'" .
  have "sound m'" using c(2,3) m by (auto simp: sound_def)
  moreover have "visible gen g (set m') = visible gen g (set m)"
    using c(3,4) assms(4) by (auto simp: visible_def)
  ultimately show thesis using c(1) that by blast
qed

lemma visible_card: "set m' \<subseteq> set m \<Longrightarrow> card (visible gen g (set m')) \<le> card (visible gen g (set m))"
  by (intro card_mono) (auto simp: visible_def)

end

lemma cut_clear_path:
  assumes rl: "stopping rl kern"
  shows "cut (rl_fault rl) (old_view rl) (untouched rl (progress_at rl False (p, c, n, r)))
    (clear_path_generation (stop_kern rl kern) (fd_path (rl_fds rl)) (rl_gen rl))
    (untouched rl (progress_at rl False (Cleared, c, n, r)))"
  unfolding clear_path_generation_def stopped_kernel_simps
proof (rule cut_on_map)
  fix k s assume x: "untouched rl (progress_at rl False (p, c, n, r)) (k, s)"
  then have "path_index.index.staged (rl_gen rl) (path_policy_trie (rl_start rl)) (path_policy_trie s)"
    by (simp add: reload_frame)
  from path_index.index.staged_clear_stopped [OF stopping_laws(1) [OF rl] reload_laws(15) [OF stopping_ok [OF rl]]
      this, of "rl_fault rl" k]
  obtain n' m where m: "clear_generation (fd_path (rl_fds rl)) (stopped (rl_fault rl) (k_path kern))
      plk_generation (rl_gen rl) k (path_policy_trie s) = Some (n', m)"
    "path_index.index.staged (rl_gen rl) (path_policy_trie (rl_start rl)) m" "set m \<subseteq> set (path_policy_trie s)"
    "n' < rl_fault rl \<longrightarrow> visible plk_generation (rl_gen rl) (set m) = {}" .
  have "staging (rl_gen rl) (rl_start rl) s" using x by (simp add: progress_at_def)
  then have "staging (rl_gen rl) (rl_start rl) (s\<lparr>path_policy_trie := m\<rparr>)"
    using m(2) by (simp add: staging_def other_maps_def)
  then show "\<exists>err n' m. map_option (Pair 0) (clear_generation (fd_path (rl_fds rl))
        (stopped (rl_fault rl) (k_path kern)) plk_generation (rl_gen rl) k (path_policy_trie s)) = Some (err, n', m) \<and>
      (if n' < rl_fault rl
       then err = 0 \<and> untouched rl (progress_at rl False (Cleared, c, n, r)) (n', s\<lparr>path_policy_trie := m\<rparr>)
       else old_view rl (s\<lparr>path_policy_trie := m\<rparr>))"
    using m(1,4) x by (simp add: progress_at_def old_view_def)
qed

lemma cut_clear_command:
  assumes rl: "stopping rl kern"
  shows "cut (rl_fault rl) (old_view rl) (untouched rl (progress_at rl False (p, c, n, r)))
    (clear_command_generation (stop_kern rl kern) (fd_command (rl_fds rl)) (rl_gen rl))
    (untouched rl (progress_at rl False (p, Cleared, n, r)))"
  unfolding clear_command_generation_def stopped_kernel_simps
proof (rule cut_on_map)
  fix k s assume x: "untouched rl (progress_at rl False (p, c, n, r)) (k, s)"
  then have "command_index.index.staged (rl_gen rl) (command_policy_trie (rl_start rl)) (command_policy_trie s)"
    by (simp add: reload_frame)
  from command_index.index.staged_clear_stopped [OF stopping_laws(2) [OF rl] reload_laws(16) [OF stopping_ok [OF rl]]
      this, of "rl_fault rl" k]
  obtain n' m where m: "clear_generation (fd_command (rl_fds rl)) (stopped (rl_fault rl) (k_command kern))
      clk_generation (rl_gen rl) k (command_policy_trie s) = Some (n', m)"
    "command_index.index.staged (rl_gen rl) (command_policy_trie (rl_start rl)) m" "set m \<subseteq> set (command_policy_trie s)"
    "n' < rl_fault rl \<longrightarrow> visible clk_generation (rl_gen rl) (set m) = {}" .
  have "staging (rl_gen rl) (rl_start rl) s" using x by (simp add: progress_at_def)
  moreover have "card (visible clk_generation (rl_gen rl) (set m)) \<le> 32"
    by (rule order.trans [OF command_index.index.visible_card [OF m(3)]]) (use x in \<open>simp add: reload_frame\<close>)
  ultimately have "staging (rl_gen rl) (rl_start rl) (s\<lparr>command_policy_trie := m\<rparr>)"
    using m(2) by (simp add: staging_def other_maps_def)
  then show "\<exists>err n' m. map_option (Pair 0) (clear_generation (fd_command (rl_fds rl))
        (stopped (rl_fault rl) (k_command kern)) clk_generation (rl_gen rl) k (command_policy_trie s)) = Some (err, n', m) \<and>
      (if n' < rl_fault rl
       then err = 0 \<and> untouched rl (progress_at rl False (p, Cleared, n, r)) (n', s\<lparr>command_policy_trie := m\<rparr>)
       else old_view rl (s\<lparr>command_policy_trie := m\<rparr>))"
    using m(1,4) x by (simp add: progress_at_def old_view_def)
qed

lemma cut_clear_network:
  assumes rl: "stopping rl kern"
  shows "cut (rl_fault rl) (old_view rl) (untouched rl (progress_at rl False (p, c, n, r)))
    (clear_network_generation (stop_kern rl kern) (fd_network (rl_fds rl)) (rl_gen rl))
    (untouched rl (progress_at rl False (p, c, Cleared, r)))"
  unfolding clear_network_generation_def stopped_kernel_simps
proof (rule cut_on_map)
  fix k s assume x: "untouched rl (progress_at rl False (p, c, n, r)) (k, s)"
  then have "network_index.index.staged (rl_gen rl) (network_policy_trie (rl_start rl)) (network_policy_trie s)"
    by (simp add: reload_frame)
  from network_index.index.staged_clear_stopped [OF stopping_laws(3) [OF rl] reload_laws(17) [OF stopping_ok [OF rl]]
      this, of "rl_fault rl" k]
  obtain n' m where m: "clear_generation (fd_network (rl_fds rl)) (stopped (rl_fault rl) (k_network kern))
      nlk_generation (rl_gen rl) k (network_policy_trie s) = Some (n', m)"
    "network_index.index.staged (rl_gen rl) (network_policy_trie (rl_start rl)) m" "set m \<subseteq> set (network_policy_trie s)"
    "n' < rl_fault rl \<longrightarrow> visible nlk_generation (rl_gen rl) (set m) = {}" .
  have "staging (rl_gen rl) (rl_start rl) s" using x by (simp add: progress_at_def)
  moreover have "card (visible nlk_generation (rl_gen rl) (set m)) \<le> 32"
    by (rule order.trans [OF network_index.index.visible_card [OF m(3)]]) (use x in \<open>simp add: reload_frame\<close>)
  ultimately have "staging (rl_gen rl) (rl_start rl) (s\<lparr>network_policy_trie := m\<rparr>)"
    using m(2) by (simp add: staging_def other_maps_def)
  then show "\<exists>err n' m. map_option (Pair 0) (clear_generation (fd_network (rl_fds rl))
        (stopped (rl_fault rl) (k_network kern)) nlk_generation (rl_gen rl) k (network_policy_trie s)) = Some (err, n', m) \<and>
      (if n' < rl_fault rl
       then err = 0 \<and> untouched rl (progress_at rl False (p, c, Cleared, r)) (n', s\<lparr>network_policy_trie := m\<rparr>)
       else old_view rl (s\<lparr>network_policy_trie := m\<rparr>))"
    using m(1,4) x by (simp add: progress_at_def old_view_def)
qed

lemma cut_clear_resource:
  assumes rl: "stopping rl kern"
  shows "cut (rl_fault rl) (old_view rl) (untouched rl (progress_at rl False (p, c, n, r)))
    (clear_resource_generation (stop_kern rl kern) (fd_resource (rl_fds rl)) (rl_gen rl))
    (untouched rl (progress_at rl False (p, c, n, Cleared)))"
  unfolding clear_resource_generation_def stopped_kernel_simps
proof (rule cut_on_map)
  fix k s assume x: "untouched rl (progress_at rl False (p, c, n, r)) (k, s)"
  then have "resource_index.staged (rl_gen rl) (resource_policy_hash (rl_start rl)) (resource_policy_hash s)"
    by (simp add: reload_frame)
  from resource_index.staged_clear_stopped [OF stopping_laws(4) [OF rl] reload_laws(18) [OF stopping_ok [OF rl]]
      this, of "rl_fault rl" k]
  obtain n' m where m: "clear_generation (fd_resource (rl_fds rl)) (stopped (rl_fault rl) (k_resource kern))
      rpk_generation (rl_gen rl) k (resource_policy_hash s) = Some (n', m)"
    "resource_index.staged (rl_gen rl) (resource_policy_hash (rl_start rl)) m" "set m \<subseteq> set (resource_policy_hash s)"
    "n' < rl_fault rl \<longrightarrow> visible rpk_generation (rl_gen rl) (set m) = {}" .
  have "staging (rl_gen rl) (rl_start rl) s" using x by (simp add: progress_at_def)
  moreover have "card (visible rpk_generation (rl_gen rl) (set m)) \<le> 32"
    by (rule order.trans [OF resource_index.visible_card [OF m(3)]]) (use x in \<open>simp add: reload_frame\<close>)
  ultimately have "staging (rl_gen rl) (rl_start rl) (s\<lparr>resource_policy_hash := m\<rparr>)"
    using m(2) by (simp add: staging_def other_maps_def)
  then show "\<exists>err n' m. map_option (Pair 0) (clear_generation (fd_resource (rl_fds rl))
        (stopped (rl_fault rl) (k_resource kern)) rpk_generation (rl_gen rl) k (resource_policy_hash s)) = Some (err, n', m) \<and>
      (if n' < rl_fault rl
       then err = 0 \<and> untouched rl (progress_at rl False (p, c, n, Cleared)) (n', s\<lparr>resource_policy_hash := m\<rparr>)
       else old_view rl (s\<lparr>resource_policy_hash := m\<rparr>))"
    using m(1,4) x by (simp add: progress_at_def old_view_def)
qed

text \<open>The writers.\<close>

lemma write_loop_same:
  assumes "stopping rl kern" and "n < rl_fault rl"
  shows "write_loop fd (stopped (rl_fault rl) ops) entry rs n m =
    write_loop fd (faulted (rl_fault rl) ops) entry rs n m"
  using assms(2) by (intro write_loop_stopped) simp

lemma cut_write_path:
  assumes rl: "stopping rl kern"
  shows "cut (rl_fault rl) (old_view rl) (untouched rl (progress_at rl False (Cleared, c, n, r)))
    (write_path_trie (stop_kern rl kern) (fd_path (rl_fds rl)) (rl_rules rl) (rl_gen rl))
    (untouched rl (progress_at rl False (Written, c, n, r)))"
proof (rule cut_write [OF write_path_reload [OF stopping_ok [OF rl]]])
  show "write_path_trie (stop_kern rl kern) (fd_path (rl_fds rl)) (rl_rules rl) (rl_gen rl) (n, s) =
      write_path_trie (rl_kern rl) (fd_path (rl_fds rl)) (rl_rules rl) (rl_gen rl) (n, s)"
    if "n < rl_fault rl" for n s
    unfolding write_path_trie_def stopping_kern [OF rl] stopped_kernel_simps faulted_kernel_simps
    by (rule on_map_same) (simp add: write_loop_same [OF rl that])
qed (auto simp: write_path_trie_def progress_at_def dest: on_map_frame)

lemma cut_write_command:
  assumes rl: "stopping rl kern"
  shows "cut (rl_fault rl) (old_view rl) (untouched rl (progress_at rl False (p, Cleared, n, r)))
    (write_command_trie (stop_kern rl kern) (fd_command (rl_fds rl)) (rl_rules rl) (rl_gen rl))
    (untouched rl (progress_at rl False (p, Written, n, r)))"
proof (rule cut_write [OF write_command_reload [OF stopping_ok [OF rl]]])
  show "write_command_trie (stop_kern rl kern) (fd_command (rl_fds rl)) (rl_rules rl) (rl_gen rl) (n, s) =
      write_command_trie (rl_kern rl) (fd_command (rl_fds rl)) (rl_rules rl) (rl_gen rl) (n, s)"
    if "n < rl_fault rl" for n s
    unfolding write_command_trie_def stopping_kern [OF rl] stopped_kernel_simps faulted_kernel_simps
    by (rule on_map_same) (simp add: write_loop_same [OF rl that])
qed (auto simp: write_command_trie_def progress_at_def dest: on_map_frame)

lemma cut_write_network:
  assumes rl: "stopping rl kern"
  shows "cut (rl_fault rl) (old_view rl) (untouched rl (progress_at rl False (p, c, Cleared, r)))
    (write_network_trie (stop_kern rl kern) (fd_network (rl_fds rl)) (rl_rules rl) (rl_gen rl))
    (untouched rl (progress_at rl False (p, c, Written, r)))"
proof (rule cut_write [OF write_network_reload [OF stopping_ok [OF rl]]])
  show "write_network_trie (stop_kern rl kern) (fd_network (rl_fds rl)) (rl_rules rl) (rl_gen rl) (n, s) =
      write_network_trie (rl_kern rl) (fd_network (rl_fds rl)) (rl_rules rl) (rl_gen rl) (n, s)"
    if "n < rl_fault rl" for n s
    unfolding write_network_trie_def stopping_kern [OF rl] stopped_kernel_simps faulted_kernel_simps
    by (rule on_map_same) (simp add: write_loop_same [OF rl that])
qed (auto simp: write_network_trie_def progress_at_def dest: on_map_frame)

lemma cut_write_resource:
  assumes rl: "stopping rl kern"
  shows "cut (rl_fault rl) (old_view rl) (untouched rl (progress_at rl False (p, c, n, Cleared)))
    (write_resource_hash (stop_kern rl kern) (fd_resource (rl_fds rl)) (rl_rules rl) (rl_gen rl))
    (untouched rl (progress_at rl False (p, c, n, Written)))"
proof (rule cut_write [OF write_resource_reload [OF stopping_ok [OF rl]]])
  show "write_resource_hash (stop_kern rl kern) (fd_resource (rl_fds rl)) (rl_rules rl) (rl_gen rl) (n, s) =
      write_resource_hash (rl_kern rl) (fd_resource (rl_fds rl)) (rl_rules rl) (rl_gen rl) (n, s)"
    if "n < rl_fault rl" for n s
    unfolding write_resource_hash_def stopping_kern [OF rl] stopped_kernel_simps faulted_kernel_simps
    by (rule on_map_same) (simp add: write_loop_same [OF rl that])
qed (auto simp: write_resource_hash_def progress_at_def dest: on_map_frame)

lemma array_update_stopped:
  "n \<le> N \<Longrightarrow> array_update (stopped_kernel N kern) fd n a key v =
    array_update (faulted_kernel N kern) fd n a key v"
  by (simp add: array_update_def)

lemma write_rules_stopped:
  "n \<le> N \<Longrightarrow> write_rules_loop (stopped_kernel N kern) fd state is n a =
    write_rules_loop (faulted_kernel N kern) fd state is n a"
proof (induction "is" arbitrary: n a)
  case Nil
  then show ?case by simp
next
  case (Cons i "is")
  show ?case
  proof (cases "n = N")
    case True
    have "fst (array_update (faulted_kernel N kern) fd N a key v) \<noteq> 0" for key v
      by (simp add: array_update_def)
    then show ?thesis
      using True by (simp add: array_update_stopped Let_def case_prod_beta)
  next
    case False
    then have "Suc n \<le> N" using Cons.prems by simp
    then show ?thesis
      using Cons.IH Cons.prems by (simp add: array_update_stopped Let_def case_prod_beta)
  qed
qed

lemma cut_write_rules:
  assumes rl: "stopping rl kern"
  shows "cut (rl_fault rl) (old_view rl) (untouched rl (staged_all rl))
    (write_rules (stop_kern rl kern) (fd_rules (rl_fds rl)) (rl_rules rl))
    (untouched rl (published rl 0))"
proof (rule cut_write [OF write_rules_reload [OF stopping_ok [OF rl]]])
  show "write_rules (stop_kern rl kern) (fd_rules (rl_fds rl)) (rl_rules rl) (n, s) =
      write_rules (rl_kern rl) (fd_rules (rl_fds rl)) (rl_rules rl) (n, s)"
    if "n < rl_fault rl" for n s
    unfolding write_rules_def stopping_kern [OF rl]
    by (rule on_map_same) (use that in \<open>simp add: write_rules_stopped\<close>)
qed (auto simp: write_rules_def progress_at_def published_def dest: on_map_frame)

text \<open>The scope maps.\<close>

lemma cut_clear_comm:
  assumes rl: "stopping rl kern"
  shows "cut (rl_fault rl) (old_view rl) (untouched rl (\<lambda>x. emptied rl False False False x))
    (clear_comm_scopes (stop_kern rl kern) (fd_comm (rl_fds rl)))
    (untouched rl (\<lambda>x. emptied rl True False False x))"
  unfolding clear_comm_scopes_def stopped_kernel_simps
proof (rule cut_on_map)
  fix n s assume x: "untouched rl (\<lambda>x. emptied rl False False False x) (n, s)"
  then have "entries_ok (=) (scope_comm s)" by (simp add: publish_frame)
  from clear_all_stopped [OF stopping_laws(5) [OF rl] this reload_laws(19) [OF stopping_ok [OF rl]],
      of "rl_fault rl" n]
  obtain n' m where m: "clear_all (fd_comm (rl_fds rl)) (stopped (rl_fault rl) (k_comm kern)) n
      (scope_comm s) = Some (n', m)" "entries_ok (=) m" "n' < rl_fault rl \<longrightarrow> m = []" .
  have "staging (rl_gen rl) (rl_start rl) s" using x by (simp add: published_def progress_at_def)
  then have "staging (rl_gen rl) (rl_start rl) (s\<lparr>scope_comm := m\<rparr>)"
    using m(2) by (simp add: staging_def other_maps_def)
  then show "\<exists>err n' m. map_option (Pair 0) (clear_all (fd_comm (rl_fds rl))
        (stopped (rl_fault rl) (k_comm kern)) n (scope_comm s)) = Some (err, n', m) \<and>
      (if n' < rl_fault rl
       then err = 0 \<and> untouched rl (\<lambda>x. emptied rl True False False x) (n', s\<lparr>scope_comm := m\<rparr>)
       else old_view rl (s\<lparr>scope_comm := m\<rparr>))"
    using m(1,3) x
    by (cases "n' < rl_fault rl")
      (simp_all add: published_def progress_at_def rules_written_def old_view_def)
qed

lemma cut_clear_pid:
  assumes rl: "stopping rl kern"
  shows "cut (rl_fault rl) (old_view rl) (untouched rl (\<lambda>x. emptied rl True False False x))
    (on_pid (clear_id_scopes (stopped (rl_fault rl) (k_pid kern)) (fd_pid (rl_fds rl))))
    (untouched rl (\<lambda>x. emptied rl True True False x))"
  unfolding clear_id_scopes_def stopped_kernel_simps
proof (rule cut_on_map)
  fix n s assume x: "untouched rl (\<lambda>x. emptied rl True False False x) (n, s)"
  then have "entries_ok (=) (scope_pid s)" by (simp add: publish_frame)
  from clear_all_stopped [OF stopping_laws(6) [OF rl] this reload_laws(20) [OF stopping_ok [OF rl]],
      of "rl_fault rl" n]
  obtain n' m where m: "clear_all (fd_pid (rl_fds rl)) (stopped (rl_fault rl) (k_pid kern)) n
      (scope_pid s) = Some (n', m)" "entries_ok (=) m" "n' < rl_fault rl \<longrightarrow> m = []" .
  have "staging (rl_gen rl) (rl_start rl) s" using x by (simp add: published_def progress_at_def)
  then have "staging (rl_gen rl) (rl_start rl) (s\<lparr>scope_pid := m\<rparr>)"
    using m(2) by (simp add: staging_def other_maps_def)
  then show "\<exists>err n' m. map_option (Pair 0) (clear_all (fd_pid (rl_fds rl))
        (stopped (rl_fault rl) (k_pid kern)) n (scope_pid s)) = Some (err, n', m) \<and>
      (if n' < rl_fault rl
       then err = 0 \<and> untouched rl (\<lambda>x. emptied rl True True False x) (n', s\<lparr>scope_pid := m\<rparr>)
       else old_view rl (s\<lparr>scope_pid := m\<rparr>))"
    using m(1,3) x
    by (cases "n' < rl_fault rl")
      (simp_all add: published_def progress_at_def rules_written_def old_view_def)
qed

lemma cut_clear_tgid:
  assumes rl: "stopping rl kern"
  shows "cut (rl_fault rl) (old_view rl) (untouched rl (\<lambda>x. emptied rl True True False x))
    (on_tgid (clear_id_scopes (stopped (rl_fault rl) (k_tgid kern)) (fd_tgid (rl_fds rl))))
    (untouched rl (\<lambda>x. emptied rl True True True x))"
  unfolding clear_id_scopes_def stopped_kernel_simps
proof (rule cut_on_map)
  fix n s assume x: "untouched rl (\<lambda>x. emptied rl True True False x) (n, s)"
  then have "entries_ok (=) (scope_tgid s)" by (simp add: publish_frame)
  from clear_all_stopped [OF stopping_laws(7) [OF rl] this reload_laws(21) [OF stopping_ok [OF rl]],
      of "rl_fault rl" n]
  obtain n' m where m: "clear_all (fd_tgid (rl_fds rl)) (stopped (rl_fault rl) (k_tgid kern)) n
      (scope_tgid s) = Some (n', m)" "entries_ok (=) m" "n' < rl_fault rl \<longrightarrow> m = []" .
  have "staging (rl_gen rl) (rl_start rl) s" using x by (simp add: published_def progress_at_def)
  then have "staging (rl_gen rl) (rl_start rl) (s\<lparr>scope_tgid := m\<rparr>)"
    using m(2) by (simp add: staging_def other_maps_def)
  then show "\<exists>err n' m. map_option (Pair 0) (clear_all (fd_tgid (rl_fds rl))
        (stopped (rl_fault rl) (k_tgid kern)) n (scope_tgid s)) = Some (err, n', m) \<and>
      (if n' < rl_fault rl
       then err = 0 \<and> untouched rl (\<lambda>x. emptied rl True True True x) (n', s\<lparr>scope_tgid := m\<rparr>)
       else old_view rl (s\<lparr>scope_tgid := m\<rparr>))"
    using m(1,3) x
    by (cases "n' < rl_fault rl")
      (simp_all add: published_def progress_at_def rules_written_def old_view_def)
qed

lemma cut_write_comm:
  assumes rl: "stopping rl kern"
  shows "cut (rl_fault rl) (old_view rl) (untouched rl (\<lambda>x. published rl 0 x \<and> scope_comm (snd x) = [] \<and> scope_pid (snd x) = [] \<and> scope_tgid (snd x) = []))
    (on_comm (\<lambda>n m. Some (write_loop (fd_comm (rl_fds rl)) (stopped (rl_fault rl) (k_comm kern))
        (\<lambda>key. Entry key (scope_value (rl_config rl) MCP_GUARD_SCOPE_SELECTOR_COMM))
        (sls_comm_keys (rl_scope rl)) n m)))
    (untouched rl (\<lambda>x. published rl 1 x \<and> scope_pid (snd x) = [] \<and> scope_tgid (snd x) = []))"
proof (rule cut_write [OF write_comm_reload [OF stopping_ok [OF rl]]])
  show "on_comm (\<lambda>n m. Some (write_loop (fd_comm (rl_fds rl)) (stopped (rl_fault rl) (k_comm kern))
        (\<lambda>key. Entry key (scope_value (rl_config rl) MCP_GUARD_SCOPE_SELECTOR_COMM))
        (sls_comm_keys (rl_scope rl)) n m)) (n, s) =
      on_comm (\<lambda>n m. Some (write_loop (fd_comm (rl_fds rl)) (k_comm (rl_kern rl))
        (\<lambda>key. Entry key (scope_value (rl_config rl) MCP_GUARD_SCOPE_SELECTOR_COMM))
        (sls_comm_keys (rl_scope rl)) n m)) (n, s)"
    if "n < rl_fault rl" for n s
    unfolding stopping_kern [OF rl] faulted_kernel_simps
    by (rule on_map_same) (simp add: write_loop_same [OF rl that])
qed (auto simp: progress_at_def published_def dest: on_map_frame)

lemma cut_write_pid:
  assumes rl: "stopping rl kern"
  shows "cut (rl_fault rl) (old_view rl) (untouched rl (\<lambda>x. published rl 1 x \<and> scope_pid (snd x) = [] \<and> scope_tgid (snd x) = []))
    (on_pid (\<lambda>n m. Some (write_loop (fd_pid (rl_fds rl)) (stopped (rl_fault rl) (k_pid kern))
        (\<lambda>key. Entry key (scope_value (rl_config rl) MCP_GUARD_SCOPE_SELECTOR_PID))
        (sls_pid_keys (rl_scope rl)) n m)))
    (untouched rl (\<lambda>x. published rl 2 x \<and> scope_tgid (snd x) = []))"
proof (rule cut_write [OF write_pid_reload [OF stopping_ok [OF rl]]])
  show "on_pid (\<lambda>n m. Some (write_loop (fd_pid (rl_fds rl)) (stopped (rl_fault rl) (k_pid kern))
        (\<lambda>key. Entry key (scope_value (rl_config rl) MCP_GUARD_SCOPE_SELECTOR_PID))
        (sls_pid_keys (rl_scope rl)) n m)) (n, s) =
      on_pid (\<lambda>n m. Some (write_loop (fd_pid (rl_fds rl)) (k_pid (rl_kern rl))
        (\<lambda>key. Entry key (scope_value (rl_config rl) MCP_GUARD_SCOPE_SELECTOR_PID))
        (sls_pid_keys (rl_scope rl)) n m)) (n, s)"
    if "n < rl_fault rl" for n s
    unfolding stopping_kern [OF rl] faulted_kernel_simps
    by (rule on_map_same) (simp add: write_loop_same [OF rl that])
qed (auto simp: progress_at_def published_def dest: on_map_frame)

lemma cut_write_tgid:
  assumes rl: "stopping rl kern"
  shows "cut (rl_fault rl) (old_view rl) (untouched rl (\<lambda>x. published rl 2 x \<and> scope_tgid (snd x) = []))
    (on_tgid (\<lambda>n m. Some (write_loop (fd_tgid (rl_fds rl)) (stopped (rl_fault rl) (k_tgid kern))
        (\<lambda>key. Entry key (scope_value (rl_config rl) MCP_GUARD_SCOPE_SELECTOR_TGID))
        (sls_tgid_keys (rl_scope rl)) n m)))
    (untouched rl (published rl 3))"
proof (rule cut_write [OF write_tgid_reload [OF stopping_ok [OF rl]]])
  show "on_tgid (\<lambda>n m. Some (write_loop (fd_tgid (rl_fds rl)) (stopped (rl_fault rl) (k_tgid kern))
        (\<lambda>key. Entry key (scope_value (rl_config rl) MCP_GUARD_SCOPE_SELECTOR_TGID))
        (sls_tgid_keys (rl_scope rl)) n m)) (n, s) =
      on_tgid (\<lambda>n m. Some (write_loop (fd_tgid (rl_fds rl)) (k_tgid (rl_kern rl))
        (\<lambda>key. Entry key (scope_value (rl_config rl) MCP_GUARD_SCOPE_SELECTOR_TGID))
        (sls_tgid_keys (rl_scope rl)) n m)) (n, s)"
    if "n < rl_fault rl" for n s
    unfolding stopping_kern [OF rl] faulted_kernel_simps
    by (rule on_map_same) (simp add: write_loop_same [OF rl that])
qed (auto simp: progress_at_def published_def dest: on_map_frame)

lemma cut_write_scope:
  assumes rl: "stopping rl kern"
  shows "cut (rl_fault rl) (old_view rl) (untouched rl (published rl 0))
    (write_scope_maps (stop_kern rl kern) (rl_fds rl) (rl_scope rl) (rl_config rl))
    (untouched rl (published rl 3))"
proof -
  note frozen = frozen_clears frozen_write frozen_skip frozen_attempt
  have "cut (rl_fault rl) (old_view rl) (untouched rl (\<lambda>x. emptied rl False False False x))
    (write_scope_maps (stop_kern rl kern) (rl_fds rl) (rl_scope rl) (rl_config rl))
    (untouched rl (published rl 3))"
    unfolding write_scope_maps_def stopped_kernel_simps
    by (intro cut_attempt [OF cut_clear_comm [OF rl]] cut_attempt [OF cut_clear_pid [OF rl]]
        cut_attempt [OF cut_clear_tgid [OF rl]]
        cut_mono [OF cut_attempt [OF cut_write_comm [OF rl] _ _
            cut_attempt [OF cut_write_pid [OF rl] _ _ cut_write_tgid [OF rl]]]] frozen)
      simp_all
  then show ?thesis by (rule cut_mono) simp_all
qed

text \<open>The configuration and the epoch.\<close>

lemma new_view_published:
  assumes "published rl 4 (n, s)"
  shows "new_view rl s"
  using assms
  by (auto simp: new_view_def publish_frame commit_frame path_index.index.staged_sound
      command_index.index.staged_sound network_index.index.staged_sound
      resource_index.staged_sound)

lemma new_view_committed: "committed rl s \<Longrightarrow> new_view rl s"
  by (simp add: new_view_def committed_def other_maps_def rules_written_def scopes_written_def)

lemma cut_write_config:
  assumes rl: "stopping rl kern"
  shows "cut (rl_fault rl) (\<lambda>s. old_view rl s \<or> new_view rl s) (untouched rl (published rl 3))
    (write_config (stop_kern rl kern) (fd_config (rl_fds rl)) (rl_config rl)) (published rl 4)"
  unfolding cut_def
proof (intro allI impI)
  fix n s assume x: "untouched rl (published rl 3) (n, s)" and n: "n < rl_fault rl"
  have same: "write_config (stop_kern rl kern) fd config (n, s) = write_config (rl_kern rl) fd config (n, s)"
    for fd config
    using n unfolding write_config_def stopping_kern [OF rl]
    by (intro on_map_same) (simp add: array_update_stopped)
  from write_config_reload [OF stopping_ok [OF rl]] conjunct1 [OF x]
  obtain err y where step: "write_config (rl_kern rl) (fd_config (rl_fds rl)) (rl_config rl) (n, s) = Some (err, y)"
    "after_write rl (published rl 4) err y" by (rule achievesD)
  obtain s' where y: "y = (Suc n, s')"
    using step(1) by (cases y) (auto simp: write_config_def on_map_def split: prod.splits)
  have "err = 0"
    using step(2) n y by (cases "err = 0") (simp_all add: after_write_def progress_at_def)
  then have "published rl 4 (Suc n, s')" using step(2) y by (simp add: after_write_def)
  with new_view_published [OF this] step(1) y \<open>err = 0\<close>
  show "\<exists>err n' s'. write_config (stop_kern rl kern) (fd_config (rl_fds rl)) (rl_config rl) (n, s) =
        Some (err, n', s') \<and>
      (if n' < rl_fault rl then err = 0 \<and> published rl 4 (n', s')
       else old_view rl s' \<or> new_view rl s')"
    by (auto simp: same)
qed

lemma cut_bump_epoch:
  assumes rl: "stopping rl kern"
  shows "cut (rl_fault rl) (\<lambda>s. old_view rl s \<or> new_view rl s) (published rl 4)
    (bump_epoch (stop_kern rl kern) (fd_epoch (rl_fds rl))) (\<lambda>x. committed rl (snd x))"
  unfolding cut_def
proof (intro allI impI)
  fix n s assume x: "published rl 4 (n, s)" and n: "n < rl_fault rl"
  have same: "bump_epoch (stop_kern rl kern) fd (n, s) = bump_epoch (rl_kern rl) fd (n, s)" for fd
    using n unfolding bump_epoch_def stopping_kern [OF rl]
    by (intro on_map_same) (simp add: array_update_stopped)
  from bump_epoch_reload [OF stopping_ok [OF rl]] x
  obtain err y where step: "bump_epoch (rl_kern rl) (fd_epoch (rl_fds rl)) (n, s) = Some (err, y)"
    "after_write rl (\<lambda>x. committed rl (snd x)) err y" by (rule achievesD)
  obtain s' where y: "y = (Suc n, s')"
    using step(1) by (cases y) (auto simp: bump_epoch_def on_map_def Let_def split: prod.splits)
  have "err = 0"
    using step(2) n y by (cases "err = 0") (simp_all add: after_write_def progress_at_def)
  then have "committed rl s'" using step(2) y by (simp add: after_write_def)
  with new_view_committed [OF this] step(1) y \<open>err = 0\<close>
  show "\<exists>err n' s'. bump_epoch (stop_kern rl kern) (fd_epoch (rl_fds rl)) (n, s) = Some (err, n', s') \<and>
      (if n' < rl_fault rl then err = 0 \<and> committed rl (snd (n', s'))
       else old_view rl s' \<or> new_view rl s')"
    by (auto simp: same)
qed

text \<open>Retiring the old generation.\<close>

lemma cut_retire_path:
  assumes rl: "stopping rl kern" and "a \<noteq> rl_gen rl"
  shows "cut (rl_fault rl) (\<lambda>s. old_view rl s \<or> new_view rl s) (\<lambda>x. committed rl (snd x))
    (clear_path_generation (stop_kern rl kern) (fd_path (rl_fds rl)) a) (\<lambda>x. committed rl (snd x))"
  unfolding clear_path_generation_def stopped_kernel_simps
proof (rule cut_on_map)
  fix n :: nat and s assume x: "committed rl (snd (n, s))"
  then have "path_index.index.sound (path_policy_trie s)" by (simp add: committed_def)
  from path_index.index.staged_retire_stopped [OF stopping_laws(1) [OF rl]
      reload_laws(15) [OF stopping_ok [OF rl]] this assms(2), of "rl_fault rl" n]
  obtain n' m where m: "clear_generation (fd_path (rl_fds rl)) (stopped (rl_fault rl) (k_path kern))
      plk_generation a n (path_policy_trie s) = Some (n', m)" "path_index.index.sound m"
    "visible plk_generation (rl_gen rl) (set m) = visible plk_generation (rl_gen rl) (set (path_policy_trie s))" .
  have "committed rl (s\<lparr>path_policy_trie := m\<rparr>)" using x m(2,3) by (simp add: commit_frame)
  then show "\<exists>err n' m. map_option (Pair 0) (clear_generation (fd_path (rl_fds rl))
        (stopped (rl_fault rl) (k_path kern)) plk_generation a n (path_policy_trie s)) = Some (err, n', m) \<and>
      (if n' < rl_fault rl
       then err = 0 \<and> committed rl (snd (n', s\<lparr>path_policy_trie := m\<rparr>))
       else old_view rl (s\<lparr>path_policy_trie := m\<rparr>) \<or> new_view rl (s\<lparr>path_policy_trie := m\<rparr>))"
    using m(1) new_view_committed by simp
qed

lemma cut_retire_command:
  assumes rl: "stopping rl kern" and "a \<noteq> rl_gen rl"
  shows "cut (rl_fault rl) (\<lambda>s. old_view rl s \<or> new_view rl s) (\<lambda>x. committed rl (snd x))
    (clear_command_generation (stop_kern rl kern) (fd_command (rl_fds rl)) a) (\<lambda>x. committed rl (snd x))"
  unfolding clear_command_generation_def stopped_kernel_simps
proof (rule cut_on_map)
  fix n :: nat and s assume x: "committed rl (snd (n, s))"
  then have "command_index.index.sound (command_policy_trie s)" by (simp add: committed_def)
  from command_index.index.staged_retire_stopped [OF stopping_laws(2) [OF rl]
      reload_laws(16) [OF stopping_ok [OF rl]] this assms(2), of "rl_fault rl" n]
  obtain n' m where m: "clear_generation (fd_command (rl_fds rl)) (stopped (rl_fault rl) (k_command kern))
      clk_generation a n (command_policy_trie s) = Some (n', m)" "command_index.index.sound m"
    "visible clk_generation (rl_gen rl) (set m) = visible clk_generation (rl_gen rl) (set (command_policy_trie s))" .
  have "committed rl (s\<lparr>command_policy_trie := m\<rparr>)" using x m(2,3) by (simp add: commit_frame)
  then show "\<exists>err n' m. map_option (Pair 0) (clear_generation (fd_command (rl_fds rl))
        (stopped (rl_fault rl) (k_command kern)) clk_generation a n (command_policy_trie s)) = Some (err, n', m) \<and>
      (if n' < rl_fault rl
       then err = 0 \<and> committed rl (snd (n', s\<lparr>command_policy_trie := m\<rparr>))
       else old_view rl (s\<lparr>command_policy_trie := m\<rparr>) \<or> new_view rl (s\<lparr>command_policy_trie := m\<rparr>))"
    using m(1) new_view_committed by simp
qed

lemma cut_retire_network:
  assumes rl: "stopping rl kern" and "a \<noteq> rl_gen rl"
  shows "cut (rl_fault rl) (\<lambda>s. old_view rl s \<or> new_view rl s) (\<lambda>x. committed rl (snd x))
    (clear_network_generation (stop_kern rl kern) (fd_network (rl_fds rl)) a) (\<lambda>x. committed rl (snd x))"
  unfolding clear_network_generation_def stopped_kernel_simps
proof (rule cut_on_map)
  fix n :: nat and s assume x: "committed rl (snd (n, s))"
  then have "network_index.index.sound (network_policy_trie s)" by (simp add: committed_def)
  from network_index.index.staged_retire_stopped [OF stopping_laws(3) [OF rl]
      reload_laws(17) [OF stopping_ok [OF rl]] this assms(2), of "rl_fault rl" n]
  obtain n' m where m: "clear_generation (fd_network (rl_fds rl)) (stopped (rl_fault rl) (k_network kern))
      nlk_generation a n (network_policy_trie s) = Some (n', m)" "network_index.index.sound m"
    "visible nlk_generation (rl_gen rl) (set m) = visible nlk_generation (rl_gen rl) (set (network_policy_trie s))" .
  have "committed rl (s\<lparr>network_policy_trie := m\<rparr>)" using x m(2,3) by (simp add: commit_frame)
  then show "\<exists>err n' m. map_option (Pair 0) (clear_generation (fd_network (rl_fds rl))
        (stopped (rl_fault rl) (k_network kern)) nlk_generation a n (network_policy_trie s)) = Some (err, n', m) \<and>
      (if n' < rl_fault rl
       then err = 0 \<and> committed rl (snd (n', s\<lparr>network_policy_trie := m\<rparr>))
       else old_view rl (s\<lparr>network_policy_trie := m\<rparr>) \<or> new_view rl (s\<lparr>network_policy_trie := m\<rparr>))"
    using m(1) new_view_committed by simp
qed

lemma cut_retire_resource:
  assumes rl: "stopping rl kern" and "a \<noteq> rl_gen rl"
  shows "cut (rl_fault rl) (\<lambda>s. old_view rl s \<or> new_view rl s) (\<lambda>x. committed rl (snd x))
    (clear_resource_generation (stop_kern rl kern) (fd_resource (rl_fds rl)) a) (\<lambda>x. committed rl (snd x))"
  unfolding clear_resource_generation_def stopped_kernel_simps
proof (rule cut_on_map)
  fix n :: nat and s assume x: "committed rl (snd (n, s))"
  then have "resource_index.sound (resource_policy_hash s)" by (simp add: committed_def)
  from resource_index.staged_retire_stopped [OF stopping_laws(4) [OF rl]
      reload_laws(18) [OF stopping_ok [OF rl]] this assms(2), of "rl_fault rl" n]
  obtain n' m where m: "clear_generation (fd_resource (rl_fds rl)) (stopped (rl_fault rl) (k_resource kern))
      rpk_generation a n (resource_policy_hash s) = Some (n', m)" "resource_index.sound m"
    "visible rpk_generation (rl_gen rl) (set m) = visible rpk_generation (rl_gen rl) (set (resource_policy_hash s))" .
  have "committed rl (s\<lparr>resource_policy_hash := m\<rparr>)" using x m(2,3) by (simp add: commit_frame)
  then show "\<exists>err n' m. map_option (Pair 0) (clear_generation (fd_resource (rl_fds rl))
        (stopped (rl_fault rl) (k_resource kern)) rpk_generation a n (resource_policy_hash s)) = Some (err, n', m) \<and>
      (if n' < rl_fault rl
       then err = 0 \<and> committed rl (snd (n', s\<lparr>resource_policy_hash := m\<rparr>))
       else old_view rl (s\<lparr>resource_policy_hash := m\<rparr>) \<or> new_view rl (s\<lparr>resource_policy_hash := m\<rparr>))"
    using m(1) new_view_committed by simp
qed

lemma cut_retire:
  assumes rl: "stopping rl kern"
  shows "cut (rl_fault rl) (\<lambda>s. old_view rl s \<or> new_view rl s) (\<lambda>x. committed rl (snd x))
    (retire_generation (stop_kern rl kern) (rl_fds rl) (rl_snap rl) (rl_config rl))
    (\<lambda>x. committed rl (snd x))"
proof -
  have old: "cfg_active_generation (snap_config (rl_snap rl)) \<noteq> rl_gen rl" "snap_have_config (rl_snap rl)"
    using stopping_ok [OF rl] by (simp_all add: reload_ok_def snapshot_of_def)
  have "cut (rl_fault rl) (\<lambda>s. old_view rl s \<or> new_view rl s) (\<lambda>x. committed rl (snd x))
    (clear_generations (stop_kern rl kern) (rl_fds rl) (cfg_active_generation (snap_config (rl_snap rl))))
    (\<lambda>x. committed rl (snd x))"
    unfolding clear_generations_def
    by (intro cut_regardless [OF cut_retire_path [OF rl old(1)]]
        cut_regardless [OF cut_retire_command [OF rl old(1)]]
        cut_regardless [OF cut_retire_network [OF rl old(1)]]
        cut_regardless [OF cut_retire_resource [OF rl old(1)]] cut_skip
        frozen_clears frozen_regardless frozen_skip)
  then show ?thesis using old by (simp add: retire_generation_def)
qed

section \<open>The whole reload, stopped\<close>

lemmas frozen_steps = frozen_clears frozen_writes frozen_arrays(3,4) frozen_restore frozen_retire
  frozen_attempt frozen_regardless

lemma frozen_publish:
  "frozen N (publish_policy (stopped_kernel N kern) fds snap state scope config)"
  unfolding publish_policy_def Let_def by (intro frozen_steps)

lemma cut_publish:
  assumes rl: "stopping rl kern"
  shows "cut (rl_fault rl) (\<lambda>s. old_view rl s \<or> new_view rl s) (untouched rl (staged_all rl))
    (publish_policy (stop_kern rl kern) (rl_fds rl) (rl_snap rl) (rl_rules rl) (rl_scope rl)
      (rl_config rl)) (\<lambda>x. committed rl (snd x))"
  unfolding publish_policy_def Let_def
  by (intro cut_attempt [OF cut_weaken [OF cut_write_rules [OF rl]]]
        cut_attempt [OF cut_weaken [OF cut_write_scope [OF rl]]] cut_attempt [OF cut_write_config [OF rl]]
        cut_attempt [OF cut_bump_epoch [OF rl]] cut_retire [OF rl] frozen_steps)

lemma cut_write_policy:
  assumes rl: "stopping rl kern"
  shows "cut (rl_fault rl) (\<lambda>s. old_view rl s \<or> new_view rl s)
    (untouched rl (progress_at rl False (Old, Old, Old, Old)))
    (write_policy (stop_kern rl kern) (rl_fds rl) (rl_snap rl) (rl_rules rl) (rl_scope rl)
      (rl_config rl)) (\<lambda>x. committed rl (snd x))"
  unfolding write_policy_def Let_def
  by (intro cut_attempt [OF cut_weaken [OF cut_clear_path [OF rl]]]
        cut_attempt [OF cut_weaken [OF cut_clear_command [OF rl]]]
        cut_attempt [OF cut_weaken [OF cut_clear_network [OF rl]]]
        cut_attempt [OF cut_weaken [OF cut_clear_resource [OF rl]]]
        cut_attempt [OF cut_weaken [OF cut_write_path [OF rl]]]
        cut_attempt [OF cut_weaken [OF cut_write_command [OF rl]]]
        cut_attempt [OF cut_weaken [OF cut_write_network [OF rl]]]
        cut_attempt [OF cut_weaken [OF cut_write_resource [OF rl]]] cut_publish [OF rl]
        frozen_publish frozen_steps)

text \<open>The snapshot is taken before the first call that counts.\<close>

lemma snapshot_loop_stopped:
  assumes "snapshot_loop ops limit n key es m = Some r" and "n < N"
  shows "snapshot_loop (stopped N ops) limit n key es m = Some r"
proof -
  have "n < N \<longrightarrow> snapshot_loop (stopped N ops) limit n key es m = Some r"
  proof (rule snapshot_loop.raw_induct [OF _ assms(1)])
    fix loop ops' limit' n' key' es' m' r'
    assume ih: "\<And>ops limit n key es m r. loop ops limit n key es m = Some r \<Longrightarrow>
        n < N \<longrightarrow> snapshot_loop (stopped N ops) limit n key es m = Some r"
      and "(case mo_next ops' n' m' key' of
         None \<Rightarrow> Some (Inr es')
       | Some next_key \<Rightarrow>
           if limit' \<le> length es' then Some (Inl (- 28))
           else
             (case mo_lookup ops' m' next_key of
                None \<Rightarrow> Some (Inl (- 2))
              | Some v \<Rightarrow> loop ops' limit' n' (Some next_key) (es' @ [(next_key, v)]) m')) = Some r'"
    then show "n' < N \<longrightarrow> snapshot_loop (stopped N ops') limit' n' key' es' m' = Some r'"
      by (auto simp: snapshot_loop.simps [of "stopped N ops'" limit' n' key' es' m'] split: option.splits if_splits)
  qed
  then show ?thesis using assms(2) by simp
qed

lemma snapshot_map_stopped:
  "snapshot_map fd ops limit n m = Some r \<Longrightarrow> n < N \<Longrightarrow>
   snapshot_map fd (stopped N ops) limit n m = Some r"
  by (auto simp: snapshot_map_def snapshot_loop_stopped split: if_splits)

lemma bind_result_Some:
  assumes "bind_result a f = Some r" and "\<And>v. a = Some v \<Longrightarrow> b = Some v"
    and "\<And>v. f v = Some r \<Longrightarrow> g v = Some r"
  shows "bind_result b g = Some r"
  using assms by (auto simp: bind_result_def split: option.splits sum.splits)

lemma snapshot_stopped:
  assumes "snapshot_policy_maps kern fds n s = Some r" and n: "n < N"
  shows "snapshot_policy_maps (stopped_kernel N kern) fds n s = Some r"
  using assms(1) unfolding snapshot_policy_maps_def snapshot_path_trie_def
    snapshot_command_trie_def snapshot_network_trie_def snapshot_resource_hash_def
    snapshot_comm_scopes_def snapshot_id_scopes_def stopped_kernel_simps
  by (elim bind_result_Some) (auto intro: snapshot_map_stopped [OF _ n])

lemma load_dir_stopped:
  assumes kern: "\<forall>fault. kernel_law fault kern" and fds: "fds_ok fds" and maps: "policy_maps_ok s"
    and n: "n < N"
  shows "\<exists>r n' s'. mcp_policy_load_dir (stopped_kernel N kern) fds fs dir (n, s) = Some (r, n', s') \<and>
    (s' = s \<or>
     (\<exists>rl config. stopping rl kern \<and> rl_start rl = s \<and>
        read_policy_dir fs dir = Inr (config, rl_scope rl, rl_rules rl) \<and>
        rl_config rl = config\<lparr>cfg_active_generation := rl_gen rl\<rparr> \<and>
        (old_view rl s' \<or> new_view rl s')))"
proof -
  have fd: "\<not> (fd_rules fds < 0 \<or> fd_config fds < 0 \<or> fd_epoch fds < 0)"
    using fds by (simp add: fds_ok_def)
  note kern0 = kern [rule_format, of 0]
  show ?thesis
  proof (cases "read_policy_dir fs dir")
    case (Inl err)
    then show ?thesis using fd by (simp add: mcp_policy_load_dir_def)
  next
    case (Inr parts)
    then obtain config0 scope state where read: "read_policy_dir fs dir = Inr (config0, scope, state)"
      by (cases parts) auto
    obtain snap where snap: "snapshot_policy_maps kern fds n s =
        Some (if sizes_ok s then Inr snap else Inl (- 28))" "sizes_ok s \<longrightarrow> snapshot_of s snap"
      using snapshot_ends [OF kern0 fds maps] by blast
    note snap' = snapshot_stopped [OF snap(1) n]
    define config where "config = config0\<lparr>cfg_active_generation := next_generation snap\<rparr>"
    show ?thesis
    proof (cases "sizes_ok s \<and> validate_policy_state state config = 0")
      case False
      then show ?thesis using fd read snap'
        by (cases "sizes_ok s") (simp_all add: mcp_policy_load_dir_def Let_def config_def)
    next
      case True
      define rl where "rl = \<lparr>rl_kern = faulted_kernel N kern, rl_fds = fds, rl_start = s,
        rl_snap = snap, rl_rules = state, rl_scope = scope, rl_config = config, rl_fault = N\<rparr>"
      from reload_begins [OF faulted_kernel_law [OF kern] fds maps _ read] snap(2) True
      have "reload_ok rl" "progress_at rl False (Old, Old, Old, Old) (n, s)"
        by (simp_all add: rl_def config_def)
      then have rl: "stopping rl kern" "untouched rl (progress_at rl False (Old, Old, Old, Old)) (n, s)"
        "n < rl_fault rl"
        using kern n by (simp_all add: stopping_def rl_def)
      from cut_write_policy [OF rl(1)] rl(2,3)
      obtain err n' s' where cut:
        "write_policy (stop_kern rl kern) (rl_fds rl) (rl_snap rl) (rl_rules rl) (rl_scope rl)
          (rl_config rl) (n, s) = Some (err, n', s')"
        "if n' < rl_fault rl then err = 0 \<and> committed rl (snd (n', s'))
         else old_view rl s' \<or> new_view rl s'" by (rule cutE)
      then have w: "write_policy (stopped_kernel N kern) fds snap state scope config (n, s) =
          Some (err, n', s')" by (simp add: rl_def)
      from cut(2) have "old_view rl s' \<or> new_view rl s'"
        using new_view_committed by (auto split: if_splits)
      moreover have "\<exists>r. mcp_policy_load_dir (stopped_kernel N kern) fds fs dir (n, s) = Some (r, n', s')"
        using fd read snap' w True by (auto simp: mcp_policy_load_dir_def Let_def config_def)
      moreover have "rl_start rl = s" "read_policy_dir fs dir = Inr (config0, rl_scope rl, rl_rules rl)"
        "rl_config rl = config0\<lparr>cfg_active_generation := rl_gen rl\<rparr>"
        using read by (simp_all add: rl_def config_def)
      ultimately show ?thesis using rl(1) by blast
    qed
  qed
qed

section \<open>What requests see meanwhile\<close>

lemma old_view_verdict:
  assumes rl: "reload_ok rl" and h: "tries_law h" and s: "old_view rl s"
  shows "policy_verdict h req s = policy_verdict h req (rl_start rl)"
proof -
  have other: "cfg_active_generation (snap_config (rl_snap rl)) \<noteq> rl_gen rl"
    using rl by (simp add: reload_ok_def)
  note visible = path_index.index.staged_visible [OF _ other]
    command_index.index.staged_visible [OF _ other]
    network_index.index.staged_visible [OF _ other] resource_index.staged_visible [OF _ other]
  have "agree_on (cfg_active_generation (snap_config (rl_snap rl))) (rl_start rl) s"
    using rl s visible
    by (auto simp: agree_on_def old_view_def staging_def reload_ok_def policy_maps_ok_def
        snapshot_of_def intro: path_index.index.staged_sound command_index.index.staged_sound
        network_index.index.staged_sound resource_index.staged_sound)
  then show ?thesis by (rule agree_verdict [OF h])
qed

lemma new_view_verdict:
  assumes h: "tries_law h" and s: "new_view rl s"
    and read: "read_policy_dir fs dir = Inr (config, rl_scope rl, rl_rules rl)"
    and config: "rl_config rl = config\<lparr>cfg_active_generation := rl_gen rl\<rparr>"
  shows "policy_verdict h req s = spec_verdict config (loaded_rules (rl_rules rl)) req"
proof -
  have state: "load_state_ok (rl_rules rl)" "cfg_rule_count config = pls_next_index (rl_rules rl)"
    using read_policy_ok [OF read] by simp_all
  then have "cfg_rule_count (rl_config rl) = pls_next_index (rl_rules rl)"
    using arg_cong [OF config, of cfg_rule_count] by simp
  from committed_in_force [OF state(1) this s [unfolded new_view_def]]
  have "in_force (rl_config rl) (rl_scope rl) (loaded_rules (rl_rules rl)) s"
    by (simp add: in_force_def)
  from guard_implements_spec [OF h this, of req] show ?thesis
    by (subst (asm) config) (simp add: spec_generation)
qed



end
