(* ===== verification/Observations.thy ===== *)
theory Observations
  imports Daemon_Guarantees Interruption
begin

text \<open>
  Behaviour that modelling has shown and that a reader of the configuration would not expect, each
  on the definitions of the model: words for actions, prefixes of paths and addresses, numbers of
  profiles, and addresses that no network rule reaches.
\<close>

section \<open>Rule files\<close>

text \<open>Only two words restrict: any other word, misspelled or empty, allows.\<close>

lemma unknown_action_allows:
  "cstr word \<notin> {''deny'', ''audit''} \<Longrightarrow> parse_action word = MCP_GUARD_ACTION_ALLOW"
  by (simp add: parse_action_def)

lemma capital_deny_allows: "parse_action (padded 32 ''Deny'') = MCP_GUARD_ACTION_ALLOW"
  by (rule unknown_action_allows) code_simp

text \<open>A directory with its slash becomes a prefix of names, not of directories.\<close>

lemma directory_rule_widens:
  "cstr (snd (normalize_path_value (padded MCP_GUARD_RULE_VALUE_LEN ''/root/''))) = ''/root'' \<and>
   is_prefix ''/root'' ''/rootkit''"
  by code_simp

text \<open>A slash with nothing behind it is the block of all addresses.\<close>

lemma bare_slash_is_everything:
  "parse_ipv4_cidr (padded MCP_GUARD_RULE_VALUE_LEN ''10.0.0.0/'') = Inr (10, 0)"
  by code_simp

section \<open>Profiles\<close>

lemmas strtoul_eval = strtoul_def skip_sign_def detect_base_def is_digit_def digit_value_def
  digits_value_def c_isspace_def

lemma number_fields:
  \<open>json_field ''{"pid":0}'' ''pid'' = Some ''0}''\<close>
  \<open>json_field ''{"pids":[0]}'' ''pid'' = None\<close>
  \<open>json_field ''{"pids":[0]}'' ''pids'' = Some ''[0]}''\<close>
  \<open>json_field ''{"profile_id":-18446744073709551615}'' ''profile_id'' =
     Some ''-18446744073709551615}''\<close>
  by code_simp+

text \<open>A thread id of 0 is refused alone and accepted in an array.\<close>

lemma zero_id_in_array:
  \<open>load_ids ''{"pid":0}'' ''pid'' ''pids'' [] = Inl (- 22)\<close>
  \<open>load_ids ''{"pids":[0]}'' ''pid'' ''pids'' [] = Inr [0]\<close>
proof -
  have "strtoul 0 ''0}'' = (0, 0, ''}'')" "strtoul 0 ''0]}'' = (0, 0, '']}'')"
    by (simp_all add: strtoul_eval)
  then show \<open>load_ids ''{"pid":0}'' ''pid'' ''pids'' [] = Inl (- 22)\<close>
    \<open>load_ids ''{"pids":[0]}'' ''pid'' ''pids'' [] = Inr [0]\<close>
    by (simp_all add: load_ids_def json_get_u32_def json_get_u32_array_def number_fields
        add_id_scope_def u32_array_loop.simps skip_separators_def c_isspace_def strtoul_end_def)
qed

text \<open>A negative number wraps round to a small one.\<close>

lemma negative_number_wraps:
  \<open>json_get_u32 ''{"profile_id":-18446744073709551615}'' ''profile_id'' 0 = (0, 1)\<close>
proof -
  have "strtoul 0 ''-18446744073709551615}'' = (0, 1, ''}'')" by (simp add: strtoul_eval)
  then show ?thesis by (simp add: json_get_u32_def number_fields)
qed

section \<open>Addresses\<close>

text \<open>Every address family but IPv4 passes, whatever the default action.\<close>

lemma other_families_pass:
  assumes "sa_family a \<noteq> MCP_GUARD_AF_INET"
  shows "d_action (policy_verdict h (Req_connect (Some a)) s) = MCP_GUARD_ACTION_ALLOW"
  using assms by (simp add: socket_safe_def mcp_l2_socket_decide_def)

section \<open>Windows of a reload\<close>

text \<open>The scope maps have no generations: a reload empties them before it fills them again, under a
  configuration that still is in force.  In the meantime a scoped task is out of scope and passes
  every hook, and stays so if the daemon is killed there.\<close>

definition agent_maps :: bpf_state where
  "agent_maps = loaded_maps
     \<lparr>policy_config := [MCP_GUARD_CONFIG_KEY \<mapsto> default_config\<lparr>cfg_active_generation := 1,
        cfg_scope_mode := MCP_GUARD_SCOPE_SCOPED, cfg_scope_count := 1\<rparr>],
      scope_comm := [(\<lparr>csk_comm = padded 16 ''agent''\<rparr>,
        scope_value default_config MCP_GUARD_SCOPE_SELECTOR_COMM)]\<rparr>"

definition agent_task :: task where
  "agent_task = \<lparr>t_pid_tgid = 0x700000007, t_uid_gid = 0, t_comm = padded 16 ''agent'',
     t_cpu = 0\<rparr>"

text \<open>Whether the agent is in scope when a reload of its own profile is stopped at call \<open>N\<close> of the
  step that writes the scope maps.\<close>

definition agent_in_scope :: "nat \<Rightarrow> bool option" where
  "agent_in_scope N =
     map_option (\<lambda>(err, n, s). mcp_scope_matches agent_task s)
       (write_scope_maps (stopped_kernel N healthy) sample_fds
         \<lparr>sls_comm_keys = [\<lparr>csk_comm = padded 16 ''agent''\<rparr>], sls_pid_keys = [], sls_tgid_keys = []\<rparr>
         default_config (0, agent_maps))"

lemma scope_gap:
  "agent_in_scope 0 = Some True" "agent_in_scope 1 = Some False" "agent_in_scope 2 = Some True"
  by code_simp+

text \<open>The way back of a failed reload deletes the rules in force before it puts them back: for a
  while the paths they deny are decided by the default action.\<close>

definition denied_maps :: bpf_state where
  "denied_maps = loaded_maps
     \<lparr>policy_config := [MCP_GUARD_CONFIG_KEY \<mapsto>
        default_config\<lparr>cfg_rule_count := 1, cfg_active_generation := 1\<rparr>],
      path_policy_trie := [(\<lparr>plk_prefixlen = 32 + 40, plk_generation = 1,
          plk_path = padded MCP_GUARD_PATH_LEN ''/root''\<rparr>,
        path_value_from_rule (sample_rule\<lparr>rule_action := MCP_GUARD_ACTION_DENY\<rparr>))]\<rparr>"

definition denied_snapshot :: policy_map_snapshot where
  "denied_snapshot =
     \<lparr>snap_rules = replicate 32 zero_rule, snap_config = the (policy_config denied_maps 0),
      snap_path = path_policy_trie denied_maps, snap_command = [], snap_network = [],
      snap_resource = [], snap_comm = [], snap_pid = [], snap_tgid = [], snap_have_config = True\<rparr>"

definition root_action :: "nat \<Rightarrow> u32 option" where
  "root_action N =
     map_option (\<lambda>(err, n, s). d_action (policy_verdict reference_helpers (Req_open root_file) s))
       (restore_path_trie (stopped_kernel N healthy) 5 denied_snapshot (0, denied_maps))"

lemma rollback_gap:
  "root_action 0 = Some MCP_GUARD_ACTION_DENY" "root_action 1 = Some MCP_GUARD_ACTION_ALLOW"
  "root_action 2 = Some MCP_GUARD_ACTION_DENY"
  by code_simp+

end
