(* ===== verification/Spec2Isabelle.thy ===== *)
theory Spec2Isabelle
  imports Baseline_Policy Ptrace_Monitor Workload Delivery Observations Interruption
begin

text \<open>
  PolicyTLB / MCP eBPF Guard: a guard for Linux that decides file, exec and connect requests in
  BPF programs on LSM hooks, from policy maps that a daemon fills from JSON files.

  \<^bold>\<open>The program and its model.\<close>  The BPF side (\<^verbatim>\<open>bpf/\<close>) has one entry program per hook.  It looks
  the request up in a cache of decisions (L1), tail-calls a second program that passes what is
  safe by its class (L2), which tail-calls a third that looks the rules up in tries and a hash
  (L3).  The state of this side is the record \<open>bpf_state\<close>, one field per map; a program is a
  function of helpers, task, hook argument, earlier return value and state to the return value
  and the new state.  The user side (\<^verbatim>\<open>loader/\<close>) loads the object, reads the policy directory,
  rewrites the maps under a new generation, and then serves: it reloads on SIGHUP, accepts
  clients on a Unix socket and sends them events and metrics as lines of JSON.  Its functions are
  steps on the maps with errors as negative \<^verbatim>\<open>errno\<close> values; its main loop is a machine whose
  points are the stages of the loop body, between which requests, signals and connections occur.

  \<^bold>\<open>Theories, in the order of the code.\<close>
  \<^item> \<open>Prelude\<close>: C integers, buffers and strings, bytes, collections of definitions for automation.
  \<^item> \<open>Common\<close>: \<^verbatim>\<open>include/*.h\<close>; every struct a record, every constant an abbreviation.
  \<^item> \<open>Kernel\<close>: \<^verbatim>\<open>bpf/maps.bpf.h\<close>, the kernel objects a program reads, the helpers (\<open>helpers\<close>) and
    their laws (\<open>tries_law\<close>: longest prefix match; \<open>strings_law\<close>: \<^verbatim>\<open>bpf_d_path\<close> and string reads;
    \<open>lru_law\<close>: an LRU map returns what was stored or nothing), with reference helpers that meet them.
  \<^item> \<open>FastPath\<close>, \<open>SemiFastPath\<close>, \<open>SlowPath\<close>: \<^verbatim>\<open>bpf/l1_*, l2_*, l3_*.bpf.c\<close>.
  \<^item> \<open>Guard\<close>, \<open>Hooks\<close>, \<open>Chains\<close>, \<open>Requests\<close>: the twelve programs of \<^verbatim>\<open>bpf/mcp_guard.bpf.c\<close>, what
    they may change (\<open>Frames\<close>), the tail-call chains, and a hook call as one \<open>request\<close>.
  \<^item> \<open>Deciders\<close>, \<open>Enforcement\<close>, \<open>Coherence\<close>, \<open>Metrics\<close>: what a request is answered (\<open>decision\<close>
    by cache, safe class, rule, default), the cache invariant over all histories (\<open>guard_reach\<close>),
    the counters.
  \<^item> \<open>Boot\<close>: \<^verbatim>\<open>loader/bpf_loader.c\<close>.
  \<^item> \<open>Json\<close>, \<open>Rule_Files\<close>, \<open>Loaded_Rules\<close>: reading half of \<^verbatim>\<open>loader/policy_loader.c\<close>; the JSON
    scanner as written (not a JSON parser), rule, configuration and profile files, validation.
  \<^item> \<open>Indexes\<close>, \<open>Maps\<close>, \<open>Policy_Load\<close>: its writing half; entries of the indexes, the loops over a
    map (locales \<open>generation_index\<close>, \<open>lpm_index\<close>, \<open>prefix_trie\<close>, \<open>rule_trie\<close>, each interpreted on
    the four indexes), \<open>mcp_policy_load_dir\<close> with every way back.
  \<^item> \<open>Staging\<close>, \<open>Reload\<close>, \<open>Atomic_Reload\<close>, \<open>Policy_Spec\<close>, \<open>Guarantees\<close>: total correctness of a
    reload against the specification \<open>spec_verdict\<close>; \<open>List_Kernel\<close> is a kernel of lists on which the
    witnesses compute.
  \<^item> \<open>Interruption\<close>: a reload cut short after any number of its calls.
  \<^item> \<open>Event_Server\<close>: \<^verbatim>\<open>loader/unix_socket_server.c\<close>.
  \<^item> \<open>Launch\<close>: command line, privileges and launch of the GUI, from \<^verbatim>\<open>loader/main.c\<close>.
  \<^item> \<open>Console\<close>: the lines that \<^verbatim>\<open>loader/main.c\<close> prints, for events, loads and metrics.
  \<^item> \<open>Daemon\<close>, \<open>Daemon_Guarantees\<close>: the rest of \<^verbatim>\<open>loader/main.c\<close> with \<^verbatim>\<open>loader/ringbuf_reader.c\<close>;
    reachable states of the running daemon (\<open>daemon_reach\<close>) and what holds in all of them.
  \<^item> \<open>Delivery\<close>: the same runs with the list of all events emitted (\<open>daemon_log\<close>); each event is
    printed once, in order, and sent to the clients that stay.
  \<^item> \<open>Baseline\<close>, \<open>Baseline_Loader\<close>, \<open>Baseline_Policy\<close>: the naive guard of
    \<^verbatim>\<open>experiments/baselines/naive_ebpf_lsm\<close>, its loader, and what the two deny together.
  \<^item> \<open>Ptrace_Monitor\<close>, \<open>Workload\<close>: the other programs of the measurements,
    \<^verbatim>\<open>experiments/baselines/ptrace_monitor\<close> and \<^verbatim>\<open>experiments/baselines/workloads\<close>.
  \<^item> \<open>Observations\<close>: behaviour a reader of the configuration would not expect.

  \<^bold>\<open>What is shown.\<close>  The daemon refines its specification: in every reachable state a request gets
  the decision that the last loaded files specify, for it or for a request cached under its
  resource (C1), and connect gets exactly its own (C2).  Below it: a reload implements the files
  (C3), is atomic for requests in between and under a crash (C4), changes nothing when it fails,
  ends, succeeds when it can, and commits with a new epoch; the three-layer pipelines decide,
  count, log and cache as specified on every branch; cache entries that hit are current; metrics
  add up; no event is lost between the ring buffer and the console, and a blocked request is printed by
  the poll that empties the buffer; reading files keeps the load state well formed; descriptors are conserved; lines fit
  their buffers; options round trip.  The naive baseline decides as the guard does under the same
  rules, and denies exactly its seven; the ptrace baseline counts each call once; the workload ends.

  \<^bold>\<open>Assumptions, by name.\<close>  \<open>kernel_law\<close>: the maps behave as the kernel documents them, have the
  room that \<^verbatim>\<open>maps.bpf.h\<close> declares, and at most one system call fails during a load (for a stop at
  call \<open>N\<close>: every call from \<open>N\<close> on).  \<open>fds_ok\<close>: the descriptors of the loaded maps are not
  negative.  \<open>fresh_clients\<close>: a descriptor names one connection.  \<open>policy_maps_ok\<close>: arrays are full and maps hold no two entries of one name; the loaded
  object has it and every reload keeps it.  \<open>formats_ok\<close>: \<^verbatim>\<open>strerror\<close> texts and printed ratios are
  short.  Each has a concrete instance, used by the witnesses.

  \<^bold>\<open>Termination.\<close>  No fuel is used: loops over maps are \<open>partial_function (option)\<close>, where \<open>None\<close> is
  a loop that does not end, and they are shown to return \<open>Some\<close>; the others recurse on lists.

  \<^bold>\<open>Not modelled.\<close>  \<^verbatim>\<open>bpf/vmlinux.h\<close> (generated from a kernel's type information; the few structs
  read are records of \<open>Kernel\<close>), libbpf and the generated skeleton (parameters), what
  \<^verbatim>\<open>bpf_loader.c\<close>, the warning of an unknown flag and the baselines print, the texts that \<^verbatim>\<open>printf\<close>
  makes of floating-point numbers (parameters, \<open>number_formats\<close>), the clock of the measurements, the Python
  GUI, and the shell and Python scripts.  Requests interleave with the stages of
  the daemon (\<open>daemon_reach\<close>) and with the system calls of a reload (\<open>Interruption\<close>), but each
  request runs its programs without interruption.
\<close>

end
